(* ===== verification/CStrings.thy ===== *)
theory CStrings
  imports Main "HOL-Library.Word"
begin

text \<open>
  Prelude of the development.  It holds what the C sources take from the
  language and its standard library, and the generic facts every component
  shares:

  \<^item> C strings as HOL strings.  A \<open>char *\<close> that points to a terminated string is the
    list of the characters before the terminator; a pointer that the code
    tests against NULL is an option.  The result of a copy into a buffer
    of size \<open>n\<close> is the string read back from the buffer.
  \<^item> The character classes of the C locale (\<open>isspace\<close>, \<open>isdigit\<close>,
    \<open>isalnum\<close>).
  \<^item> \<open>strncmp\<close>, \<open>strtol\<close>, \<open>atoi\<close> and the \<open>%d\<close> conversion of \<open>snprintf\<close>.
  \<^item> The collections of simplification rules used by the component proofs.
\<close>

section \<open>Collections of rules\<close>

named_theorems char_simps \<open>character classes and conversions\<close>
named_theorems cstr_simps \<open>facts on bounded copies, prefixes and splitting\<close>

section \<open>Character classes of the C locale\<close>

type_synonym cstring = string

definition is_space :: "char \<Rightarrow> bool" where
  "is_space c \<longleftrightarrow> c = CHR '' '' \<or> c = CHR 0x09 \<or> c = CHR 0x0A \<or> c = CHR 0x0B
     \<or> c = CHR 0x0C \<or> c = CHR 0x0D"

definition is_digit :: "char \<Rightarrow> bool" where
  "is_digit c \<longleftrightarrow> 48 \<le> (of_char c :: nat) \<and> (of_char c :: nat) \<le> 57"

definition is_alnum :: "char \<Rightarrow> bool" where
  "is_alnum c \<longleftrightarrow> (let n = (of_char c :: nat) in
     is_digit c \<or> (65 \<le> n \<and> n \<le> 90) \<or> (97 \<le> n \<and> n \<le> 122))"

definition to_lower :: "char \<Rightarrow> char" where
  "to_lower c = (if 65 \<le> (of_char c :: nat) \<and> (of_char c :: nat) \<le> 90 then char_of ((of_char c :: nat) + 32) else c)"

definition strcasecmp_eq :: "cstring \<Rightarrow> cstring \<Rightarrow> bool" where
  "strcasecmp_eq a b \<longleftrightarrow> map to_lower a = map to_lower b"

definition newline :: char where
  "newline = CHR 0x0A"

section \<open>Bounded copies and comparisons\<close>

text \<open>\<open>strncpy (d, s, n - 1); d[n - 1] = '\0'\<close>, the idiom used for every fixed
  buffer: the buffer then holds the first \<open>n - 1\<close> characters.  A
  \<open>snprintf (d, n, "%s", s)\<close> leaves the same contents.\<close>

definition bounded_copy :: "nat \<Rightarrow> cstring \<Rightarrow> cstring" where
  "bounded_copy n s = take (n - 1) s"

text \<open>\<open>strncmp (a, b, n) == 0\<close> on terminated strings.\<close>

definition strncmp_eq :: "nat \<Rightarrow> cstring \<Rightarrow> cstring \<Rightarrow> bool" where
  "strncmp_eq n a b \<longleftrightarrow> take n a = take n b"

text \<open>\<open>strcspn (s, "\n")\<close> followed by a terminator there, and \<open>strchr\<close>.\<close>

definition chomp :: "cstring \<Rightarrow> cstring" where
  "chomp s = takeWhile (\<lambda>c. c \<noteq> newline) s"

definition strchr_tail :: "char \<Rightarrow> cstring \<Rightarrow> cstring option" where
  "strchr_tail c s = (case dropWhile (\<lambda>x. x \<noteq> c) s of [] \<Rightarrow> None | t \<Rightarrow> Some t)"

section \<open>Decimal conversions\<close>

definition digit_char :: "nat \<Rightarrow> char" where
  "digit_char d = char_of (48 + d)"

definition digit_val :: "char \<Rightarrow> nat" where
  "digit_val c = of_char c - 48"

fun dec_digits :: "nat \<Rightarrow> cstring" where
  "dec_digits n = (if n < 10 then [digit_char n]
                   else dec_digits (n div 10) @ [digit_char (n mod 10)])"

declare dec_digits.simps [simp del]

text \<open>The \<open>%d\<close>, \<open>%ld\<close> and \<open>%zu\<close> conversions of \<open>snprintf\<close>.\<close>

definition show_nat :: "nat \<Rightarrow> cstring" where
  "show_nat n = dec_digits n"

definition show_int :: "int \<Rightarrow> cstring" where
  "show_int i = (if i < 0 then CHR ''-'' # show_nat (nat (- i)) else show_nat (nat i))"

definition dec_value :: "cstring \<Rightarrow> nat" where
  "dec_value ds = foldl (\<lambda>a c. 10 * a + digit_val c) 0 ds"

text \<open>\<open>strtol (s, &end, 10)\<close> before range clamping: leading white space, an
  optional sign, a maximal run of digits.  With no digits the value is 0
  and \<open>end\<close> is the start of the string.\<close>

definition strtol_sign :: "cstring \<Rightarrow> bool \<times> cstring" where
  "strtol_sign s = (case s of
       [] \<Rightarrow> (False, [])
     | c # t \<Rightarrow> if c = CHR ''-'' then (True, t)
                else if c = CHR ''+'' then (False, t) else (False, s))"

definition strtol_raw :: "cstring \<Rightarrow> int \<times> cstring" where
  "strtol_raw s = (let (neg, t) = strtol_sign (dropWhile is_space s);
       ds = takeWhile is_digit t in
     if ds = [] then (0, s)
     else ((if neg then - int (dec_value ds) else int (dec_value ds)),
           dropWhile is_digit t))"

text \<open>\<open>strtol\<close> and \<open>strtoll\<close> with 64-bit results clamp and set \<open>errno\<close> to
  \<open>ERANGE\<close>; the third component is that flag.\<close>

definition LONG_MAX_I :: int where "LONG_MAX_I = 9223372036854775807"
definition LONG_MIN_I :: int where "LONG_MIN_I = - 9223372036854775808"
definition INT_MAX_I :: int where "INT_MAX_I = 2147483647"
definition INT_MIN_I :: int where "INT_MIN_I = - 2147483648"

definition strtol64 :: "cstring \<Rightarrow> int \<times> cstring \<times> bool" where
  "strtol64 s = (let (v, rest) = strtol_raw s in
     if v > LONG_MAX_I then (LONG_MAX_I, rest, True)
     else if v < LONG_MIN_I then (LONG_MIN_I, rest, True)
     else (v, rest, False))"

text \<open>\<open>atoi\<close> is glibc's \<open>(int) strtol (s, NULL, 10)\<close>: the low 32 bits, read as signed.\<close>

definition int32_of :: "int \<Rightarrow> int" where
  "int32_of v = (v + 2147483648) mod 4294967296 - 2147483648"

definition atoi :: "cstring \<Rightarrow> int" where
  "atoi s = int32_of (fst (strtol64 s))"

section \<open>Splitting at a separator\<close>

text \<open>All maximal pieces between occurrences of a separator; the number of
  pieces is the number of separators plus one.\<close>

fun split_on :: "char \<Rightarrow> cstring \<Rightarrow> cstring list" where
  "split_on d [] = [[]]"
| "split_on d (c # cs) = (if c = d then [] # split_on d cs
     else case split_on d cs of [] \<Rightarrow> [[c]] | f # fs \<Rightarrow> (c # f) # fs)"

fun join_with :: "char \<Rightarrow> cstring list \<Rightarrow> cstring" where
  "join_with d [] = []"
| "join_with d [f] = f"
| "join_with d (f # g # fs) = f @ d # join_with d (g # fs)"

section \<open>Character lemmas\<close>

lemma is_space_code [char_simps]:
  "is_space c \<longleftrightarrow> (of_char c :: nat) = 32 \<or> (9 \<le> (of_char c :: nat) \<and> (of_char c :: nat) \<le> 13)"
proof -
  have eq: "(of_char c :: nat) = of_char d \<longleftrightarrow> c = d" for d
    by simp
  have "9 \<le> n \<and> n \<le> 13 \<longleftrightarrow> n = 9 \<or> n = 10 \<or> n = 11 \<or> n = 12 \<or> n = (13::nat)" for n
    by auto
  then show ?thesis
    using eq [of "CHR '' ''"] eq [of "CHR 0x09"] eq [of "CHR 0x0A"] eq [of "CHR 0x0B"]
      eq [of "CHR 0x0C"] eq [of "CHR 0x0D"]
    by (simp add: is_space_def)
qed

lemma digit_not_space [char_simps]: "is_digit c \<Longrightarrow> \<not> is_space c"
  by (simp add: is_digit_def is_space_code)

lemma is_space_newline [simp]: "is_space newline"
  by (simp add: is_space_def newline_def)

lemma is_digit_digit_char [simp]: "d < 10 \<Longrightarrow> is_digit (digit_char d)"
  by (simp add: is_digit_def digit_char_def)

lemma digit_val_digit_char [simp]: "d < 10 \<Longrightarrow> digit_val (digit_char d) = d"
  by (simp add: digit_val_def digit_char_def)

lemma digit_not_sign [char_simps]: "is_digit c \<Longrightarrow> c \<noteq> CHR ''-'' \<and> c \<noteq> CHR ''+''"
  by (auto simp: is_digit_def)

section \<open>List lemmas\<close>

lemma bounded_copy_id [cstr_simps]: "length s < n \<Longrightarrow> bounded_copy n s = s"
  by (simp add: bounded_copy_def)

lemma length_bounded_copy [cstr_simps]: "0 < n \<Longrightarrow> length (bounded_copy n s) < n"
  by (simp add: bounded_copy_def)

lemma bounded_copy_idem [simp]: "bounded_copy n (bounded_copy n s) = bounded_copy n s"
  by (simp add: bounded_copy_def)

lemma set_bounded_copy: "set (bounded_copy n s) \<subseteq> set s"
  by (simp add: bounded_copy_def set_take_subset)

lemma strncmp_eq_refl [simp]: "strncmp_eq n a a"
  by (simp add: strncmp_eq_def)

lemma strncmp_eq_iff [cstr_simps]:
  "length a < n \<Longrightarrow> length b < n \<Longrightarrow> strncmp_eq n a b \<longleftrightarrow> a = b"
  by (simp add: strncmp_eq_def)

lemma takeWhile_all [simp]: "\<forall>x\<in>set xs. P x \<Longrightarrow> takeWhile P xs = xs"
  by (simp add: takeWhile_eq_all_conv)

lemma dropWhile_all [simp]: "\<forall>x\<in>set xs. P x \<Longrightarrow> dropWhile P xs = []"
  by (simp add: dropWhile_eq_Nil_conv)

lemma list_all_update: "list_all P xs \<Longrightarrow> P x \<Longrightarrow> list_all P (xs[i := x])"
  by (auto simp: list_all_iff dest: set_update_subset_insert [THEN subsetD])

lemma distinct_map_update:
  assumes "distinct (map g xs)"
    "\<And>y z. y \<in> set xs \<Longrightarrow> z \<in> set xs \<Longrightarrow> g y \<noteq> g z \<Longrightarrow> g (f y) \<noteq> g (f z)"
  shows "distinct (map g (map f xs))"
  using assms
proof (induction xs)
  case (Cons x xs)
  have "g (f x) \<noteq> g (f y)" if "y \<in> set xs" for y
    using that Cons.prems(1) by (intro Cons.prems(2)) auto
  then show ?case
    using Cons by auto
qed simp

lemma strchr_tail_length:
  assumes "strchr_tail c s = Some t"
  shows "length (tl t) < length s"
proof -
  have "dropWhile (\<lambda>x. x \<noteq> c) s = t" "t \<noteq> []"
    using assms by (auto simp: strchr_tail_def split: list.splits)
  then have "length t \<le> length s" "t \<noteq> []"
    using length_dropWhile_le [of "\<lambda>x. x \<noteq> c" s] by simp_all
  then show ?thesis
    by (cases t) auto
qed

lemma split_on_ne [simp]: "split_on d s \<noteq> []"
  by (induction s) (auto split: list.splits)

lemma split_on_no_sep [cstr_simps]: "d \<notin> set s \<Longrightarrow> split_on d s = [s]"
  by (induction s) auto

lemma split_on_append [cstr_simps]:
  "d \<notin> set f \<Longrightarrow> split_on d (f @ d # s) = f # split_on d s"
  by (induction f) auto

lemma split_on_join [cstr_simps]:
  "fs \<noteq> [] \<Longrightarrow> \<forall>f\<in>set fs. d \<notin> set f \<Longrightarrow> split_on d (join_with d fs) = fs"
  by (induction d fs rule: join_with.induct) (simp_all add: cstr_simps)

lemma join_split_on [simp]: "join_with d (split_on d s) = s"
proof (induction s)
  case (Cons c cs)
  obtain f fs where fs: "split_on d cs = f # fs"
    using split_on_ne by (meson neq_Nil_conv)
  show ?case
    using Cons fs by (cases fs) auto
qed simp

lemma split_on_pieces: "f \<in> set (split_on d s) \<Longrightarrow> d \<notin> set f"
  by (induction s arbitrary: f) (auto split: list.splits if_splits)

lemma length_split_on: "length (split_on d s) = Suc (count_list s d)"
  by (induction s) (auto split: list.splits)

lemma set_join_with: "set (join_with d fs) \<subseteq> insert d (\<Union>(set ` set fs))"
  by (induction d fs rule: join_with.induct) auto

section \<open>Decimal lemmas\<close>

lemma dec_digits_ne [simp]: "dec_digits n \<noteq> []"
  by (subst dec_digits.simps) simp

lemma dec_digits_digits: "c \<in> set (dec_digits n) \<Longrightarrow> is_digit c"
proof (induction n rule: dec_digits.induct)
  case (1 n)
  then show ?case
    by (subst (asm) (2) dec_digits.simps) (auto split: if_splits)
qed

lemma dec_value_snoc: "dec_value (ds @ [c]) = 10 * dec_value ds + digit_val c"
  by (simp add: dec_value_def)

lemma dec_value_digits [simp]: "dec_value (dec_digits n) = n"
proof (induction n rule: dec_digits.induct)
  case (1 n)
  show ?case
  proof (cases "n < 10")
    case True
    then show ?thesis
      by (subst dec_digits.simps) (simp add: dec_value_def)
  next
    case False
    then show ?thesis
      using 1 by (subst dec_digits.simps) (simp add: dec_value_snoc)
  qed
qed

lemma dec_digits_hd: "is_digit (hd (dec_digits n))"
  using dec_digits_digits [of "hd (dec_digits n)" n] by simp

lemma strtol_digits:
  assumes "ds \<noteq> []" "\<forall>c\<in>set ds. is_digit c" "r = [] \<or> \<not> is_digit (hd r)"
  shows "strtol_raw (ds @ r) = (int (dec_value ds), r)"
proof -
  obtain c cs where ds: "ds = c # cs"
    using assms(1) by (cases ds) auto
  have c: "is_digit c" "\<not> is_space c" "c \<noteq> CHR ''-''" "c \<noteq> CHR ''+''"
    using assms(2) ds digit_not_space digit_not_sign by auto
  have "strtol_sign (dropWhile is_space (ds @ r)) = (False, ds @ r)"
    using c ds by (simp add: strtol_sign_def)
  moreover have "takeWhile is_digit (ds @ r) = ds" "dropWhile is_digit (ds @ r) = r"
    using assms by (cases r; simp add: takeWhile_append dropWhile_append)+
  ultimately show ?thesis
    using assms(1) by (simp add: strtol_raw_def)
qed

lemma strtol_neg_digits:
  assumes "ds \<noteq> []" "\<forall>c\<in>set ds. is_digit c" "r = [] \<or> \<not> is_digit (hd r)"
  shows "strtol_raw (CHR ''-'' # ds @ r) = (- int (dec_value ds), r)"
proof -
  have "strtol_sign (dropWhile is_space (CHR ''-'' # ds @ r)) = (True, ds @ r)"
    by (simp add: strtol_sign_def is_space_code)
  moreover have "takeWhile is_digit (ds @ r) = ds" "dropWhile is_digit (ds @ r) = r"
    using assms by (cases r; simp add: takeWhile_append dropWhile_append)+
  ultimately show ?thesis
    using assms(1) by (simp add: strtol_raw_def)
qed

lemma strtol_show_int:
  assumes "r = [] \<or> \<not> is_digit (hd r)"
  shows "strtol_raw (show_int i @ r) = (i, r)"
  using strtol_digits [of "dec_digits (nat i)" r] strtol_neg_digits [of "dec_digits (nat (- i))" r]
    assms dec_digits_digits
  by (auto simp: show_int_def show_nat_def)

lemma int32_of_id: "INT_MIN_I \<le> v \<Longrightarrow> v \<le> INT_MAX_I \<Longrightarrow> int32_of v = v"
  by (simp add: int32_of_def INT_MIN_I_def INT_MAX_I_def)

lemma int32_of_range: "INT_MIN_I \<le> int32_of v \<and> int32_of v \<le> INT_MAX_I"
  using pos_mod_bound [of 4294967296 "v + 2147483648"] pos_mod_sign [of 4294967296 "v + 2147483648"]
  by (auto simp: int32_of_def INT_MIN_I_def INT_MAX_I_def)

lemma strtol64_show_int:
  assumes "LONG_MIN_I \<le> i" "i \<le> LONG_MAX_I" "r = [] \<or> \<not> is_digit (hd r)"
  shows "strtol64 (show_int i @ r) = (i, r, False)"
  using assms by (simp add: strtol64_def strtol_show_int)

lemma atoi_show_int:
  assumes "INT_MIN_I \<le> i" "i \<le> INT_MAX_I"
  shows "atoi (show_int i) = i"
proof -
  have "strtol64 (show_int i @ []) = (i, [], False)"
    using assms by (intro strtol64_show_int)
      (auto simp: INT_MIN_I_def INT_MAX_I_def LONG_MIN_I_def LONG_MAX_I_def)
  then show ?thesis
    using assms by (simp add: atoi_def int32_of_id)
qed

lemma show_int_chars: "c \<in> set (show_int i) \<Longrightarrow> is_digit c \<or> c = CHR ''-''"
  using dec_digits_digits by (auto simp: show_int_def show_nat_def split: if_splits)

lemma length_dec_digits: "n < 10 ^ k \<Longrightarrow> 0 < k \<Longrightarrow> length (dec_digits n) \<le> k"
proof (induction k arbitrary: n)
  case (Suc k)
  show ?case
  proof (cases "n < 10")
    case False
    then have "length (dec_digits (n div 10)) \<le> k"
      using Suc.prems by (intro Suc.IH; cases k) (auto simp: less_mult_imp_div_less mult.commute)
    then show ?thesis
      using False by (subst dec_digits.simps) simp
  qed (subst dec_digits.simps, simp)
qed simp

lemma length_show_int:
  assumes "INT_MIN_I \<le> i" "i \<le> INT_MAX_I"
  shows "length (show_int i) \<le> 11"
proof -
  have "nat i < 10 ^ 10" "nat (- i) < 10 ^ 10"
    using assms by (simp_all add: INT_MIN_I_def INT_MAX_I_def nat_less_iff)
  then have "length (dec_digits (nat i)) \<le> 10" "length (dec_digits (nat (- i))) \<le> 10"
    by (auto intro: length_dec_digits)
  then show ?thesis
    by (simp add: show_int_def show_nat_def)
qed

lemma show_int_ne [simp]: "show_int i \<noteq> []"
  by (simp add: show_int_def show_nat_def)

lemma show_int_no_special [simp]:
  "CHR ''|'' \<notin> set (show_int i)" "newline \<notin> set (show_int i)" "CHR '','' \<notin> set (show_int i)"
  using show_int_chars [of "CHR ''|''" i] show_int_chars [of newline i]
    show_int_chars [of "CHR '',''" i]
  by (auto simp: is_digit_def newline_def)

definition quoted :: "cstring \<Rightarrow> cstring" where
  "quoted s = [CHR 0x27] @ s @ [CHR 0x27]"

end
