(* ===== verification/Utils.thy ===== *)
theory Utils
  imports CStrings
begin

text \<open>
  The shared utility library, \<open>src/common/utils.c\<close>: logging, string and path
  helpers, addresses, input validation, path flattening and the text scanners.
  Functions that return 0 or -1 and fill an output buffer are option-valued:
  \<open>None\<close> is the -1.  Buffers are the strings they hold.
\<close>

section \<open>Limits (utils.h)\<close>

definition MAX_PATH_LENGTH :: nat where "MAX_PATH_LENGTH = 4096"
definition MAX_USERNAME_LENGTH :: nat where "MAX_USERNAME_LENGTH = 256"
definition MAX_FILENAME_LENGTH :: nat where "MAX_FILENAME_LENGTH = 512"
definition MAX_TAG_LENGTH :: nat where "MAX_TAG_LENGTH = 128"
definition MAX_IP_LENGTH :: nat where "MAX_IP_LENGTH = 64"
definition MAX_PORT_LENGTH :: nat where "MAX_PORT_LENGTH = 16"

lemmas max_defs = MAX_PATH_LENGTH_def MAX_USERNAME_LENGTH_def MAX_FILENAME_LENGTH_def
  MAX_TAG_LENGTH_def MAX_IP_LENGTH_def MAX_PORT_LENGTH_def

section \<open>Logging\<close>

datatype log_level = LOG_DEBUG | LOG_INFO | LOG_WARNING | LOG_ERROR

fun level_num :: "log_level \<Rightarrow> nat" where
  "level_num LOG_DEBUG = 0"
| "level_num LOG_INFO = 1"
| "level_num LOG_WARNING = 2"
| "level_num LOG_ERROR = 3"

text \<open>The code compares levels by the numbers of the enumeration.\<close>

instantiation log_level :: linorder
begin

definition less_eq_log_level :: "log_level \<Rightarrow> log_level \<Rightarrow> bool" where
  "less_eq_log_level a b \<longleftrightarrow> level_num a \<le> level_num b"

definition less_log_level :: "log_level \<Rightarrow> log_level \<Rightarrow> bool" where
  "less_log_level a b \<longleftrightarrow> level_num a < level_num b"

instance
proof
  fix a b :: log_level
  show "a \<le> b \<Longrightarrow> b \<le> a \<Longrightarrow> a = b"
    by (cases a; cases b) (simp_all add: less_eq_log_level_def)
qed (auto simp: less_eq_log_level_def less_log_level_def)

end

fun level_str :: "log_level \<Rightarrow> cstring" where
  "level_str LOG_DEBUG = ''DEBUG''"
| "level_str LOG_INFO = ''INFO''"
| "level_str LOG_WARNING = ''WARNING''"
| "level_str LOG_ERROR = ''ERROR''"

text \<open>The three static variables of the logger; an open log file is the text
  appended to it since it was opened, and the console is the text written to \<open>stdout\<close>.\<close>

record logger =
  log_file_text :: "cstring option"
  current_log_level :: log_level
  console_logging_enabled :: bool
  console_text :: cstring

definition initial_logger :: logger where
  "initial_logger = \<lparr>log_file_text = None, current_log_level = LOG_INFO,
     console_logging_enabled = True, console_text = []\<rparr>"

text \<open>\<open>opens\<close> tells whether \<open>fopen (log_file, "a")\<close> succeeds.  The flag returned
  is true for a result of 0.\<close>

definition log_init :: "cstring option \<Rightarrow> bool \<Rightarrow> log_level \<Rightarrow> logger \<Rightarrow> logger \<times> bool" where
  "log_init log_file opens level lg = (let lg = lg\<lparr>current_log_level := level\<rparr> in
     case log_file of None \<Rightarrow> (lg, True)
     | Some f \<Rightarrow> if opens then (lg\<lparr>log_file_text := Some []\<rparr>, True)
                 else (lg\<lparr>log_file_text := None\<rparr>, False))"

definition log_set_console :: "bool \<Rightarrow> logger \<Rightarrow> logger" where
  "log_set_console enable lg = lg\<lparr>console_logging_enabled := enable\<rparr>"

definition emit_line :: "cstring \<Rightarrow> logger \<Rightarrow> logger" where
  "emit_line line lg =
     (let lg1 = (if console_logging_enabled lg
                 then lg\<lparr>console_text := console_text lg @ line @ [newline]\<rparr> else lg) in
      case log_file_text lg1 of None \<Rightarrow> lg1
      | Some t \<Rightarrow> lg1\<lparr>log_file_text := Some (t @ line @ [newline])\<rparr>)"

definition brackets :: "cstring \<Rightarrow> cstring" where
  "brackets s = ''['' @ s @ '']''"

text \<open>\<open>msg\<close> is the formatted text; \<open>vsnprintf\<close> cuts it to the 4096-byte buffer.\<close>

definition log_message :: "cstring \<Rightarrow> log_level \<Rightarrow> cstring \<Rightarrow> cstring \<Rightarrow> logger \<Rightarrow> logger" where
  "log_message timestamp level component msg lg =
     (if level < current_log_level lg then lg
      else emit_line (brackets timestamp @ '' '' @ brackets (level_str level) @ '' '' @
             brackets component @ '' '' @ bounded_copy 4096 msg) lg)"

definition log_cleanup :: "logger \<Rightarrow> logger" where
  "log_cleanup lg = lg\<lparr>log_file_text := None\<rparr>"

text \<open>A request is logged at every level.\<close>

definition log_request :: "cstring \<Rightarrow> cstring \<Rightarrow> cstring \<Rightarrow> int \<Rightarrow> cstring \<Rightarrow> int \<Rightarrow> cstring option \<Rightarrow> cstring \<Rightarrow> logger \<Rightarrow> logger" where
  "log_request timestamp component source_ip source_port dest_ip dest_port user request lg =
     emit_line (bounded_copy 4096 (brackets timestamp @ '' '' @ brackets component @ '' Request: '' @ source_ip @ '':'' @ show_int source_port @
       '' -> '' @ dest_ip @ '':'' @ show_int dest_port @ '' | User: '' @ (case user of Some u \<Rightarrow> u | None \<Rightarrow> ''N/A'') @ '' | '' @ request)) lg"

definition log_migration_event ::
  "cstring \<Rightarrow> cstring option \<Rightarrow> cstring option \<Rightarrow> int \<Rightarrow> cstring option \<Rightarrow> int \<Rightarrow> cstring option \<Rightarrow> logger \<Rightarrow> logger" where
  "log_migration_event timestamp filename source_ip source_port target_ip target_port status lg =
     (case (filename, source_ip, target_ip, status) of
        (Some f, Some s, Some t, Some st) \<Rightarrow>
          log_message timestamp LOG_INFO ''NS'' (''Migration '' @ st @ '' for '' @ [CHR 0x27] @ f @ [CHR 0x27] @ '' ('' @ s @ '':'' @
            show_int source_port @ '' -> '' @ t @ '':'' @ show_int target_port @ '')'') lg
      | _ \<Rightarrow> lg)"

section \<open>Strings\<close>

text \<open>\<open>trim_string\<close>: the second loop walks back from the last character and never
  passes the first one.\<close>

fun trim_end :: "cstring \<Rightarrow> cstring" where
  "trim_end s = (if 1 < length s \<and> is_space (last s) then trim_end (butlast s) else s)"

declare trim_end.simps [simp del]

definition trim_string :: "cstring \<Rightarrow> cstring" where
  "trim_string s = trim_end (dropWhile is_space s)"

definition string_ends_with :: "cstring \<Rightarrow> cstring \<Rightarrow> bool" where
  "string_ends_with str suffix \<longleftrightarrow>
     (if length suffix > length str then False
      else drop (length str - length suffix) str = suffix)"

definition string_starts_with :: "cstring \<Rightarrow> cstring \<Rightarrow> bool" where
  "string_starts_with str pre \<longleftrightarrow> strncmp_eq (length pre) str pre"

definition safe_strcpy :: "nat \<Rightarrow> cstring \<Rightarrow> cstring option" where
  "safe_strcpy dest_size src = (if dest_size = 0 then None else Some (bounded_copy dest_size src))"

definition safe_strcat :: "nat \<Rightarrow> cstring \<Rightarrow> cstring \<Rightarrow> cstring option" where
  "safe_strcat dest_size dest src =
     (if dest_size = 0 then None
      else if length dest \<ge> dest_size - 1 then None
      else Some (dest @ take (dest_size - length dest - 1) src))"

text \<open>A call of \<open>safe_strcat\<close> whose result is ignored.\<close>

definition strcat_ignore :: "nat \<Rightarrow> cstring \<Rightarrow> cstring \<Rightarrow> cstring" where
  "strcat_ignore sz dest src = (case safe_strcat sz dest src of None \<Rightarrow> dest | Some d \<Rightarrow> d)"

section \<open>Paths\<close>

definition path_join :: "cstring \<Rightarrow> cstring \<Rightarrow> cstring" where
  "path_join base component =
     base @ (if base \<noteq> [] \<and> last base \<noteq> CHR ''/'' then ''/'' else '''') @ component"

fun strip_slashes :: "cstring \<Rightarrow> cstring" where
  "strip_slashes s = (if length s > 1 \<and> last s = CHR ''/'' then strip_slashes (butlast s) else s)"

declare strip_slashes.simps [simp del]

definition path_normalize :: "cstring \<Rightarrow> cstring" where
  "path_normalize path = strip_slashes (bounded_copy MAX_PATH_LENGTH path)"

text \<open>\<open>basename\<close> and \<open>dirname\<close> of \<open>libgen.h\<close>, as POSIX defines them.\<close>

definition drop_slashes :: "cstring \<Rightarrow> cstring" where
  "drop_slashes p = rev (dropWhile (\<lambda>c. c = CHR ''/'') (rev p))"

definition basename :: "cstring \<Rightarrow> cstring" where
  "basename p = (if p = [] then ''.'' else
     let q = drop_slashes p in if q = [] then ''/'' else rev (takeWhile (\<lambda>c. c \<noteq> CHR ''/'') (rev q)))"

definition dirname :: "cstring \<Rightarrow> cstring" where
  "dirname p = (if p = [] then ''.'' else
     let q = drop_slashes p in
     if q = [] then ''/'' else if CHR ''/'' \<notin> set q then ''.'' else
     let d = drop_slashes (rev (dropWhile (\<lambda>c. c \<noteq> CHR ''/'') (rev q))) in if d = [] then ''/'' else d)"

definition path_basename :: "cstring \<Rightarrow> cstring" where
  "path_basename path = bounded_copy MAX_FILENAME_LENGTH (basename (bounded_copy MAX_PATH_LENGTH path))"

definition path_dirname :: "cstring \<Rightarrow> cstring" where
  "path_dirname path = bounded_copy MAX_PATH_LENGTH (dirname (bounded_copy MAX_PATH_LENGTH path))"

definition path_is_absolute :: "cstring \<Rightarrow> bool" where
  "path_is_absolute path \<longleftrightarrow> (case path of [] \<Rightarrow> False | c # _ \<Rightarrow> c = CHR ''/'')"

section \<open>Addresses\<close>

definition parse_address :: "cstring \<Rightarrow> (cstring \<times> int) option" where
  "parse_address address =
     (let temp = bounded_copy (MAX_IP_LENGTH + MAX_PORT_LENGTH) address in
      case strchr_tail (CHR '':'') temp of
        None \<Rightarrow> None
      | Some colon \<Rightarrow> Some (takeWhile (\<lambda>c. c \<noteq> CHR '':'') temp, atoi (tl colon)))"

definition format_address :: "cstring \<Rightarrow> int \<Rightarrow> cstring" where
  "format_address ip port = bounded_copy (MAX_IP_LENGTH + MAX_PORT_LENGTH) (ip @ '':'' @ show_int port)"

text \<open>\<open>is_valid_ip\<close>: \<open>inet_pton\<close> of the C library accepts four decimal numbers up to 255,
  without leading zeros, between dots.\<close>

definition valid_octet :: "cstring \<Rightarrow> bool" where
  "valid_octet p \<longleftrightarrow> p \<noteq> [] \<and> list_all is_digit p \<and> dec_value p \<le> 255 \<and> (length p > 1 \<longrightarrow> hd p \<noteq> CHR ''0'')"

definition is_valid_ip :: "cstring \<Rightarrow> bool" where
  "is_valid_ip ip \<longleftrightarrow> length (split_on (CHR ''.'') ip) = 4 \<and> list_all valid_octet (split_on (CHR ''.'') ip)"

definition is_valid_port :: "int \<Rightarrow> bool" where
  "is_valid_port port \<longleftrightarrow> port > 0 \<and> port \<le> 65535"

section \<open>Validation\<close>

definition validate_username :: "cstring \<Rightarrow> bool" where
  "validate_username username \<longleftrightarrow>
     (if length username = 0 \<or> length username \<ge> MAX_USERNAME_LENGTH then False
      else list_all (\<lambda>c. is_alnum c \<or> c = CHR ''_'') username)"

definition invalid_chars :: cstring where
  "invalid_chars = ''<>:'' @ [CHR 0x22] @ ''|?*''"

definition validate_filename :: "cstring \<Rightarrow> bool" where
  "validate_filename filename \<longleftrightarrow>
     (if length filename = 0 \<or> length filename \<ge> MAX_FILENAME_LENGTH then False
      else list_all (\<lambda>c. c \<notin> set invalid_chars) filename)"

definition validate_permission :: "cstring \<Rightarrow> bool" where
  "validate_permission permission \<longleftrightarrow> permission = ''R'' \<or> permission = ''W''"

text \<open>\<open>flatten_logical_path\<close>: \<open>out\<close> is the part of \<open>physical\<close> already written, its
  length the code's \<open>out_idx\<close>.\<close>

definition flat_char :: "char \<Rightarrow> char" where
  "flat_char ch = (if ch = CHR ''/'' then CHR ''_'' else ch)"

fun flatten_loop :: "nat \<Rightarrow> cstring \<Rightarrow> cstring \<Rightarrow> cstring option" where
  "flatten_loop sz out [] = (if length out \<ge> sz then None else Some out)"
| "flatten_loop sz out (ch # p) =
     (if length out + 1 \<ge> sz then None else flatten_loop sz (out @ [flat_char ch]) p)"

definition flatten_logical_path :: "nat \<Rightarrow> cstring \<Rightarrow> cstring option" where
  "flatten_logical_path sz logical = (if sz = 0 then None else flatten_loop sz [] logical)"

section \<open>Text scanners\<close>

fun count_words_loop :: "bool \<Rightarrow> nat \<Rightarrow> cstring \<Rightarrow> nat" where
  "count_words_loop in_word cnt [] = cnt"
| "count_words_loop in_word cnt (c # p) =
     (if is_space c then count_words_loop False cnt p
      else if \<not> in_word then count_words_loop True (cnt + 1) p
      else count_words_loop True cnt p)"

definition count_words :: "cstring \<Rightarrow> nat" where
  "count_words text = count_words_loop False 0 text"

definition count_chars :: "cstring \<Rightarrow> nat" where
  "count_chars text = length (filter (\<lambda>c. \<not> is_space c) text)"

definition is_sentence_delimiter :: "char \<Rightarrow> bool" where
  "is_sentence_delimiter c \<longleftrightarrow> c = CHR ''.'' \<or> c = CHR ''!'' \<or> c = CHR ''?''"

definition count_sentences :: "cstring \<Rightarrow> nat" where
  "count_sentences text = length (filter is_sentence_delimiter text)"

text \<open>\<open>extract_sentence\<close>: \<open>seg\<close> is the text between \<open>start\<close> and \<open>end\<close>.\<close>

function extract_loop :: "cstring \<Rightarrow> cstring \<Rightarrow> int \<Rightarrow> int \<Rightarrow> cstring option" where
  "extract_loop seg [] current index =
     (if current = index \<and> seg \<noteq> [] then Some seg else None)"
| "extract_loop seg (c # p) current index =
     (if is_sentence_delimiter c then
        if current = index then Some (seg @ [c])
        else extract_loop [] (dropWhile is_space p) (current + 1) index
      else extract_loop (seg @ [c]) p current index)"
  by pat_completeness auto
termination
  by (relation "measure (\<lambda>(seg, p, cur, idx). length p)")
    (auto simp: le_imp_less_Suc length_dropWhile_le)

definition extract_sentence :: "cstring \<Rightarrow> int \<Rightarrow> cstring option" where
  "extract_sentence text sentence_index =
     (if sentence_index < 0 then None
      else let start = dropWhile is_space text in
        if sentence_index = 0 \<and> start = [] then Some []
        else extract_loop [] start 0 sentence_index)"

definition replace_word_in_sentence :: "cstring \<Rightarrow> int \<Rightarrow> cstring \<Rightarrow> cstring option" where
  "replace_word_in_sentence sentence word_index new_word =
     (if word_index < 0 then None else Some sentence)"

definition parse_long_long :: "cstring \<Rightarrow> int option" where
  "parse_long_long text =
     (if text = [] then None
      else let (value, endptr, erange) = strtol64 text in
        if erange \<or> endptr \<noteq> [] then None else Some value)"

text \<open>Floating-point values are a type of their own: \<open>strtod\<close> gives the value, the rest of the text and
  whether \<open>errno\<close> was set.\<close>

definition parse_double :: "(cstring \<Rightarrow> 'd \<times> cstring \<times> bool) \<Rightarrow> cstring option \<Rightarrow> 'd option" where
  "parse_double strtod text = (case text of None \<Rightarrow> None
     | Some t \<Rightarrow> if t = [] then None
         else (let (v, endptr, erange) = strtod t in if erange \<or> endptr \<noteq> [] then None else Some v))"

section \<open>Lemmas: trimming\<close>

lemma trim_end_snoc_space: "s \<noteq> [] \<Longrightarrow> is_space c \<Longrightarrow> trim_end (s @ [c]) = trim_end s"
  by (subst trim_end.simps) simp

lemma trim_end_snoc_nonspace: "\<not> is_space c \<Longrightarrow> trim_end (s @ [c]) = s @ [c]"
  by (subst trim_end.simps) simp

lemma trim_end_short: "length s \<le> 1 \<Longrightarrow> trim_end s = s"
  by (subst trim_end.simps) simp

lemma trim_end_ref:
  assumes "s = [] \<or> \<not> is_space (hd s)"
  shows "trim_end s = rev (dropWhile is_space (rev s))"
  using assms
proof (induction s rule: rev_induct)
  case (snoc c s)
  show ?case
  proof (cases "is_space c")
    case True
    then have "s \<noteq> []" "\<not> is_space (hd s)"
      using snoc.prems by (cases s; simp)+
    then show ?thesis
      using True snoc.IH by (simp add: trim_end_snoc_space)
  qed (simp add: trim_end_snoc_nonspace)
qed (simp add: trim_end_short)

lemma trim_string_ref:
  "trim_string s = rev (dropWhile is_space (rev (dropWhile is_space s)))"
  unfolding trim_string_def
  by (rule trim_end_ref) (metis hd_dropWhile)

lemma trim_string_last: "trim_string s = [] \<or> \<not> is_space (last (trim_string s))"
proof -
  have "dropWhile is_space t = [] \<or> \<not> is_space (hd (dropWhile is_space t))" for t
    by (metis hd_dropWhile)
  then show ?thesis
    by (metis Nil_is_rev_conv last_rev trim_string_ref)
qed

lemma trim_string_hd: "trim_string s = [] \<or> \<not> is_space (hd (trim_string s))"
proof (cases "dropWhile is_space s")
  case (Cons c cs)
  then have c: "\<not> is_space c"
    by (simp add: dropWhile_eq_Cons_conv)
  have "trim_end (c # t) \<noteq> [] \<and> hd (trim_end (c # t)) = c" for t
  proof (induction t rule: rev_induct)
    case (snoc d t)
    then show ?case
      using trim_end_snoc_space [of "c # t" d] trim_end_snoc_nonspace [of d "c # t"]
      by (cases "is_space d") auto
  qed (simp add: trim_end_short)
  then show ?thesis
    using Cons c by (simp add: trim_string_def)
qed (simp add: trim_string_def trim_end_short)

lemma trim_end_id: "s = [] \<or> \<not> is_space (last s) \<Longrightarrow> trim_end s = s"
  by (subst trim_end.simps) auto

lemma trim_string_id:
  "s = [] \<or> (\<not> is_space (hd s) \<and> \<not> is_space (last s)) \<Longrightarrow> trim_string s = s"
  using trim_end_id [of s] by (cases s) (auto simp: trim_string_def)

lemma username_no_space: "validate_username u \<Longrightarrow> c \<in> set u \<Longrightarrow> \<not> is_space c"
  by (auto simp: validate_username_def list_all_iff is_alnum_def is_digit_def is_space_def Let_def split: if_splits)

lemma trim_username: "validate_username u \<Longrightarrow> trim_string u = u"
  by (rule trim_string_id) (auto simp: username_no_space)

lemma trim_string_idem [simp]: "trim_string (trim_string s) = trim_string s"
  using trim_string_hd trim_string_last by (intro trim_string_id) blast

lemma set_trim_string: "set (trim_string s) \<subseteq> set s"
proof
  fix c assume "c \<in> set (trim_string s)"
  then have "c \<in> set (rev (dropWhile is_space s))"
    unfolding trim_string_ref set_rev by (metis set_dropWhileD set_rev)
  then show "c \<in> set s"
    by (auto dest: set_dropWhileD)
qed

section \<open>Lemmas: flattening and validation\<close>

lemma flatten_loop_eq:
  "flatten_loop sz out p = (if length out + length p < sz
     then Some (out @ map flat_char p) else None)"
  by (induction p arbitrary: out) auto

lemma flatten_logical_path_eq:
  "flatten_logical_path sz s = (if length s < sz then Some (map flat_char s) else None)"
  by (auto simp: flatten_logical_path_def flatten_loop_eq)

lemma flat_char_no_slash [simp]: "flat_char c \<noteq> CHR ''/''" "CHR ''/'' \<noteq> flat_char c"
  by (auto simp: flat_char_def)

lemma flatten_no_slash: "flatten_logical_path sz s = Some p \<Longrightarrow> CHR ''/'' \<notin> set p"
  by (auto simp: flatten_logical_path_eq split: if_splits)

lemma validate_filename_flattens:
  "validate_filename s \<Longrightarrow> flatten_logical_path MAX_FILENAME_LENGTH s = Some (map flat_char s)"
  by (auto simp: validate_filename_def flatten_logical_path_eq split: if_splits)

lemma validate_filename_no_pipe: "validate_filename s \<Longrightarrow> CHR ''|'' \<notin> set s"
  by (auto simp: validate_filename_def invalid_chars_def list_all_iff split: if_splits)

lemma validate_username_chars:
  assumes "validate_username u" "c \<in> set u"
  shows "is_alnum c \<or> c = CHR ''_''"
  using assms by (auto simp: validate_username_def list_all_iff split: if_splits)

section \<open>Lemmas: scanners\<close>

text \<open>\<open>count_words\<close> counts the maximal runs of non-space characters: the reference
  drops one such run at a time.\<close>

function word_list :: "cstring \<Rightarrow> cstring list" where
  "word_list s = (case dropWhile is_space s of [] \<Rightarrow> []
     | c # t \<Rightarrow> takeWhile (\<lambda>x. \<not> is_space x) (c # t) # word_list (dropWhile (\<lambda>x. \<not> is_space x) (c # t)))"
  by pat_completeness auto
termination
proof (relation "measure length", goal_cases)
  case (2 s c t)
  then have "\<not> is_space c" and "length (c # t) \<le> length s"
    by (metis dropWhile_eq_Cons_conv, metis length_dropWhile_le)
  then show ?case
    using length_dropWhile_le [of "\<lambda>x. \<not> is_space x" t] by simp
qed simp

declare word_list.simps [simp del]

lemma word_list_Nil [simp]: "word_list [] = []"
  by (subst word_list.simps) simp

lemma word_list_space [simp]: "is_space c \<Longrightarrow> word_list (c # s) = word_list s"
  by (subst (1 2) word_list.simps) simp

lemma word_list_word: "\<not> is_space c \<Longrightarrow>
  word_list (c # s) = (c # takeWhile (\<lambda>x. \<not> is_space x) s) # word_list (dropWhile (\<lambda>x. \<not> is_space x) s)"
  by (subst word_list.simps) simp

lemma count_words_loop_eq:
  "count_words_loop b n s = n + length (word_list (if b then dropWhile (\<lambda>x. \<not> is_space x) s else s))"
proof (induction b n s rule: count_words_loop.induct)
  case (2 b n c p)
  then show ?case
    by (cases "is_space c"; cases b) (simp_all add: word_list_word)
qed simp

lemma count_words_eq: "count_words s = length (word_list s)"
  by (simp add: count_words_def count_words_loop_eq)

lemma delimiter_not_space: "is_sentence_delimiter c \<Longrightarrow> \<not> is_space c"
  by (auto simp: is_sentence_delimiter_def is_space_code)

section \<open>What a log holds\<close>

type_synonym log_entry = "cstring \<times> log_level \<times> cstring \<times> cstring"

definition log_entries :: "log_entry list \<Rightarrow> logger \<Rightarrow> logger" where
  "log_entries = fold (\<lambda>(timestamp, level, component, msg). log_message timestamp level component msg)"

definition log_line :: "log_entry \<Rightarrow> cstring" where
  "log_line = (\<lambda>(timestamp, level, component, msg).
     brackets timestamp @ '' '' @ brackets (level_str level) @ '' '' @ brackets component @ '' '' @ bounded_copy 4096 msg @ [newline])"

lemma log_message_effect:
  "current_log_level (log_message t lv co msg lg) = current_log_level lg"
  "console_logging_enabled (log_message t lv co msg lg) = console_logging_enabled lg"
  "console_text (log_message t lv co msg lg) = console_text lg @
     (if console_logging_enabled lg \<and> current_log_level lg \<le> lv then log_line (t, lv, co, msg) else [])"
  "log_file_text (log_message t lv co msg lg) = map_option (\<lambda>f. f @
     (if current_log_level lg \<le> lv then log_line (t, lv, co, msg) else [])) (log_file_text lg)"
  by (auto simp: log_message_def emit_line_def log_line_def Let_def not_less option.map_ident split: option.splits)

text \<open>After any run of messages the log file holds exactly the lines of those at or above the level, in order, and
  so does the console when it is enabled.\<close>

lemma log_entries_exact:
  "console_text (log_entries es lg) = console_text lg @
     (if console_logging_enabled lg then concat (map log_line (filter (\<lambda>e. current_log_level lg \<le> fst (snd e)) es)) else [])"
  "log_file_text (log_entries es lg) = map_option (\<lambda>f. f @
     concat (map log_line (filter (\<lambda>e. current_log_level lg \<le> fst (snd e)) es))) (log_file_text lg)"
proof (induction es arbitrary: lg)
  case (Cons e es)
  obtain t lv co msg where e: "e = (t, lv, co, msg)"
    by (cases e)
  {
    case 1
    show ?case
      using Cons.IH(1) [of "log_message t lv co msg lg"] by (simp add: e log_entries_def log_message_effect)
  next
    case 2
    show ?case
      using Cons.IH(2) [of "log_message t lv co msg lg"]
      by (simp add: e log_entries_def log_message_effect option.map_comp comp_def)
  }
qed (simp_all add: log_entries_def option.map_ident)

end
