(* ===== verification/Disk.thy ===== *)
theory Disk
  imports Utils
begin

text \<open>
  The file system calls the storage server makes, over an explicit disk: the
  contents of the regular files by path, the existing directories, the paths
  whose permissions refuse access, and the paths on which only a limited
  number of bytes can be written (a full disk).  On it stand \<open>build_path\<close>,
  \<open>ss_file_exists\<close>, \<open>ss_copy_file\<close>, \<open>ss_read_file_content\<close> and
  \<open>ss_write_file_content\<close> of \<open>storage_server.c\<close> and the file helpers of
  \<open>utils.c\<close>.  File contents have no NUL bytes.  Paths are compared as strings: every
  path of the server is its storage directory, a slash and one name.

  The locale \<open>blob_store\<close> is the interface the handlers that save and restore
  contents rely on.
\<close>

section \<open>The disk\<close>

record disk =
  dk_files :: "cstring \<Rightarrow> cstring option"
  dk_dirs :: "cstring list"
  dk_denied :: "cstring \<Rightarrow> bool"
  dk_limit :: "cstring \<Rightarrow> nat option"

definition before_last_slash :: "cstring \<Rightarrow> cstring" where
  "before_last_slash p = rev (tl (dropWhile (\<lambda>c. c \<noteq> CHR ''/'') (rev p)))"

definition parent_dir :: "cstring \<Rightarrow> cstring" where
  "parent_dir p = (if CHR ''/'' \<notin> set p then ''.''
     else let q = before_last_slash p in if q = [] then ''/'' else strip_slashes q)"

definition may_write :: "disk \<Rightarrow> cstring \<Rightarrow> bool" where
  "may_write d p \<longleftrightarrow> p \<noteq> [] \<and> parent_dir p \<in> set (dk_dirs d) \<and> p \<notin> set (dk_dirs d) \<and> \<not> dk_denied d p"

text \<open>\<open>fopen (p, "w")\<close> creates or empties the file; \<open>fwrite\<close> then stores what fits.\<close>

definition fopen_trunc :: "disk \<Rightarrow> cstring \<Rightarrow> disk option" where
  "fopen_trunc d p = (if may_write d p then Some (d\<lparr>dk_files := (dk_files d)(p \<mapsto> [])\<rparr>) else None)"

definition fits :: "disk \<Rightarrow> cstring \<Rightarrow> cstring \<Rightarrow> cstring" where
  "fits d p text = (case dk_limit d p of None \<Rightarrow> text | Some n \<Rightarrow> take n text)"

definition fwrite :: "disk \<Rightarrow> cstring \<Rightarrow> cstring \<Rightarrow> disk \<times> nat" where
  "fwrite d p text = (d\<lparr>dk_files := (dk_files d)(p \<mapsto> fits d p text)\<rparr>, length (fits d p text))"

definition fopen_read :: "disk \<Rightarrow> cstring \<Rightarrow> cstring option" where
  "fopen_read d p = (if dk_denied d p then None else dk_files d p)"

definition disk_unlink :: "disk \<Rightarrow> cstring \<Rightarrow> disk \<times> bool" where
  "disk_unlink d p = (if dk_files d p = None \<or> dk_denied d p then (d, False)
     else (d\<lparr>dk_files := (dk_files d)(p := None)\<rparr>, True))"

definition disk_rename :: "disk \<Rightarrow> cstring \<Rightarrow> cstring \<Rightarrow> disk \<times> bool" where
  "disk_rename d p q = (case dk_files d p of None \<Rightarrow> (d, False)
     | Some text \<Rightarrow> if dk_denied d p \<or> \<not> may_write d q then (d, False)
         else (d\<lparr>dk_files := ((dk_files d)(p := None))(q \<mapsto> text)\<rparr>, True))"

definition disk_mkdir :: "disk \<Rightarrow> cstring \<Rightarrow> disk \<times> bool" where
  "disk_mkdir d p = (if p \<in> set (dk_dirs d) \<or> dk_files d p \<noteq> None then (d, True)
     else if p = [] \<or> parent_dir p \<notin> set (dk_dirs d) \<or> dk_denied d p then (d, False)
     else (d\<lparr>dk_dirs := dk_dirs d @ [p]\<rparr>, True))"

section \<open>File helpers\<close>

definition build_path :: "nat \<Rightarrow> cstring \<Rightarrow> cstring \<Rightarrow> cstring option" where
  "build_path sz base file = (let p = base @ ''/'' @ file in
     if length p \<ge> sz then None else Some p)"

definition ss_file_exists :: "disk \<Rightarrow> cstring \<Rightarrow> bool" where
  "ss_file_exists d path \<longleftrightarrow> (if path = [] then False
     else dk_files d path \<noteq> None \<or> path \<in> set (dk_dirs d))"

definition file_exists :: "disk \<Rightarrow> cstring \<Rightarrow> bool" where
  "file_exists d path \<longleftrightarrow> dk_files d path \<noteq> None \<or> path \<in> set (dk_dirs d)"

definition get_file_size :: "disk \<Rightarrow> cstring \<Rightarrow> int" where
  "get_file_size d path = (case dk_files d path of Some text \<Rightarrow> int (length text) | None \<Rightarrow> -1)"

text \<open>The times of an inode are not part of the disk; \<open>stat\<close> gives them, \<open>None\<close> when it fails.\<close>

definition get_file_mtime :: "(cstring \<Rightarrow> int option) \<Rightarrow> cstring option \<Rightarrow> int" where
  "get_file_mtime st_mtime path = (case path of None \<Rightarrow> -1
     | Some p \<Rightarrow> (case st_mtime p of Some t \<Rightarrow> t | None \<Rightarrow> -1))"

definition get_file_atime :: "(cstring \<Rightarrow> int option) \<Rightarrow> cstring option \<Rightarrow> int" where
  "get_file_atime st_atime path = (case path of None \<Rightarrow> -1
     | Some p \<Rightarrow> (case st_atime p of Some t \<Rightarrow> t | None \<Rightarrow> -1))"

definition ss_open_truncating_binary :: "disk \<Rightarrow> cstring \<Rightarrow> disk option" where
  "ss_open_truncating_binary d path = (if path = [] then None else fopen_trunc d path)"

definition ss_read_file_content :: "disk \<Rightarrow> cstring \<Rightarrow> cstring option" where
  "ss_read_file_content d path = fopen_read d path"

definition ss_write_file_content :: "disk \<Rightarrow> cstring \<Rightarrow> cstring \<Rightarrow> disk \<times> bool" where
  "ss_write_file_content d path text = (case fopen_trunc d path of
       None \<Rightarrow> (d, False)
     | Some d1 \<Rightarrow> let (d2, written) = fwrite d1 path text in (d2, written = length text))"

text \<open>The copy loop moves blocks until one is not stored completely; the file it leaves
  is the part that fits, and on failure it is removed.  What is read is the
  source after the destination was opened.\<close>

definition ss_copy_file :: "disk \<Rightarrow> cstring \<Rightarrow> cstring \<Rightarrow> disk \<times> bool" where
  "ss_copy_file d src_path dest_path = (case fopen_read d src_path of
       None \<Rightarrow> (d, False)
     | Some _ \<Rightarrow> (case ss_open_truncating_binary d dest_path of
         None \<Rightarrow> (d, False)
       | Some d1 \<Rightarrow> let text = the (dk_files d1 src_path);
                        (d2, written) = fwrite d1 dest_path text in
             if written = length text then (d2, True)
             else (fst (disk_unlink d2 dest_path), False)))"

definition copy_file :: "disk \<Rightarrow> cstring \<Rightarrow> cstring \<Rightarrow> disk \<times> bool" where
  "copy_file d src dest = (case fopen_read d src of
       None \<Rightarrow> (d, False)
     | Some _ \<Rightarrow> (case fopen_trunc d dest of
         None \<Rightarrow> (d, False)
       | Some d1 \<Rightarrow> let text = the (dk_files d1 src);
                        (d2, written) = fwrite d1 dest text in (d2, written = length text)))"

definition delete_file :: "disk \<Rightarrow> cstring \<Rightarrow> disk \<times> bool" where
  "delete_file d path = disk_unlink d path"

text \<open>\<open>create_directory_recursive\<close> tests the character before the terminator
  without looking at the length; the model covers non-empty paths and
  treats the empty one as having no trailing slash.\<close>

fun mkdir_loop :: "disk \<Rightarrow> cstring \<Rightarrow> cstring \<Rightarrow> disk \<times> bool" where
  "mkdir_loop d prefix [] = (d, True)"
| "mkdir_loop d prefix (c # p) =
     (if c = CHR ''/'' then
        let (d1, ok) = disk_mkdir d prefix in
        if \<not> ok then (d1, False) else mkdir_loop d1 (prefix @ [c]) p
      else mkdir_loop d (prefix @ [c]) p)"

definition create_directory_recursive :: "disk \<Rightarrow> cstring \<Rightarrow> disk \<times> bool" where
  "create_directory_recursive d path =
     (let tmp = bounded_copy MAX_PATH_LENGTH path;
          tmp = (if tmp \<noteq> [] \<and> last tmp = CHR ''/'' then butlast tmp else tmp) in
      case tmp of [] \<Rightarrow> disk_mkdir d tmp
      | c # p \<Rightarrow> let (d1, ok) = mkdir_loop d [c] p in
          if \<not> ok then (d1, False) else disk_mkdir d1 tmp)"

section \<open>Lemmas\<close>

lemma build_path_some: "build_path sz base file = Some p \<Longrightarrow> p = base @ ''/'' @ file \<and> length p < sz"
  by (auto simp: build_path_def Let_def split: if_splits)

lemma before_last_slash_join:
  "CHR ''/'' \<notin> set file \<Longrightarrow> before_last_slash (base @ ''/'' @ file) = base"
  by (simp add: before_last_slash_def dropWhile_append)

lemma parent_dir_join:
  assumes "CHR ''/'' \<notin> set file" "base \<noteq> []"
  shows "parent_dir (base @ ''/'' @ file) = strip_slashes base"
  using before_last_slash_join [OF assms(1), of base] assms(2) by (simp add: parent_dir_def Let_def)

lemma write_content_ok:
  "ss_write_file_content d p x = (d', True) \<Longrightarrow> dk_files d' p = Some x"
  by (auto simp: ss_write_file_content_def fopen_trunc_def fwrite_def fits_def min_def
      split: if_splits option.splits)

lemma write_content_frame:
  "ss_write_file_content d p x = (d', ok) \<Longrightarrow> q \<noteq> p \<Longrightarrow> dk_files d' q = dk_files d q"
  by (auto simp: ss_write_file_content_def fopen_trunc_def fwrite_def split: if_splits option.splits)

lemma write_content_rest:
  "ss_write_file_content d p x = (d', ok) \<Longrightarrow>
     dk_dirs d' = dk_dirs d \<and> dk_denied d' = dk_denied d \<and> dk_limit d' = dk_limit d"
  by (auto simp: ss_write_file_content_def fopen_trunc_def fwrite_def split: if_splits option.splits)

lemma write_content_denied: "ss_write_file_content d p x = (d', True) \<Longrightarrow> \<not> dk_denied d p"
  by (auto simp: ss_write_file_content_def fopen_trunc_def may_write_def split: if_splits option.splits)

lemma write_content_succeeds:
  "may_write d p \<Longrightarrow> dk_limit d p = None \<Longrightarrow>
     ss_write_file_content d p x = (d\<lparr>dk_files := (dk_files d)(p \<mapsto> x)\<rparr>, True)"
  by (simp add: ss_write_file_content_def fopen_trunc_def fwrite_def fits_def)

lemma write_content_fail:
  "dk_limit d p = None \<Longrightarrow> ss_write_file_content d p x = (d', False) \<Longrightarrow> d' = d"
  by (auto simp: ss_write_file_content_def fopen_trunc_def fwrite_def fits_def split: if_splits option.splits)

lemma copy_file_frame:
  "ss_copy_file d src dst = (d', ok) \<Longrightarrow> q \<noteq> dst \<Longrightarrow> dk_files d' q = dk_files d q"
  by (auto simp: ss_copy_file_def ss_open_truncating_binary_def fopen_trunc_def fwrite_def disk_unlink_def
      Let_def split: if_splits option.splits)

lemma copy_file_rest:
  "ss_copy_file d src dst = (d', ok) \<Longrightarrow>
     dk_dirs d' = dk_dirs d \<and> dk_denied d' = dk_denied d \<and> dk_limit d' = dk_limit d"
  by (auto simp: ss_copy_file_def ss_open_truncating_binary_def fopen_trunc_def fwrite_def disk_unlink_def
      Let_def split: if_splits option.splits)

lemma copy_file_ok:
  "ss_copy_file d src dst = (d', True) \<Longrightarrow> src \<noteq> dst \<Longrightarrow> dk_files d' dst = dk_files d src"
  by (auto simp: ss_copy_file_def ss_open_truncating_binary_def fopen_trunc_def fwrite_def fits_def
      fopen_read_def min_def Let_def split: if_splits option.splits)

lemma copy_file_source: "ss_copy_file d src dst = (d', True) \<Longrightarrow> dk_files d src \<noteq> None"
  by (auto simp: ss_copy_file_def fopen_read_def split: if_splits option.splits)

lemma rename_frame:
  "disk_rename d p q = (d', ok) \<Longrightarrow> r \<noteq> p \<Longrightarrow> r \<noteq> q \<Longrightarrow> dk_files d' r = dk_files d r"
  by (auto simp: disk_rename_def split: if_splits option.splits)

lemma rename_ok: "disk_rename d p q = (d', True) \<Longrightarrow> dk_files d' q = dk_files d p"
  by (auto simp: disk_rename_def split: if_splits option.splits)

lemma unlink_frame: "q \<noteq> p \<Longrightarrow> dk_files (fst (disk_unlink d p)) q = dk_files d q"
  by (simp add: disk_unlink_def)

lemma unlink_gone: "\<not> dk_denied d p \<Longrightarrow> dk_files (fst (disk_unlink d p)) p = None"
  by (simp add: disk_unlink_def)

lemma unlink_rest:
  "dk_dirs (fst (disk_unlink d p)) = dk_dirs d" "dk_denied (fst (disk_unlink d p)) = dk_denied d"
  "dk_limit (fst (disk_unlink d p)) = dk_limit d"
  by (simp_all add: disk_unlink_def)

section \<open>Interface: a store of contents\<close>

locale blob_store =
  fixes get :: "'d \<Rightarrow> cstring \<Rightarrow> cstring option"
    and put :: "'d \<Rightarrow> cstring \<Rightarrow> cstring \<Rightarrow> 'd \<times> bool"
    and dup :: "'d \<Rightarrow> cstring \<Rightarrow> cstring \<Rightarrow> 'd \<times> bool"
  assumes get_put: "put d p x = (d', True) \<Longrightarrow> get d' p = Some x"
    and get_put_other: "put d p x = (d', ok) \<Longrightarrow> q \<noteq> p \<Longrightarrow> get d' q = get d q"
    and get_dup: "dup d p q = (d', True) \<Longrightarrow> p \<noteq> q \<Longrightarrow> get d p \<noteq> None \<and> get d' q = get d p"
    and get_dup_other: "dup d p q = (d', ok) \<Longrightarrow> r \<noteq> q \<Longrightarrow> get d' r = get d r"
begin

text \<open>Saving the old contents at \<open>u\<close> before overwriting \<open>p\<close>, and copying them back.\<close>

lemma save_then_write:
  assumes "put d u old = (d1, True)" "put d1 p new = (d2, True)" "u \<noteq> p"
  shows "get d2 u = Some old" "get d2 p = Some new" "q \<noteq> u \<Longrightarrow> q \<noteq> p \<Longrightarrow> get d2 q = get d q"
  using assms get_put get_put_other by metis+

lemma restore:
  assumes "get d u = Some old" "dup d u p = (d', True)" "u \<noteq> p"
  shows "get d' p = Some old" "get d' u = Some old" "q \<noteq> p \<Longrightarrow> get d' q = get d q"
  using assms get_dup get_dup_other by metis+

lemma write_restore:
  assumes "put d u old = (d1, True)" "put d1 p new = (d2, True)" "dup d2 u p = (d3, True)" "u \<noteq> p"
  shows "get d3 p = Some old"
  using restore(1) [OF save_then_write(1) [OF assms(1,2,4)] assms(3,4)] .

end

interpretation bs: blob_store dk_files ss_write_file_content ss_copy_file
proof (unfold_locales, goal_cases)
  case (1 d p x d')
  then show ?case
    by (rule write_content_ok)
next
  case (2 d p x d' ok q)
  then show ?case
    by (rule write_content_frame)
next
  case (3 d p q d')
  then show ?case
    using copy_file_ok copy_file_source by simp
next
  case (4 d p q d' ok r)
  then show ?case
    by (rule copy_file_frame)
qed

end
