(* ===== verification/Protocol.thy ===== *)
theory Protocol
  imports Utils
begin

text \<open>
  The wire protocol, \<open>src/common/protocol.c\<close> and \<open>protocol.h\<close>: error texts,
  parsing and building of messages, and the two socket loops.  A NULL field is
  \<open>None\<close>.  What the kernel answers to successive \<open>send\<close> and \<open>recv\<close> calls is an
  explicit list of results; a loop that needs one more result than
  the list has is still waiting.

  The locales \<open>codec\<close> and \<open>line_codec\<close> state what a client of a message format relies
  on; the message format of the protocol is an instance of both.
\<close>

section \<open>Constants (protocol.h)\<close>

definition PROTOCOL_DELIMITER :: char where "PROTOCOL_DELIMITER = CHR ''|''"
definition MAX_MESSAGE_SIZE :: nat where "MAX_MESSAGE_SIZE = 65536"
definition MAX_FIELDS :: nat where "MAX_FIELDS = 32"
definition MAX_FIELD_SIZE :: nat where "MAX_FIELD_SIZE = 4096"

definition ERR_USERNAME_INVALID :: int where "ERR_USERNAME_INVALID = 101"
definition ERR_USER_NOT_FOUND :: int where "ERR_USER_NOT_FOUND = 102"
definition ERR_INVALID_REQUEST :: int where "ERR_INVALID_REQUEST = 400"
definition ERR_PERMISSION_DENIED :: int where "ERR_PERMISSION_DENIED = 403"
definition ERR_FILE_NOT_FOUND :: int where "ERR_FILE_NOT_FOUND = 404"
definition ERR_FILE_EXISTS :: int where "ERR_FILE_EXISTS = 409"
definition ERR_SENTENCE_LOCKED :: int where "ERR_SENTENCE_LOCKED = 423"
definition ERR_INTERNAL_ERROR :: int where "ERR_INTERNAL_ERROR = 500"
definition ERR_DISK_ERROR :: int where "ERR_DISK_ERROR = 501"
definition ERR_NO_UNDO_HISTORY :: int where "ERR_NO_UNDO_HISTORY = 502"
definition ERR_DELETE_FAILED :: int where "ERR_DELETE_FAILED = 503"
definition ERR_EXEC_FAILED :: int where "ERR_EXEC_FAILED = 504"

lemmas err_defs = ERR_USERNAME_INVALID_def ERR_USER_NOT_FOUND_def ERR_INVALID_REQUEST_def
  ERR_PERMISSION_DENIED_def ERR_FILE_NOT_FOUND_def ERR_FILE_EXISTS_def ERR_SENTENCE_LOCKED_def
  ERR_INTERNAL_ERROR_def ERR_DISK_ERROR_def ERR_NO_UNDO_HISTORY_def ERR_DELETE_FAILED_def
  ERR_EXEC_FAILED_def

section \<open>Error texts\<close>

definition error_messages :: "(int \<times> cstring) list" where
  "error_messages =
    [(ERR_USERNAME_INVALID, ''Username invalid or already connected.''),
     (ERR_USER_NOT_FOUND, ''User not found.''),
     (ERR_INVALID_REQUEST, ''Invalid index or arguments.''),
     (ERR_PERMISSION_DENIED, ''Permission denied.''),
     (ERR_FILE_NOT_FOUND, ''File not found.''),
     (ERR_FILE_EXISTS, ''File already exists.''),
     (ERR_SENTENCE_LOCKED, ''Sentence is locked by another user.''),
     (ERR_INTERNAL_ERROR, ''Internal server error.''),
     (ERR_DISK_ERROR, ''Disk error.''),
     (ERR_NO_UNDO_HISTORY, ''No undo history available for this file.''),
     (ERR_DELETE_FAILED, ''Failed to delete file from disk.''),
     (ERR_EXEC_FAILED, ''Command execution failed on server.'')]"

definition protocol_get_error_message :: "int \<Rightarrow> cstring" where
  "protocol_get_error_message error_code =
     (case map_of error_messages error_code of Some m \<Rightarrow> m | None \<Rightarrow> ''Unknown error.'')"

section \<open>Parsing and building\<close>

record protocol_message =
  msg_fields :: "cstring list"
  raw_message :: cstring

abbreviation field_count :: "protocol_message \<Rightarrow> nat" where
  "field_count m \<equiv> length (msg_fields m)"

function parse_loop :: "cstring \<Rightarrow> cstring list \<Rightarrow> cstring list" where
  "parse_loop current flds =
     (if length flds < MAX_FIELDS then
        case strchr_tail PROTOCOL_DELIMITER current of
          None \<Rightarrow> flds @ [current]
        | Some next_delimiter \<Rightarrow>
            let flds' = flds @ [takeWhile (\<lambda>c. c \<noteq> PROTOCOL_DELIMITER) current];
                current' = tl next_delimiter in
            if current' = [] then
              if length flds' < MAX_FIELDS then flds' @ [[]] else flds'
            else parse_loop current' flds'
      else flds)"
  by pat_completeness auto
termination
  by (relation "measure (\<lambda>(c, f). length c)") (use strchr_tail_length in force)+

declare parse_loop.simps [simp del]

definition strip_terminator :: "cstring \<Rightarrow> cstring" where
  "strip_terminator raw = (if raw \<noteq> [] \<and> last raw = newline then butlast raw else raw)"

definition protocol_parse_message :: "cstring \<Rightarrow> protocol_message" where
  "protocol_parse_message raw =
     (let raw_msg = strip_terminator (bounded_copy MAX_MESSAGE_SIZE raw) in
      \<lparr>msg_fields = parse_loop raw_msg [], raw_message = raw_msg\<rparr>)"

fun message_size :: "cstring list \<Rightarrow> nat" where
  "message_size [] = 0"
| "message_size [f] = length f"
| "message_size (f # g # fs) = length f + 1 + message_size (g # fs)"

fun build_loop :: "cstring \<Rightarrow> cstring list \<Rightarrow> cstring" where
  "build_loop message [] = message"
| "build_loop message [f] = message @ f"
| "build_loop message (f # g # fs) = build_loop (message @ f @ [PROTOCOL_DELIMITER]) (g # fs)"

definition protocol_build_message :: "cstring option list \<Rightarrow> cstring option" where
  "protocol_build_message flds =
     (if flds = [] then None
      else if None \<in> set flds then None
      else Some (build_loop [] (map the flds) @ [newline]))"

definition protocol_build_error :: "int \<Rightarrow> cstring option \<Rightarrow> cstring option" where
  "protocol_build_error error_code error_msg =
     protocol_build_message [Some ''ERR'', Some (bounded_copy 16 (show_int error_code)),
       Some (case error_msg of Some m \<Rightarrow> m | None \<Rightarrow> protocol_get_error_message error_code)]"

definition protocol_build_ok :: "cstring option \<Rightarrow> cstring option" where
  "protocol_build_ok message = (case message of
       Some m \<Rightarrow> protocol_build_message [Some ''OK'', Some m]
     | None \<Rightarrow> protocol_build_message [Some ''OK''])"

definition protocol_free_message :: "protocol_message \<Rightarrow> protocol_message" where
  "protocol_free_message m = m\<lparr>msg_fields := []\<rparr>"

section \<open>Socket loops\<close>

text \<open>Results of successive \<open>send\<close> calls: a count, an interruption, or another
  error.  The kernel never reports more than it was given.\<close>

datatype send_result = Sent nat | Send_EINTR | Send_error

text \<open>\<open>send_loop\<close> returns the bytes that went out and the value of the function:
  \<open>None\<close> while the results are used up before the loop ends, \<open>Some None\<close> for -1.\<close>

fun send_loop :: "cstring \<Rightarrow> nat \<Rightarrow> send_result list \<Rightarrow> cstring \<times> nat option option" where
  "send_loop message total_sent rs =
     (if total_sent < length message then
        case rs of
          [] \<Rightarrow> (take total_sent message, None)
        | Sent n # rs' \<Rightarrow> send_loop message (total_sent + min n (length message - total_sent)) rs'
        | Send_EINTR # rs' \<Rightarrow> send_loop message total_sent rs'
        | Send_error # rs' \<Rightarrow> (take total_sent message, Some None)
      else (take total_sent message, Some (Some total_sent)))"

declare send_loop.simps [simp del]

definition protocol_send_message :: "int \<Rightarrow> cstring \<Rightarrow> send_result list \<Rightarrow> cstring \<times> nat option option" where
  "protocol_send_message sockfd message rs =
     (if sockfd < 0 then ([], Some None) else send_loop message 0 rs)"

text \<open>Results of successive one-byte \<open>recv\<close> calls.\<close>

datatype recv_result = Byte char | Recv_EINTR | Recv_error | Recv_eof

datatype received = Received cstring | Null | Waiting

fun recv_loop :: "cstring \<Rightarrow> recv_result list \<Rightarrow> received \<times> recv_result list" where
  "recv_loop buffer rs =
     (if length buffer < MAX_MESSAGE_SIZE - 1 then
        case rs of
          [] \<Rightarrow> (Waiting, [])
        | Recv_EINTR # rs' \<Rightarrow> recv_loop buffer rs'
        | Recv_error # rs' \<Rightarrow> (Null, rs')
        | Recv_eof # rs' \<Rightarrow> (if buffer = [] then Null else Received buffer, rs')
        | Byte c # rs' \<Rightarrow>
            if c = newline then (Received (buffer @ [c]), rs')
            else recv_loop (buffer @ [c]) rs'
      else (Null, rs))"

declare recv_loop.simps [simp del]

definition protocol_receive_message :: "int \<Rightarrow> recv_result list \<Rightarrow> received \<times> recv_result list" where
  "protocol_receive_message sockfd rs = (if sockfd < 0 then (Null, rs) else recv_loop [] rs)"

section \<open>Validation\<close>

definition protocol_validate_message :: "cstring \<Rightarrow> bool" where
  "protocol_validate_message message \<longleftrightarrow>
     (if message = [] \<or> last message \<noteq> newline then False
      else if length message > MAX_MESSAGE_SIZE then False
      else True)"

definition protocol_is_error :: "protocol_message \<Rightarrow> bool" where
  "protocol_is_error m \<longleftrightarrow> (if field_count m = 0 then False else msg_fields m ! 0 = ''ERR'')"

definition protocol_get_error_code :: "protocol_message \<Rightarrow> int" where
  "protocol_get_error_code m =
     (if \<not> protocol_is_error m \<or> field_count m < 2 then -1 else atoi (msg_fields m ! 1))"

section \<open>Lemmas: parsing and building\<close>

lemma split_on_strchr:
  "split_on d s = (case strchr_tail d s of None \<Rightarrow> [s]
     | Some t \<Rightarrow> takeWhile (\<lambda>c. c \<noteq> d) s # split_on d (tl t))"
  by (induction s) (auto simp: strchr_tail_def split: list.splits)

lemma parse_loop_eq:
  "parse_loop s fs = take (max MAX_FIELDS (length fs)) (fs @ split_on PROTOCOL_DELIMITER s)"
proof (induction s fs rule: parse_loop.induct)
  case (1 s fs)
  show ?case
  proof (cases "length fs < MAX_FIELDS")
    case True
    show ?thesis
    proof (cases "strchr_tail PROTOCOL_DELIMITER s")
      case None
      then show ?thesis
        using True by (subst parse_loop.simps, subst split_on_strchr) simp
    next
      case (Some t)
      then show ?thesis
        using True 1 [OF True Some refl refl]
        by (subst parse_loop.simps, subst split_on_strchr) (auto simp: Let_def max_def take_Cons')
    qed
  qed (simp add: parse_loop.simps)
qed

lemma parse_fields:
  "msg_fields (protocol_parse_message raw) =
     take MAX_FIELDS (split_on PROTOCOL_DELIMITER (strip_terminator (bounded_copy MAX_MESSAGE_SIZE raw)))"
  by (simp add: protocol_parse_message_def parse_loop_eq Let_def)

lemma parse_line:
  "length raw < MAX_MESSAGE_SIZE \<Longrightarrow> strip_terminator raw = raw \<Longrightarrow> length (split_on PROTOCOL_DELIMITER raw) \<le> MAX_FIELDS \<Longrightarrow>
     msg_fields (protocol_parse_message raw) = split_on PROTOCOL_DELIMITER raw"
  by (simp add: parse_fields bounded_copy_id)

lemma parse_fields_ne [simp]: "msg_fields (protocol_parse_message raw) \<noteq> []"
  by (simp add: parse_fields MAX_FIELDS_def)

lemma build_loop_eq: "build_loop m fs = m @ join_with PROTOCOL_DELIMITER fs"
  by (induction m fs rule: build_loop.induct) auto

lemma build_some:
  "fs \<noteq> [] \<Longrightarrow> protocol_build_message (map Some fs) =
     Some (join_with PROTOCOL_DELIMITER fs @ [newline])"
  by (auto simp: protocol_build_message_def build_loop_eq comp_def)

lemma length_join_with: "length (join_with d fs) = message_size fs"
  by (induction d fs rule: join_with.induct) auto

lemma strip_terminator_line [simp]: "newline \<notin> set s \<Longrightarrow> strip_terminator (s @ [newline]) = s"
  by (simp add: strip_terminator_def)

definition wf_fields :: "cstring list \<Rightarrow> bool" where
  "wf_fields fs \<longleftrightarrow> fs \<noteq> [] \<and> length fs \<le> MAX_FIELDS \<and> message_size fs + 1 < MAX_MESSAGE_SIZE \<and>
     list_all (\<lambda>f. PROTOCOL_DELIMITER \<notin> set f \<and> newline \<notin> set f) fs"

lemma wf_fields_join: "wf_fields fs \<Longrightarrow> newline \<notin> set (join_with PROTOCOL_DELIMITER fs)"
  using set_join_with [of PROTOCOL_DELIMITER fs]
  by (auto simp: wf_fields_def list_all_iff PROTOCOL_DELIMITER_def newline_def)

lemma parse_build:
  assumes "wf_fields fs"
  shows "msg_fields (protocol_parse_message (join_with PROTOCOL_DELIMITER fs @ [newline])) = fs"
  using assms wf_fields_join [OF assms]
  by (simp add: parse_fields bounded_copy_id wf_fields_def length_join_with list_all_iff split_on_join)

section \<open>Lemmas: socket loops\<close>

lemma send_loop_prefix:
  "k \<le> length m \<Longrightarrow> \<exists>n. k \<le> n \<and> n \<le> length m \<and> fst (send_loop m k rs) = take n m \<and>
     (\<forall>v. snd (send_loop m k rs) = Some (Some v) \<longrightarrow> v = length m \<and> n = length m)"
proof (induction rs arbitrary: k)
  case Nil
  then show ?case
    by (subst (1 2) send_loop.simps) auto
next
  case (Cons r rs)
  show ?case
  proof (cases "k < length m")
    case True
    then show ?thesis
    proof (cases r)
      case (Sent n)
      let ?k = "k + min n (length m - k)"
      have "send_loop m k (r # rs) = send_loop m ?k rs"
        using True Sent by (subst send_loop.simps) simp
      moreover have "k \<le> ?k" "?k \<le> length m"
        using True by auto
      ultimately show ?thesis
        using Cons.IH [of ?k] by (metis order_trans)
    qed (use Cons in \<open>subst (1 2) send_loop.simps, auto\<close>)+
  qed (use Cons in \<open>subst (1 2) send_loop.simps, auto\<close>)
qed

text \<open>The bytes a list of results lets through, interruptions aside.\<close>

fun sent_total :: "send_result list \<Rightarrow> nat" where
  "sent_total [] = 0"
| "sent_total (Sent n # rs) = n + sent_total rs"
| "sent_total (_ # rs) = sent_total rs"

lemma send_loop_running:
  "k \<le> length m \<Longrightarrow> snd (send_loop m k rs) = None \<longleftrightarrow> Send_error \<notin> set rs \<and> k + sent_total rs < length m"
proof (induction rs arbitrary: k)
  case Nil
  then show ?case
    by (subst send_loop.simps) auto
next
  case (Cons r rs)
  show ?case
  proof (cases "k < length m")
    case True
    show ?thesis
    proof (cases r)
      case (Sent n)
      have "send_loop m k (r # rs) = send_loop m (k + min n (length m - k)) rs"
        using Sent True by (subst send_loop.simps) simp
      then show ?thesis
        using Cons.IH [of "k + min n (length m - k)"] Sent True by auto
    qed (use Cons True in \<open>subst send_loop.simps, auto\<close>)+
  next
    case False
    then show ?thesis
      using Cons.prems by (subst send_loop.simps) simp
  qed
qed

lemma send_loop_complete:
  assumes "Send_error \<notin> set rs" "length m \<le> k + sent_total rs" "k \<le> length m"
  shows "send_loop m k rs = (m, Some (Some (length m)))"
  using assms
proof (induction rs arbitrary: k)
  case Nil
  then show ?case
    by (subst send_loop.simps) simp
next
  case (Cons r rs)
  show ?case
  proof (cases "k < length m")
    case True
    show ?thesis
    proof (cases r)
      case (Sent n)
      have "send_loop m (k + min n (length m - k)) rs = (m, Some (Some (length m)))"
        using Cons.prems Sent True by (intro Cons.IH) auto
      then show ?thesis
        using Sent True by (subst send_loop.simps) simp
    qed (use Cons True in \<open>subst send_loop.simps, auto\<close>)+
  next
    case False
    then show ?thesis
      using Cons.prems by (subst send_loop.simps) simp
  qed
qed

lemma recv_loop_line:
  assumes "newline \<notin> set line" "length buf + length line < MAX_MESSAGE_SIZE - 1"
  shows "recv_loop buf (map Byte (line @ [newline]) @ rs) = (Received (buf @ line @ [newline]), rs)"
  using assms
proof (induction line arbitrary: buf)
  case Nil
  then show ?case
    by (subst recv_loop.simps) simp
next
  case (Cons c line)
  then show ?case
    using Cons.IH [of "buf @ [c]"] by (subst recv_loop.simps) auto
qed

lemma recv_loop_too_long:
  assumes "newline \<notin> set line" "length buf + length line = MAX_MESSAGE_SIZE - 1"
  shows "recv_loop buf (map Byte line @ rs) = (Null, rs)"
  using assms
proof (induction line arbitrary: buf)
  case Nil
  then show ?case
    by (subst recv_loop.simps) simp
next
  case (Cons c line)
  then show ?case
    using Cons.IH [of "buf @ [c]"] by (subst recv_loop.simps) auto
qed

section \<open>Interface: formats and line formats\<close>

locale codec =
  fixes enc :: "'a \<Rightarrow> cstring option"
    and dec :: "cstring \<Rightarrow> 'a"
    and wf :: "'a \<Rightarrow> bool"
  assumes enc_total: "wf x \<Longrightarrow> \<exists>m. enc x = Some m"
    and dec_enc: "wf x \<Longrightarrow> enc x = Some m \<Longrightarrow> dec m = x"
begin

lemma enc_inj: "wf x \<Longrightarrow> wf y \<Longrightarrow> enc x = enc y \<Longrightarrow> x = y"
  using enc_total dec_enc by metis

lemma dec_the_enc: "wf x \<Longrightarrow> dec (the (enc x)) = x"
  using enc_total dec_enc by fastforce

end

locale line_codec = codec +
  assumes one_line: "wf x \<Longrightarrow> enc x = Some m \<Longrightarrow>
    \<exists>b. m = b @ [newline] \<and> newline \<notin> set b \<and> length b < MAX_MESSAGE_SIZE - 1"
begin

text \<open>Reading one message from a stream of encoded values.\<close>

lemma receive_one:
  assumes "wf x" "0 \<le> fd"
  shows "\<exists>m. protocol_receive_message fd (map Byte (the (enc x)) @ rs) = (Received m, rs) \<and> dec m = x"
proof -
  obtain m b where m: "enc x = Some m" "m = b @ [newline]" "newline \<notin> set b"
      "length b < MAX_MESSAGE_SIZE - 1"
    using enc_total [OF assms(1)] one_line [OF assms(1)] by metis
  then have "protocol_receive_message fd (map Byte m @ rs) = (Received m, rs)"
    using recv_loop_line [of b "[]" rs] assms(2) by (simp add: protocol_receive_message_def)
  then show ?thesis
    using m dec_enc [OF assms(1)] by simp
qed

fun receive_all :: "int \<Rightarrow> nat \<Rightarrow> recv_result list \<Rightarrow> 'a list option" where
  "receive_all fd 0 rs = Some []"
| "receive_all fd (Suc n) rs = (case protocol_receive_message fd rs of
       (Received m, rs') \<Rightarrow> map_option ((#) (dec m)) (receive_all fd n rs')
     | _ \<Rightarrow> None)"

lemma receive_all_enc:
  assumes "\<forall>x\<in>set xs. wf x" "0 \<le> fd"
  shows "receive_all fd (length xs) (map Byte (concat (map (\<lambda>x. the (enc x)) xs))) = Some xs"
  using assms
proof (induction xs)
  case (Cons x xs)
  obtain m where "protocol_receive_message fd
      (map Byte (the (enc x)) @ map Byte (concat (map (\<lambda>x. the (enc x)) xs))) =
      (Received m, map Byte (concat (map (\<lambda>x. the (enc x)) xs)))" "dec m = x"
    using receive_one [of x fd] Cons.prems by auto
  then show ?case
    using Cons by simp
qed simp

end

interpretation pm: line_codec "\<lambda>fs. protocol_build_message (map Some fs)"
  "\<lambda>raw. msg_fields (protocol_parse_message raw)" wf_fields
proof (unfold_locales, goal_cases)
  case (1 fs)
  then show ?case
    using build_some [of fs] by (simp add: wf_fields_def)
next
  case (2 fs m)
  then show ?case
    using build_some [of fs] parse_build by (auto simp: wf_fields_def)
next
  case (3 fs m)
  then show ?case
    using build_some [of fs] wf_fields_join [of fs] by (auto simp: wf_fields_def length_join_with)
qed

end
