(* ===== verification/Sentences.thy ===== *)
theory Sentences
  imports Utils
begin

text \<open>
  The sentence and word machinery of the storage server
  (\<open>src/storage_server/storage_server.c\<close>): \<open>parse_int\<close>, \<open>ss_sanitize_tag\<close>,
  \<open>split_words\<close>, \<open>join_words\<close>, \<open>ss_get_sentence_bounds\<close>, the text part of
  \<open>ss_apply_word_edit\<close> and \<open>count_sentences_in_span\<close>.  A \<open>char *\<close> cursor into a
  text is the pair of the remaining text and its offset.  Allocation always
  succeeds.

  The locale \<open>sentence_text\<close> at the end states what the write sessions need
  of the sentence bounds when a sentence is replaced; its client lemmas are
  about lists of locked spans, and it is interpreted on \<open>ss_get_sentence_bounds\<close>.
\<close>

section \<open>Integers and tags\<close>

definition parse_int :: "cstring \<Rightarrow> int option" where
  "parse_int text = (let (val, endptr, erange) = strtol64 text in
     if endptr \<noteq> [] then None
     else if val < INT_MIN_I \<or> val > INT_MAX_I then None
     else Some val)"

definition sanitize_char :: "char \<Rightarrow> char" where
  "sanitize_char ch = (if is_alnum ch \<or> ch = CHR ''_'' \<or> ch = CHR ''-'' then ch
     else if \<not> is_space ch then CHR ''_'' else CHR ''-'')"

fun sanitize_loop :: "nat \<Rightarrow> cstring \<Rightarrow> cstring \<Rightarrow> cstring" where
  "sanitize_loop sz buffer [] = buffer"
| "sanitize_loop sz buffer (ch # p) =
     (if length buffer + 1 < sz then sanitize_loop sz (buffer @ [sanitize_char ch]) p else buffer)"

definition ss_sanitize_tag :: "nat \<Rightarrow> cstring \<Rightarrow> cstring" where
  "ss_sanitize_tag sz tag = sanitize_loop sz [] tag"

section \<open>Words\<close>

function split_words_loop :: "cstring list \<Rightarrow> cstring \<Rightarrow> cstring list" where
  "split_words_loop words ptr =
     (if ptr = [] then words
      else let start = dropWhile is_space ptr in
        if start = [] then words
        else split_words_loop (words @ [takeWhile (\<lambda>c. \<not> is_space c) start])
               (dropWhile (\<lambda>c. \<not> is_space c) start))"
  by pat_completeness auto
termination
proof (relation "measure (\<lambda>(ws, p). length p)", goal_cases)
  case (2 words ptr start)
  obtain c t where start: "start = c # t"
    using 2 by (meson neq_Nil_conv)
  then have "\<not> is_space c" "length (c # t) \<le> length ptr"
    using 2 by (metis dropWhile_eq_Cons_conv, metis length_dropWhile_le)
  then show ?case
    using length_dropWhile_le [of "\<lambda>c. \<not> is_space c" t] by (simp add: start)
qed simp

declare split_words_loop.simps [simp del]

definition split_words :: "cstring \<Rightarrow> cstring list" where
  "split_words text = split_words_loop [] text"

text \<open>\<open>join_words\<close>: the buffer has exactly \<open>total + 1\<close> bytes and is filled with
  \<open>safe_strcat\<close>, whose failure the code ignores.  A delimiter character of NUL is \<open>None\<close>.\<close>

fun join_loop :: "nat \<Rightarrow> bool \<Rightarrow> cstring \<Rightarrow> cstring list \<Rightarrow> cstring" where
  "join_loop sz first result [] = result"
| "join_loop sz first result (w # ws) =
     join_loop sz False
       (strcat_ignore sz (if first then result else strcat_ignore sz result '' '') w) ws"

definition ends_with_delimiter :: "cstring list \<Rightarrow> bool" where
  "ends_with_delimiter words \<longleftrightarrow>
     words \<noteq> [] \<and> last words \<noteq> [] \<and> is_sentence_delimiter (last (last words))"

definition join_words :: "cstring list \<Rightarrow> char option \<Rightarrow> cstring" where
  "join_words words delimiter_char =
     (let add_delim = (delimiter_char \<noteq> None \<and> \<not> ends_with_delimiter words);
          total = sum_list (map length words) + (length words - 1) + (if add_delim then 1 else 0);
          result = join_loop (total + 1) True [] words in
      if add_delim then result @ [the delimiter_char] else result)"

section \<open>Sentence bounds\<close>

function bounds_loop :: "cstring \<Rightarrow> nat \<Rightarrow> nat \<Rightarrow> int \<Rightarrow> int \<Rightarrow> (nat \<times> nat) option" where
  "bounds_loop [] cursor start current index =
     (if current = index \<and> start \<le> cursor then Some (start, cursor) else None)"
| "bounds_loop (c # p) cursor start current index =
     (if is_sentence_delimiter c then
        if current = index then Some (start, cursor + 1)
        else let p' = dropWhile is_space p; cursor' = cursor + 1 + length (takeWhile is_space p) in
          bounds_loop p' cursor' cursor' (current + 1) index
      else bounds_loop p (cursor + 1) start current index)"
  by pat_completeness auto
termination
  by (relation "measure (\<lambda>(p, cur, st, c, i). length p)")
    (auto simp: le_imp_less_Suc length_dropWhile_le)

definition ss_get_sentence_bounds :: "cstring \<Rightarrow> int \<Rightarrow> (nat \<times> nat) option" where
  "ss_get_sentence_bounds text sentence_index =
     (if sentence_index < 0 then None
      else let cursor = length (takeWhile is_space text);
               sentence_start = dropWhile is_space text in
        if sentence_start = [] then
          if sentence_index = 0 then Some (cursor, cursor) else None
        else bounds_loop sentence_start cursor cursor 0 sentence_index)"

section \<open>Word edits\<close>

fun strip_trailing :: "cstring \<Rightarrow> cstring" where
  "strip_trailing s = (if s \<noteq> [] \<and> is_space (last s) then strip_trailing (butlast s) else s)"

declare strip_trailing.simps [simp del]

text \<open>The text part of \<open>ss_apply_word_edit\<close>: the new value of
  \<open>session->sentence_working\<close>, or \<open>None\<close> for -1.\<close>

definition apply_word_edit :: "cstring \<Rightarrow> int \<Rightarrow> cstring \<Rightarrow> cstring option" where
  "apply_word_edit current_sentence word_index content =
     (if word_index < 0 then None else
      let buffer = strip_trailing current_sentence;
          delimiter = (if buffer \<noteq> [] \<and> is_sentence_delimiter (last buffer)
                       then Some (last buffer) else None);
          buffer' = (if delimiter \<noteq> None then butlast buffer else buffer);
          words = split_words buffer' in
      if word_index > int (length words) + 1 then None else
      let new_words = split_words content;
          insert_pos = (if word_index > int (length words) then length words else nat word_index);
          words' = (if length new_words > 0
                    then take insert_pos words @ new_words @ drop insert_pos words else words) in
      Some (join_words words' delimiter))"

definition count_sentences_in_span :: "cstring \<Rightarrow> nat \<Rightarrow> nat \<Rightarrow> int" where
  "count_sentences_in_span text start fin =
     (if start \<ge> fin then 0 else
      let cnt = length (filter is_sentence_delimiter (take (fin - start) (drop start text))) in
      if cnt = 0 then 1 else int cnt)"

section \<open>Lemmas: integers and tags\<close>

lemma parse_int_show_int:
  "INT_MIN_I \<le> i \<Longrightarrow> i \<le> INT_MAX_I \<Longrightarrow> parse_int (show_int i) = Some i"
  using strtol64_show_int [of i "[]"]
  by (simp add: parse_int_def INT_MIN_I_def INT_MAX_I_def LONG_MIN_I_def LONG_MAX_I_def)

lemma parse_int_range: "parse_int t = Some i \<Longrightarrow> INT_MIN_I \<le> i \<and> i \<le> INT_MAX_I"
  by (auto simp: parse_int_def split: if_splits prod.splits)

lemma sanitize_loop_eq:
  "sanitize_loop sz buf p = buf @ take (sz - 1 - length buf) (map sanitize_char p)"
  by (induction p arbitrary: buf) (auto simp: take_Cons')

lemma ss_sanitize_tag_eq: "ss_sanitize_tag sz tag = take (sz - 1) (map sanitize_char tag)"
  by (simp add: ss_sanitize_tag_def sanitize_loop_eq)

definition tag_char :: "char \<Rightarrow> bool" where
  "tag_char c \<longleftrightarrow> is_alnum c \<or> c = CHR ''_'' \<or> c = CHR ''-''"

lemma sanitize_char_tag [simp]: "tag_char (sanitize_char c)"
  by (simp add: sanitize_char_def tag_char_def)

lemma sanitize_char_id: "tag_char c \<Longrightarrow> sanitize_char c = c"
  by (auto simp: sanitize_char_def tag_char_def)

lemma sanitize_idem: "ss_sanitize_tag sz (ss_sanitize_tag sz t) = ss_sanitize_tag sz t"
  by (simp add: ss_sanitize_tag_eq take_map sanitize_char_id)

lemma sanitize_set: "c \<in> set (ss_sanitize_tag sz t) \<Longrightarrow> tag_char c"
  by (auto simp: ss_sanitize_tag_eq dest!: in_set_takeD)

section \<open>Lemmas: words\<close>

lemma split_words_loop_eq: "split_words_loop ws p = ws @ word_list p"
proof (induction ws p rule: split_words_loop.induct)
  case (1 ws p)
  then show ?case
    by (subst split_words_loop.simps, subst word_list.simps)
      (auto simp: Let_def split: list.splits)
qed

lemma split_words_eq: "split_words s = word_list s"
  by (simp add: split_words_def split_words_loop_eq)

definition is_word :: "cstring \<Rightarrow> bool" where
  "is_word w \<longleftrightarrow> w \<noteq> [] \<and> (\<forall>c\<in>set w. \<not> is_space c)"

lemma word_list_words: "w \<in> set (word_list s) \<Longrightarrow> is_word w"
proof (induction s rule: word_list.induct)
  case (1 s)
  show ?case
  proof (cases "dropWhile is_space s")
    case Nil
    then show ?thesis
      using 1(2) by (subst (asm) word_list.simps) simp
  next
    case (Cons c t)
    then have "\<not> is_space c"
      by (metis dropWhile_eq_Cons_conv)
    moreover have "w = takeWhile (\<lambda>x. \<not> is_space x) (c # t) \<or>
        w \<in> set (word_list (dropWhile (\<lambda>x. \<not> is_space x) (c # t)))"
      using 1(2) Cons by (subst (asm) word_list.simps) simp
    moreover have "is_word (takeWhile (\<lambda>x. \<not> is_space x) (c # t))" if "\<not> is_space c"
      using that by (auto simp: is_word_def dest: set_takeWhileD)
    ultimately show ?thesis
      using 1(1) [OF Cons] by blast
  qed
qed

fun unwords :: "cstring list \<Rightarrow> cstring" where
  "unwords [] = []"
| "unwords [w] = w"
| "unwords (w # v # ws) = w @ '' '' @ unwords (v # ws)"

lemma length_unwords: "length (unwords ws) = sum_list (map length ws) + (length ws - 1)"
  by (induction ws rule: unwords.induct) auto

lemma unwords_Cons: "ws \<noteq> [] \<Longrightarrow> unwords (w # ws) = w @ '' '' @ unwords ws"
  by (cases ws) auto

lemma strcat_ignore_fits:
  "length d + length s < sz \<Longrightarrow> s \<noteq> [] \<Longrightarrow> strcat_ignore sz d s = d @ s"
  by (cases s) (auto simp: strcat_ignore_def safe_strcat_def)

lemma join_loop_rest:
  assumes "\<forall>w\<in>set ws. w \<noteq> []"
    "length r + sum_list (map length ws) + length ws < sz"
  shows "join_loop sz False r ws = r @ (if ws = [] then [] else '' '' @ unwords ws)"
  using assms
proof (induction ws arbitrary: r)
  case (Cons w ws)
  have "join_loop sz False (r @ '' '' @ w) ws =
      (r @ '' '' @ w) @ (if ws = [] then [] else '' '' @ unwords ws)"
    using Cons.prems by (intro Cons.IH) auto
  moreover have "strcat_ignore sz (strcat_ignore sz r '' '') w = r @ '' '' @ w"
    using Cons.prems by (simp add: strcat_ignore_fits)
  ultimately show ?case
    by (simp add: unwords_Cons)
qed simp

lemma join_loop_eq:
  assumes "\<forall>w\<in>set ws. w \<noteq> []" "length (unwords ws) < sz"
  shows "join_loop sz True [] ws = unwords ws"
proof (cases ws)
  case (Cons w vs)
  then show ?thesis
    using assms by (cases vs) (simp_all add: strcat_ignore_fits join_loop_rest length_unwords unwords_Cons)
qed simp

lemma join_words_eq:
  assumes "\<forall>w\<in>set ws. w \<noteq> []"
  shows "join_words ws d = unwords ws @
    (case d of None \<Rightarrow> [] | Some c \<Rightarrow> if ends_with_delimiter ws then [] else [c])"
  using assms join_loop_eq [OF assms]
  by (auto simp: join_words_def length_unwords Let_def split: option.splits)

lemma word_list_appfinspace:
  "is_word w \<Longrightarrow> is_space c \<Longrightarrow> word_list (w @ c # s) = w # word_list s"
  by (cases w) (auto simp: is_word_def word_list_word takeWhile_append dropWhile_append)

lemma word_list_single: "is_word w \<Longrightarrow> word_list w = [w]"
  by (cases w) (auto simp: is_word_def word_list_word)

lemma word_list_unwords: "\<forall>w\<in>set ws. is_word w \<Longrightarrow> word_list (unwords ws) = ws"
  by (induction ws rule: unwords.induct)
    (simp_all add: word_list_single word_list_appfinspace is_space_def)

section \<open>Lemmas: sentence bounds\<close>

lemma count_sentences_simps [simp]:
  "count_sentences [] = 0"
  "count_sentences (c # s) = (if is_sentence_delimiter c then 1 else 0) + count_sentences s"
  "count_sentences (s @ t) = count_sentences s + count_sentences t"
  by (simp_all add: count_sentences_def)

lemma count_sentences_dropWhile_space [simp]:
  "count_sentences (dropWhile is_space s) = count_sentences s"
  by (induction s) (auto dest: delimiter_not_space)

lemma count_sentences_spaces [simp]: "count_sentences (takeWhile is_space s) = 0"
  by (induction s) (auto dest: delimiter_not_space)

lemma leading_append:
  assumes "\<exists>x\<in>set p. \<not> is_space x"
  shows "dropWhile is_space (p @ r) = dropWhile is_space p @ r"
    "takeWhile is_space (p @ r) = takeWhile is_space p" "dropWhile is_space p \<noteq> []"
  using assms by (auto simp: dropWhile_append1 takeWhile_append1 dropWhile_eq_Nil_conv)

lemma count_pos_ne: "int (count_sentences s) = n \<Longrightarrow> 0 < n \<Longrightarrow> s \<noteq> []"
  by auto

lemma has_delimiter: "count_sentences s > 0 \<Longrightarrow> \<exists>c\<in>set s. \<not> is_space c"
  by (induction s) (auto split: if_splits dest: delimiter_not_space)

lemma length_space_split [simp]:
  "length (takeWhile is_space s) + length (dropWhile is_space s) = length s"
  by (metis length_append takeWhile_dropWhile_id)

text \<open>The text around a sentence: a sentence found inside a prefix does not
  depend on what follows, and a sentence beyond a terminated prefix is found
  by scanning only what follows.\<close>

lemma bounds_loop_prefix:
  "current \<le> index \<Longrightarrow> index < current + int (count_sentences p) \<Longrightarrow>
   bounds_loop (p @ r) cursor start current index = bounds_loop p cursor start current index"
proof (induction p cursor start current index rule: bounds_loop.induct)
  case (2 c p cursor start current index)
  show ?case
  proof (cases "is_sentence_delimiter c \<and> current \<noteq> index")
    case True
    then have "\<exists>x\<in>set p. \<not> is_space x"
      using 2(3,4) by (intro has_delimiter) auto
    then show ?thesis
      using True 2 by (auto simp: Let_def leading_append)
  qed (use 2 in auto)
qed simp

lemma bounds_loop_skip:
  "p \<noteq> [] \<Longrightarrow> is_sentence_delimiter (last p) \<Longrightarrow> current + int (count_sentences p) \<le> index \<Longrightarrow>
   bounds_loop (p @ r) cursor start current index =
     (let k = cursor + length p + length (takeWhile is_space r) in
      bounds_loop (dropWhile is_space r) k k (current + int (count_sentences p)) index)"
proof (induction p cursor start current index rule: bounds_loop.induct)
  case (2 c p cursor start current index)
  show ?case
  proof (cases "p = []")
    case True
    then show ?thesis
      using 2 by (auto simp: Let_def)
  next
    case False
    then have lst: "is_sentence_delimiter (last p)"
      using 2 by simp
    then have "\<exists>x\<in>set p. \<not> is_space x"
      using False delimiter_not_space last_in_set by blast
    then have app: "dropWhile is_space (p @ r) = dropWhile is_space p @ r"
        "takeWhile is_space (p @ r) = takeWhile is_space p"
      and ne: "dropWhile is_space p \<noteq> []"
      by (rule leading_append)+
    then have lst': "is_sentence_delimiter (last (dropWhile is_space p))"
      using lst by (metis last_appendR takeWhile_dropWhile_id)
    have len: "length (takeWhile is_space p) + length (dropWhile is_space p) = length p"
      by simp
    show ?thesis
    proof (cases "is_sentence_delimiter c")
      case True
      then have "current \<noteq> index" "current + 1 + int (count_sentences p) \<le> index"
        using 2(5) by auto
      then show ?thesis
        using True 2(1) [OF True _ refl refl ne lst'] len
        by (simp add: app Let_def add.assoc)
    next
      case False
      then show ?thesis
        using 2(2) [OF False \<open>p \<noteq> []\<close> lst] 2(5) by (simp add: Let_def add.assoc)
    qed
  qed
qed simp

lemma bounds_loop_shift:
  "bounds_loop p (cursor + k) (start + k) (current + m) (index + m) =
   map_option (\<lambda>(s, e). (s + k, e + k)) (bounds_loop p cursor start current index)"
proof (induction p cursor start current index rule: bounds_loop.induct)
  case (2 c p cursor start current index)
  then show ?case
    by (auto simp: Let_def algebra_simps)
qed auto

lemma bounds_loop_some:
  "bounds_loop p cursor start current index = Some (s, e) \<Longrightarrow> current \<le> index \<Longrightarrow> start \<le> cursor \<Longrightarrow>
   start \<le> s \<and> s \<le> e \<and> e \<le> cursor + length p \<and> cursor \<le> e \<and>
   index \<le> current + int (count_sentences p) \<and>
   int (count_sentences (take (s - cursor) p)) = index - current"
proof (induction p cursor start current index rule: bounds_loop.induct)
  case (2 c p cursor start current index)
  show ?case
  proof (cases "is_sentence_delimiter c")
    case True
    define k where "k = length (takeWhile is_space p)"
    have p: "take n p = takeWhile is_space p @ take (n - k) (dropWhile is_space p)" if "k \<le> n" for n
      using that take_append [of n "takeWhile is_space p" "dropWhile is_space p"] by (simp add: k_def)
    have len: "k + length (dropWhile is_space p) = length p"
      by (simp add: k_def)
    show ?thesis
    proof (cases "current = index")
      case False
      have IH: "cursor + 1 + k \<le> s \<and> s \<le> e \<and> e \<le> cursor + 1 + k + length (dropWhile is_space p) \<and>
          cursor + 1 + k \<le> e \<and> index \<le> current + 1 + int (count_sentences p) \<and>
          int (count_sentences (take (s - (cursor + 1 + k)) (dropWhile is_space p))) = index - (current + 1)"
        using 2(1) [of "dropWhile is_space p" "cursor + 1 + k"] True False 2(3-5)
        by (simp add: k_def)
      then have "take (s - cursor) (c # p) = c # takeWhile is_space p @
          take (s - (cursor + 1 + k)) (dropWhile is_space p)"
        using p [of "s - cursor - 1"] by (simp add: take_Cons') linarith
      then show ?thesis
        using IH True len 2(5) by auto
    qed (use 2 True in auto)
  next
    case False
    then have "start \<le> s \<and> s \<le> e \<and> e \<le> cursor + 1 + length p \<and> cursor + 1 \<le> e \<and>
        index \<le> current + int (count_sentences p) \<and>
        int (count_sentences (take (s - (cursor + 1)) p)) = index - current"
      using 2 by simp
    then show ?thesis
      using False by (auto simp: take_Cons')
  qed
qed (auto split: if_splits)

lemma bounds_loop_terminated:
  "bounds_loop p cursor start current index = Some (s, e) \<Longrightarrow> current \<le> index \<Longrightarrow>
   index < current + int (count_sentences p) \<Longrightarrow>
   cursor < e \<and> is_sentence_delimiter (last (take (e - cursor) p)) \<and>
   int (count_sentences (take (e - cursor) p)) = index - current + 1"
proof (induction p cursor start current index rule: bounds_loop.induct)
  case (2 c p cursor start current index)
  show ?case
  proof (cases "is_sentence_delimiter c \<and> current \<noteq> index")
    case True
    define k where "k = length (takeWhile is_space p)"
    have p: "take n p = takeWhile is_space p @ take (n - k) (dropWhile is_space p)" if "k \<le> n" for n
      using that take_append [of n "takeWhile is_space p" "dropWhile is_space p"] by (simp add: k_def)
    have IH: "cursor + 1 + k < e \<and>
        is_sentence_delimiter (last (take (e - (cursor + 1 + k)) (dropWhile is_space p))) \<and>
        int (count_sentences (take (e - (cursor + 1 + k)) (dropWhile is_space p))) = index - current"
      using 2(1) [of "dropWhile is_space p" "cursor + 1 + k"] True 2(3-5) by (simp add: k_def)
    have "take (e - cursor) (c # p) = c # takeWhile is_space p @
        take (e - (cursor + 1 + k)) (dropWhile is_space p)"
      using IH p [of "e - cursor - 1"] by (auto simp: take_Cons')
    moreover have "take (e - (cursor + 1 + k)) (dropWhile is_space p) \<noteq> []"
      using IH True 2(4) by (intro count_pos_ne) auto
    ultimately show ?thesis
      using IH True by auto
  next
    case False
    show ?thesis
    proof (cases "is_sentence_delimiter c")
      case True
      then show ?thesis
        using False 2 by auto
    next
      case nd: False
      then have IH: "cursor + 1 < e \<and> is_sentence_delimiter (last (take (e - (cursor + 1)) p)) \<and>
          int (count_sentences (take (e - (cursor + 1)) p)) = index - current + 1"
        using 2 by simp
      then have "take (e - cursor) (c # p) = c # take (e - (cursor + 1)) p"
        by (auto simp: take_Cons')
      moreover have "take (e - (cursor + 1)) p \<noteq> []"
        using IH 2(4) by (intro count_pos_ne) auto
      ultimately show ?thesis
        using IH nd by auto
    qed
  qed
qed simp

lemma bounds_loop_last:
  "current + int (count_sentences p) = index \<Longrightarrow> start \<le> cursor \<Longrightarrow>
   \<exists>s. bounds_loop p cursor start current index = Some (s, cursor + length p)"
proof (induction p cursor start current index rule: bounds_loop.induct)
  case (2 c p cursor start current index)
  then show ?case
    by (auto simp: Let_def add.assoc)
qed simp

lemma bounds_loop_defined:
  assumes "current \<le> index" "index \<le> current + int (count_sentences p)" "start \<le> cursor"
  shows "\<exists>se. bounds_loop p cursor start current index = Some se"
  using assms
proof (induction p cursor start current index rule: bounds_loop.induct)
  case (2 c p cursor start current index)
  then show ?case
    by (auto simp: Let_def)
qed simp

lemma bounds_eq_loop:
  "ss_get_sentence_bounds t i = (if i < 0 then None
     else bounds_loop (dropWhile is_space t) (length (takeWhile is_space t))
            (length (takeWhile is_space t)) 0 i)"
  by (auto simp: ss_get_sentence_bounds_def Let_def)

lemma take_leading:
  assumes "length (takeWhile is_space t) \<le> n"
  shows "take n t = takeWhile is_space t @ take (n - length (takeWhile is_space t)) (dropWhile is_space t)"
  using assms take_append [of n "takeWhile is_space t" "dropWhile is_space t"] by simp

lemma bounds_some:
  assumes "ss_get_sentence_bounds t i = Some (s, e)"
  shows "0 \<le> i" "s \<le> e" "e \<le> length t" "i \<le> int (count_sentences t)"
    "int (count_sentences (take s t)) = i"
proof -
  let ?k = "length (takeWhile is_space t)"
  show i: "0 \<le> i"
    using assms by (auto simp: bounds_eq_loop split: if_splits)
  then have b: "bounds_loop (dropWhile is_space t) ?k ?k 0 i = Some (s, e)"
    using assms by (simp add: bounds_eq_loop)
  note F = bounds_loop_some [OF b i order_refl]
  show "s \<le> e" "e \<le> length t" "i \<le> int (count_sentences t)"
    using F length_space_split [of t] by auto
  show "int (count_sentences (take s t)) = i"
    using F by (subst take_leading) auto
qed

lemma bounds_defined_iff:
  "(\<exists>se. ss_get_sentence_bounds t i = Some se) \<longleftrightarrow> 0 \<le> i \<and> i \<le> int (count_sentences t)"
proof
  assume "0 \<le> i \<and> i \<le> int (count_sentences t)"
  then show "\<exists>se. ss_get_sentence_bounds t i = Some se"
    using bounds_loop_defined [of 0 i "dropWhile is_space t"] by (simp add: bounds_eq_loop)
qed (use bounds_some in auto)

lemma bounds_terminated:
  assumes "ss_get_sentence_bounds t i = Some (s, e)" "i < int (count_sentences t)"
  shows "s < e" "is_sentence_delimiter (last (take e t))" "int (count_sentences (take e t)) = i + 1"
proof -
  let ?k = "length (takeWhile is_space t)"
  note B = bounds_some [OF assms(1)]
  have b: "bounds_loop (dropWhile is_space t) ?k ?k 0 i = Some (s, e)"
    using assms(1) B(1) by (simp add: bounds_eq_loop)
  have T: "?k < e \<and> is_sentence_delimiter (last (take (e - ?k) (dropWhile is_space t))) \<and>
      int (count_sentences (take (e - ?k) (dropWhile is_space t))) = i + 1"
    using bounds_loop_terminated [OF b B(1)] assms(2) by simp
  have tk: "take e t = takeWhile is_space t @ take (e - ?k) (dropWhile is_space t)"
    using T by (intro take_leading) simp
  have "take (e - ?k) (dropWhile is_space t) \<noteq> []"
    using T B(1) by (intro count_pos_ne) auto
  then show "is_sentence_delimiter (last (take e t))" "int (count_sentences (take e t)) = i + 1"
    using T by (simp_all add: tk)
  then show "s < e"
    using B(2,5) by (metis nat_less_le zless_add1_eq less_irrefl)
qed

lemma bounds_unterminated:
  assumes "ss_get_sentence_bounds t i = Some (s, e)" "i = int (count_sentences t)"
  shows "e = length t"
proof -
  let ?k = "length (takeWhile is_space t)"
  have "\<exists>s'. bounds_loop (dropWhile is_space t) ?k ?k 0 i = Some (s', ?k + length (dropWhile is_space t))"
    using assms(2) by (intro bounds_loop_last) auto
  then show ?thesis
    using assms by (auto simp: bounds_eq_loop)
qed

lemma bounds_prefix:
  assumes "j < int (count_sentences p)"
  shows "ss_get_sentence_bounds (p @ r) j = ss_get_sentence_bounds p j"
proof (cases "j < 0")
  case False
  then have "\<exists>x\<in>set p. \<not> is_space x"
    using assms by (intro has_delimiter) linarith
  then show ?thesis
    using False assms by (simp add: bounds_eq_loop leading_append bounds_loop_prefix)
qed (simp add: bounds_eq_loop)

lemma bounds_skip:
  assumes "p \<noteq> []" "is_sentence_delimiter (last p)" "int (count_sentences p) \<le> j"
  shows "ss_get_sentence_bounds (p @ r) j =
    (let k = length p + length (takeWhile is_space r) in
     bounds_loop (dropWhile is_space r) k k (int (count_sentences p)) j)"
proof -
  have sp: "\<exists>x\<in>set p. \<not> is_space x"
    using assms delimiter_not_space last_in_set by blast
  note lead = leading_append [OF sp]
  have "is_sentence_delimiter (last (dropWhile is_space p))"
    using assms(2) lead(3) by (metis last_appendR takeWhile_dropWhile_id)
  note skip = bounds_loop_skip [OF lead(3) this, of 0 j r]
  show ?thesis
    using assms(3) skip by (simp add: bounds_eq_loop lead Let_def flip: add.assoc)
qed

section \<open>Replacing a sentence\<close>

definition splice_text :: "cstring \<Rightarrow> nat \<Rightarrow> nat \<Rightarrow> cstring \<Rightarrow> cstring" where
  "splice_text t s e w = take s t @ w @ drop e t"

definition closed_text :: "cstring \<Rightarrow> bool" where
  "closed_text w \<longleftrightarrow> w \<noteq> [] \<and> is_sentence_delimiter (last w)"

definition span_text :: "cstring \<Rightarrow> nat \<Rightarrow> nat \<Rightarrow> cstring" where
  "span_text t s e = take (e - s) (drop s t)"

text \<open>The \<open>sentence_delta\<close> that \<open>handle_client_etirw\<close> computes.\<close>

definition sentence_delta :: "cstring \<Rightarrow> nat \<Rightarrow> nat \<Rightarrow> cstring \<Rightarrow> int" where
  "sentence_delta t s e w =
     count_sentences_in_span w 0 (length w) - count_sentences_in_span t s e"

lemma span_text_prefix: "s \<le> e \<Longrightarrow> take s t @ span_text t s e = take e t"
  by (simp add: span_text_def take_add [symmetric])

lemma count_span:
  assumes "s \<le> e"
  shows "count_sentences (take s t) + count_sentences (span_text t s e) = count_sentences (take e t)"
  using span_text_prefix [OF assms, of t] by (metis count_sentences_simps(3))

lemma closed_count: "closed_text w \<Longrightarrow> 0 < count_sentences w"
  by (cases w rule: rev_cases) (auto simp: closed_text_def)

lemma delta_closed:
  assumes "s < e" "count_sentences (span_text t s e) = 1" "closed_text w"
  shows "sentence_delta t s e w = int (count_sentences w) - 1"
  using assms closed_count [of w]
  by (simp add: sentence_delta_def count_sentences_in_span_def count_sentences_def span_text_def
      closed_text_def Let_def)

lemma bounds_order:
  assumes i: "ss_get_sentence_bounds t i = Some (s, e)" and j: "ss_get_sentence_bounds t j = Some (s', e')"
    and "i < j"
  shows "s < e" "e \<le> s'" "closed_text (span_text t s e)" "count_sentences (span_text t s e) = 1"
proof -
  note I = bounds_some [OF i] and J = bounds_some [OF j]
  have lt: "i < int (count_sentences t)"
    using J(4) assms(3) by linarith
  note T = bounds_terminated [OF i lt]
  show "s < e"
    by (rule T)
  show 1: "count_sentences (span_text t s e) = 1"
    using count_span [OF I(2), of t] T(3) I(5) by linarith
  have mono: "count_sentences (take a t) \<le> count_sentences (take b t)" if "a \<le> b" for a b
    using count_span [OF that, of t] by linarith
  show "e \<le> s'"
  proof (rule ccontr)
    assume "\<not> e \<le> s'"
    then have le: "s' \<le> e - 1"
      by simp
    have eq: "take e t = take (e - 1) t @ [last (take e t)]"
      using T(1) I(3) by (metis append_butlast_last_id butlast_take length_take less_nat_zero_code
          list.size(3) min.absorb2)
    have "count_sentences (take e t) = count_sentences (take (e - 1) t) + 1"
      using T(2) by (subst eq) simp
    then show False
      using mono [OF le] T(3) J(5) assms(3) by linarith
  qed
  have "span_text t s e \<noteq> []"
    using 1 by auto
  then show "closed_text (span_text t s e)"
    using T(2) span_text_prefix [OF I(2), of t] by (metis closed_text_def last_appendR)
qed

lemma bounds_splice_before:
  assumes i: "ss_get_sentence_bounds t i = Some (s, e)" and "j < i"
  shows "ss_get_sentence_bounds (splice_text t s e w) j = ss_get_sentence_bounds t j"
proof -
  have "j < int (count_sentences (take s t))"
    using bounds_some [OF i] assms(2) by simp
  note pre = bounds_prefix [OF this]
  show ?thesis
    using pre [of "w @ drop e t"] pre [of "drop s t"] by (simp add: splice_text_def)
qed

lemma bounds_splice_after:
  assumes i: "ss_get_sentence_bounds t i = Some (s, e)" and j: "ss_get_sentence_bounds t j = Some (s', e')"
    and "i < j" "closed_text w"
  shows "ss_get_sentence_bounds (splice_text t s e w) (j + sentence_delta t s e w) =
    Some (s' - e + (s + length w), e' - e + (s + length w))"
proof -
  note I = bounds_some [OF i] and O = bounds_order [OF i j assms(3)] and J = bounds_some [OF j]
  let ?r = "drop e t" and ?p = "take s t @ w"
  have lt: "i < int (count_sentences t)"
    using J(4) assms(3) by linarith
  note T = bounds_terminated [OF i lt]
  have len: "length (take e t) = e" "length ?p = s + length w"
    using I by simp_all
  have ne: "take e t \<noteq> []"
    using O(1) I(3) by auto
  have delta: "sentence_delta t s e w = int (count_sentences w) - 1"
    using O assms(4) by (intro delta_closed)
  let ?k = "length (takeWhile is_space ?r)"
  have old: "bounds_loop (dropWhile is_space ?r) (e + ?k) (e + ?k) (i + 1) j = Some (s', e')"
    using bounds_skip [OF ne T(2), of j ?r] T(3) assms(3) j len by (simp add: Let_def)
  have new: "ss_get_sentence_bounds (splice_text t s e w) (j + sentence_delta t s e w) =
      bounds_loop (dropWhile is_space ?r) (s + length w + ?k) (s + length w + ?k)
        (i + 1 + sentence_delta t s e w) (j + sentence_delta t s e w)"
    using bounds_skip [of ?p "j + sentence_delta t s e w" ?r] assms(3,4) I(5) len
    by (simp add: splice_text_def closed_text_def Let_def delta add_ac)
  let ?d = "sentence_delta t s e w"
  have "map_option (\<lambda>(a, b). (a + e, b + e)) (bounds_loop (dropWhile is_space ?r) ?k ?k (i + 1) j) = Some (s', e')"
    using old bounds_loop_shift [of "dropWhile is_space ?r" ?k e ?k "i + 1" 0 j] by (simp add: add.commute)
  then obtain a b where ab: "bounds_loop (dropWhile is_space ?r) ?k ?k (i + 1) j = Some (a, b)"
      "s' = a + e" "e' = b + e"
    by auto
  then show ?thesis
    using new bounds_loop_shift [of "dropWhile is_space ?r" ?k "s + length w" ?k "i + 1" ?d j]
    by (simp add: add.commute)
qed

lemma span_splice_before:
  assumes "e' \<le> s" "s \<le> length t"
  shows "span_text (splice_text t s e w) s' e' = span_text t s' e'"
proof -
  have "take e' (take s t @ w @ drop e t) = take e' t"
    using assms by (simp add: min_def)
  then show ?thesis
    unfolding span_text_def splice_text_def drop_take [symmetric] by (rule arg_cong)
qed

lemma span_splice_after:
  assumes "e \<le> s'" "s' \<le> e'" "s \<le> e" "e \<le> length t"
  shows "span_text (splice_text t s e w) (s' - e + (s + length w)) (e' - e + (s + length w)) =
    span_text t s' e'"
proof -
  have "drop (s' - e + (s + length w)) (splice_text t s e w) = drop s' t"
    using assms by (simp add: splice_text_def)
  then show ?thesis
    using assms by (simp add: span_text_def)
qed

section \<open>Interface for the write sessions\<close>

text \<open>How the locked spans of a text move when one of them is replaced.  A
  lock is its sentence index and its span; \<open>moved\<close> is the adjustment of
  \<open>ss_update_active_sessions\<close> for a replacement of length \<open>n\<close> of the span
  \<open>s..<e\<close> that adds \<open>d\<close> sentences, its index clamped at 0 as in the code.\<close>

definition moved :: "nat \<Rightarrow> nat \<Rightarrow> nat \<Rightarrow> int \<Rightarrow> int \<times> nat \<times> nat \<Rightarrow> int \<times> nat \<times> nat" where
  "moved s old_len n d = (\<lambda>(j, s', e').
     if s' \<ge> s + old_len then
       (if d \<noteq> 0 then (if j + d < 0 then 0 else j + d) else j,
        nat (int s' + (int n - int old_len)), nat (int e' + (int n - int old_len)))
     else (j, s', e'))"

locale sentence_text =
  fixes bounds :: "cstring \<Rightarrow> int \<Rightarrow> (nat \<times> nat) option"
    and closed :: "cstring \<Rightarrow> bool"
    and delta :: "cstring \<Rightarrow> nat \<Rightarrow> nat \<Rightarrow> cstring \<Rightarrow> int"
  assumes range: "bounds t i = Some (s, e) \<Longrightarrow> 0 \<le> i \<and> s \<le> e \<and> e \<le> length t"
    and ordered: "bounds t i = Some (s, e) \<Longrightarrow> bounds t j = Some (s', e') \<Longrightarrow> i < j \<Longrightarrow>
      s < e \<and> e \<le> s' \<and> closed (span_text t s e)"
    and before: "bounds t i = Some (s, e) \<Longrightarrow> j < i \<Longrightarrow> bounds (splice_text t s e w) j = bounds t j"
    and after: "bounds t i = Some (s, e) \<Longrightarrow> bounds t j = Some (s', e') \<Longrightarrow> i < j \<Longrightarrow> closed w \<Longrightarrow>
      0 \<le> delta t s e w \<and>
      bounds (splice_text t s e w) (j + delta t s e w) =
        Some (s' - e + (s + length w), e' - e + (s + length w))"
begin

definition valid :: "cstring \<Rightarrow> int \<times> nat \<times> nat \<Rightarrow> bool" where
  "valid t l \<longleftrightarrow> (case l of (j, se) \<Rightarrow> bounds t j = Some se)"

lemma moved_before:
  assumes "valid t (i, s, e)" "valid t (j, s', e')" "j < i"
  shows "moved s (e - s) n d (j, s', e') = (j, s', e')"
  using assms ordered [of t j s' e' i s e] range [of t i s e] by (auto simp: valid_def moved_def)

lemma moved_after:
  assumes "valid t (i, s, e)" "valid t (j, s', e')" "i < j" "closed w"
  shows "moved s (e - s) (length w) (delta t s e w) (j, s', e') =
    (j + delta t s e w, s' - e + (s + length w), e' - e + (s + length w))"
proof -
  have *: "0 \<le> i" "s \<le> e" "e \<le> s'" "s' \<le> e'" "0 \<le> delta t s e w"
    using assms range [of t i s e] range [of t j s' e'] ordered [of t i s e j s' e'] after [of t i s e j s' e' w]
    by (auto simp: valid_def)
  then show ?thesis
    using assms(3) by (auto simp: moved_def)
qed

text \<open>The replacement is closed, or nothing is locked behind the replaced span.\<close>

lemma moved_valid:
  assumes "valid t (i, s, e)" "valid t l" "fst l \<noteq> i" "closed (span_text t s e) \<longrightarrow> closed w"
  shows "valid (splice_text t s e w) (moved s (e - s) (length w) (delta t s e w) l)"
proof -
  obtain j s' e' where l: "l = (j, s', e')"
    by (cases l)
  show ?thesis
  proof (cases "j < i")
    case True
    then show ?thesis
      using assms l moved_before [of t i s e j s' e'] before [of t i s e j w] by (simp add: valid_def)
  next
    case False
    then have "i < j"
      using assms(3) l by simp
    then show ?thesis
      using assms l moved_after [of t i s e j s' e' w] after [of t i s e j s' e' w]
        ordered [of t i s e j s' e'] by (simp add: valid_def)
  qed
qed

lemma moved_span:
  assumes "valid t (i, s, e)" "valid t (j, s', e')" "j \<noteq> i" "closed (span_text t s e) \<longrightarrow> closed w"
    "moved s (e - s) (length w) (delta t s e w) (j, s', e') = (j1, s1, e1)"
  shows "span_text (splice_text t s e w) s1 e1 = span_text t s' e'"
proof (cases "j < i")
  case True
  then show ?thesis
    using assms moved_before [of t i s e j s' e'] ordered [of t j s' e' i s e] range [of t i s e]
      span_splice_before [of e' s t e w s'] by (simp add: valid_def)
next
  case False
  then show ?thesis
    using assms moved_after [of t i s e j s' e' w] ordered [of t i s e j s' e'] range [of t i s e]
      range [of t j s' e'] span_splice_after [of e s' e' s t w] by (simp add: valid_def)
qed

lemma moved_index:
  assumes "valid t (i, s, e)" "valid t l" "fst l \<noteq> i" "closed (span_text t s e) \<longrightarrow> closed w"
  shows "fst (moved s (e - s) (length w) (delta t s e w) l) =
    (if fst l < i then fst l else fst l + delta t s e w)"
  using assms moved_before [of t i s e "fst l" "fst (snd l)" "snd (snd l)"]
    moved_after [of t i s e "fst l" "fst (snd l)" "snd (snd l)" w]
    ordered [of t i s e "fst l" "fst (snd l)" "snd (snd l)"]
  by (cases l) (auto simp: valid_def not_less le_less)

lemma moved_distinct:
  assumes "valid t (i, s, e)" "closed (span_text t s e) \<longrightarrow> closed w"
    "valid t l" "fst l \<noteq> i" "valid t l'" "fst l' \<noteq> i" "fst l \<noteq> fst l'"
  shows "fst (moved s (e - s) (length w) (delta t s e w) l) \<noteq>
    fst (moved s (e - s) (length w) (delta t s e w) l')"
proof -
  have nn: "0 \<le> delta t s e w" if "valid t m" "i < fst m" for m
    using that assms(1,2) after [of t i s e "fst m" "fst (snd m)" "snd (snd m)" w]
      ordered [of t i s e "fst m" "fst (snd m)" "snd (snd m)"]
    by (cases m) (simp add: valid_def)
  show ?thesis
    using moved_index [OF assms(1,3,4,2)] moved_index [OF assms(1,5,6,2)]
      nn [OF assms(3)] nn [OF assms(5)] assms(4,6,7)
    by (auto split: if_splits)
qed

end

interpretation st: sentence_text ss_get_sentence_bounds closed_text sentence_delta
proof (unfold_locales, goal_cases)
  case (1 t i s e)
  then show ?case
    using bounds_some by blast
next
  case (2 t i s e j s' e')
  then show ?case
    using bounds_order [OF 2] by simp
next
  case (3 t i s e j w)
  then show ?case
    by (rule bounds_splice_before)
next
  case (4 t i s e j s' e' w)
  then show ?case
    using bounds_splice_after [OF 4] bounds_order [OF 4(1-3)] delta_closed [of s e t w] closed_count [of w]
    by (intro conjI) auto
qed

section \<open>Lemmas: word edits\<close>

lemma strip_trailing_id: "s = [] \<or> \<not> is_space (last s) \<Longrightarrow> strip_trailing s = s"
  by (subst strip_trailing.simps) auto

lemma strip_trailing_closed: "closed_text s \<Longrightarrow> strip_trailing s = s"
  by (rule strip_trailing_id) (auto simp: closed_text_def dest: delimiter_not_space)

lemma last_unwords: "ws \<noteq> [] \<Longrightarrow> last ws \<noteq> [] \<Longrightarrow> last (unwords ws) = last (last ws)"
proof (induction ws rule: unwords.induct)
  case (3 w v ws)
  have "unwords (v # ws) \<noteq> []"
    using 3 by (cases ws) auto
  then show ?case
    using 3 by auto
qed auto

lemma unwords_ne: "ws \<noteq> [] \<Longrightarrow> last ws \<noteq> [] \<Longrightarrow> unwords ws \<noteq> []"
  by (induction ws rule: unwords.induct) auto

lemma join_words_closed:
  assumes "\<forall>w\<in>set ws. w \<noteq> []" "is_sentence_delimiter d"
  shows "closed_text (join_words ws (Some d))"
  using assms last_unwords [of ws] unwords_ne [of ws]
  by (auto simp: join_words_eq closed_text_def ends_with_delimiter_def)

text \<open>Functional specification of an edit: the words of the sentence without its
  terminator, the new words inserted at the clamped position, joined by single
  spaces, the terminator put back unless the last word brings one.\<close>

definition insert_words :: "nat \<Rightarrow> cstring list \<Rightarrow> cstring list \<Rightarrow> cstring list" where
  "insert_words k new ws = take k ws @ new @ drop k ws"

lemma insert_words_nonempty:
  "\<forall>w\<in>set ws. w \<noteq> [] \<Longrightarrow> \<forall>w\<in>set new. w \<noteq> [] \<Longrightarrow> \<forall>w\<in>set (insert_words k new ws). w \<noteq> []"
  by (auto simp: insert_words_def dest: in_set_takeD in_set_dropD)

lemma word_list_nonempty: "\<forall>w\<in>set (word_list s). w \<noteq> []"
  using word_list_words is_word_def by blast

lemma apply_word_edit_eq:
  assumes "0 \<le> k" "b = strip_trailing t"
    "d = (if b \<noteq> [] \<and> is_sentence_delimiter (last b) then Some (last b) else None)"
    "ws = word_list (if d = None then b else butlast b)"
  shows "apply_word_edit t k c = (if k > int (length ws) + 1 then None
     else Some (join_words (insert_words (nat k) (word_list c) ws) d))"
  using assms
  by (auto simp: apply_word_edit_def split_words_eq insert_words_def Let_def)

lemma apply_word_edit_closed:
  assumes "closed_text t" "apply_word_edit t k c = Some t'"
  shows "closed_text t'"
proof -
  have k: "0 \<le> k"
    using assms(2) by (auto simp: apply_word_edit_def split: if_splits)
  have "t' = join_words (insert_words (nat k) (word_list c) (word_list (butlast t))) (Some (last t))"
    using assms apply_word_edit_eq [OF k refl refl refl, of t c]
    by (auto simp: strip_trailing_closed closed_text_def split: if_splits)
  then show ?thesis
    using assms(1) insert_words_nonempty [OF word_list_nonempty word_list_nonempty]
    by (simp only:) (rule join_words_closed, auto simp: closed_text_def)
qed

end
