(* ===== verification/Access_Contract.thy ===== *)
theory Access_Contract
  imports CStrings "HOL-Library.Multiset"
begin

text \<open>
  The contract of an access list, as the locale \<open>access_list\<close>: what membership is after an
  addition and a removal, and how much room is left.  Storage servers and the name server
  keep such lists in arrays of a fixed size; each interprets the locale on its own
  functions.

  The client lemmas are about scripts of grants and revocations: while there is
  room, the list behaves as a set (\<open>mem_run\<close>), and taking back a grant that was new restores
  the members (\<open>rollback\<close>).

  Removal from an array by moving the last entry into the hole is \<open>swap_remove\<close>; its
  lemmas also serve the file table of the name server.  \<open>array_access_list\<close> proves the
  contract once for arrays of names, which is what both servers use.
\<close>

section \<open>Removal by moving the last entry\<close>

definition swap_remove :: "nat \<Rightarrow> 'a list \<Rightarrow> 'a list" where
  "swap_remove i xs = butlast (if i \<noteq> length xs - 1 then xs[i := xs ! (length xs - 1)] else xs)"

lemma mset_swap_remove:
  assumes "i < length xs"
  shows "mset (swap_remove i xs) = mset xs - {#xs ! i#}"
proof (cases "i = length xs - 1")
  case True
  then obtain ys y where "xs = ys @ [y]"
    using assms by (cases xs rule: rev_cases) auto
  then show ?thesis
    using True by (simp add: swap_remove_def)
next
  case False
  then obtain as x bs l where xs: "xs = as @ x # bs @ [l]" and i: "i = length as"
    using assms id_take_nth_drop [OF assms] by (cases "drop (Suc i) xs" rule: rev_cases) auto
  then show ?thesis
    using False by (simp add: swap_remove_def list_update_append nth_append butlast_append)
qed

lemma length_swap_remove [simp]: "length (swap_remove i xs) = length xs - 1"
  by (simp add: swap_remove_def)

lemma nth_swap_remove:
  "k < length xs - 1 \<Longrightarrow> swap_remove i xs ! k = (if k = i then last xs else xs ! k)"
  by (cases "xs = []") (auto simp: swap_remove_def nth_butlast nth_list_update last_conv_nth)

lemma map_swap_remove: "i < length xs \<Longrightarrow> map g (swap_remove i xs) = swap_remove i (map g xs)"
  by (simp add: swap_remove_def map_butlast map_update)

lemma swap_remove_set:
  assumes "i < length xs" "distinct xs"
  shows "set (swap_remove i xs) = set xs - {xs ! i}" "distinct (swap_remove i xs)"
proof -
  have m: "mset (swap_remove i xs) = mset (remove1 (xs ! i) xs)"
    by (simp add: mset_swap_remove [OF assms(1)])
  then show "set (swap_remove i xs) = set xs - {xs ! i}"
    using assms(2) mset_eq_setD [OF m] by simp
  show "distinct (swap_remove i xs)"
    using mset_eq_imp_distinct_iff [OF m] assms(2) by (simp add: distinct_remove1)
qed

section \<open>The contract\<close>

datatype acl_op = Grant cstring | Revoke cstring

primrec acl_subject :: "acl_op \<Rightarrow> cstring" where
  "acl_subject (Grant u) = u"
| "acl_subject (Revoke u) = u"

primrec is_grant :: "acl_op \<Rightarrow> bool" where
  "is_grant (Grant u) = True"
| "is_grant (Revoke u) = False"

primrec acl_set_op :: "acl_op \<Rightarrow> cstring set \<Rightarrow> cstring set" where
  "acl_set_op (Grant u) S = insert u S"
| "acl_set_op (Revoke u) S = S - {u}"

definition run_acl ::
  "('l \<Rightarrow> cstring \<Rightarrow> 'l \<times> int) \<Rightarrow> ('l \<Rightarrow> cstring \<Rightarrow> 'l \<times> int) \<Rightarrow> acl_op list \<Rightarrow> 'l \<Rightarrow> 'l" where
  "run_acl add remove ops l =
     fold (\<lambda>op l. case op of Grant u \<Rightarrow> fst (add l u) | Revoke u \<Rightarrow> fst (remove l u)) ops l"

locale access_list =
  fixes wf :: "'l \<Rightarrow> bool" and valid :: "cstring \<Rightarrow> bool" and mem :: "'l \<Rightarrow> cstring \<Rightarrow> bool"
    and room :: "'l \<Rightarrow> nat" and add :: "'l \<Rightarrow> cstring \<Rightarrow> 'l \<times> int" and remove :: "'l \<Rightarrow> cstring \<Rightarrow> 'l \<times> int"
  assumes wf_add: "wf l \<Longrightarrow> valid u \<Longrightarrow> wf (fst (add l u))"
    and mem_add: "wf l \<Longrightarrow> valid u \<Longrightarrow> valid v \<Longrightarrow> mem (fst (add l u)) v \<longleftrightarrow> mem l v \<or> (v = u \<and> 0 < room l)"
    and room_add: "wf l \<Longrightarrow> valid u \<Longrightarrow> room (fst (add l u)) = (if mem l u then room l else room l - 1)"
    and add_fails: "wf l \<Longrightarrow> valid u \<Longrightarrow> snd (add l u) < 0 \<longleftrightarrow> \<not> mem l u \<and> room l = 0"
    and wf_remove: "wf l \<Longrightarrow> valid u \<Longrightarrow> wf (fst (remove l u))"
    and mem_remove: "wf l \<Longrightarrow> valid u \<Longrightarrow> valid v \<Longrightarrow> mem (fst (remove l u)) v \<longleftrightarrow> mem l v \<and> v \<noteq> u"
    and room_remove: "wf l \<Longrightarrow> valid u \<Longrightarrow> room (fst (remove l u)) = (if mem l u then Suc (room l) else room l)"
    and remove_code: "wf l \<Longrightarrow> valid u \<Longrightarrow> snd (remove l u) = (if mem l u then 1 else 0)"
begin

lemma rollback:
  assumes "wf l" "valid u" "valid v" "\<not> mem l u"
  shows "mem (fst (remove (fst (add l u)) u)) v \<longleftrightarrow> mem l v"
  using assms wf_add mem_add mem_remove by metis

lemma wf_run:
  assumes "wf l" "\<forall>op\<in>set ops. valid (acl_subject op)"
  shows "wf (run_acl add remove ops l)"
  using assms
proof (induction ops arbitrary: l)
  case (Cons op ops)
  then show ?case
    using wf_add wf_remove by (cases op) (simp_all add: run_acl_def)
qed (simp add: run_acl_def)

lemma mem_run:
  assumes "wf l" "\<forall>op\<in>set ops. valid (acl_subject op)" "length (filter is_grant ops) \<le> room l" "valid v"
  shows "mem (run_acl add remove ops l) v \<longleftrightarrow> v \<in> fold acl_set_op ops {u. valid u \<and> mem l u}"
  using assms(1-3)
proof (induction ops arbitrary: l)
  case Nil
  then show ?case
    using assms(4) by (simp add: run_acl_def)
next
  case (Cons op ops)
  let ?l = "case op of Grant u \<Rightarrow> fst (add l u) | Revoke u \<Rightarrow> fst (remove l u)"
  have step: "run_acl add remove (op # ops) l = run_acl add remove ops ?l"
    by (simp add: run_acl_def)
  have v: "valid (acl_subject op)"
    using Cons.prems by simp
  have wf: "wf ?l"
    using Cons.prems v wf_add wf_remove by (cases op) simp_all
  have room: "length (filter is_grant ops) \<le> room ?l"
    using Cons.prems v by (cases op) (auto simp: room_add room_remove)
  have set: "{u. valid u \<and> mem ?l u} = acl_set_op op {u. valid u \<and> mem l u}"
    using Cons.prems v by (cases op) (auto simp: mem_add mem_remove)
  show ?case
    using Cons.IH [OF wf _ room] Cons.prems(2) set unfolding step by simp
qed

end

section \<open>Arrays of names\<close>

text \<open>The functions of both servers over an array of names of size \<open>sz\<close> with at most \<open>n\<close>
  entries meet the contract.  \<open>acl_index\<close> is the index at which their loops stop.\<close>

fun acl_index :: "nat \<Rightarrow> cstring list \<Rightarrow> cstring \<Rightarrow> nat option" where
  "acl_index sz [] user = None"
| "acl_index sz (e # es) user = (if strncmp_eq sz e user then Some 0 else map_option Suc (acl_index sz es user))"

lemma acl_index_Some: "acl_index sz es user = Some i \<Longrightarrow> i < length es \<and> strncmp_eq sz (es ! i) user"
  by (induction es arbitrary: i) (auto split: if_splits)

lemma acl_index_None: "acl_index sz es user = None \<longleftrightarrow> \<not> list_ex (\<lambda>e. strncmp_eq sz e user) es"
  by (induction es) auto

definition names_wf :: "nat \<Rightarrow> nat \<Rightarrow> cstring list \<Rightarrow> bool" where
  "names_wf sz n es \<longleftrightarrow> distinct es \<and> length es \<le> n \<and> list_all (\<lambda>e. length e < sz) es"

lemma names_contains:
  "names_wf sz n es \<Longrightarrow> length u < sz \<Longrightarrow> list_ex (\<lambda>e. strncmp_eq sz e u) es \<longleftrightarrow> u \<in> set es"
  by (force simp: names_wf_def list_all_iff list_ex_iff strncmp_eq_iff)

lemma names_wf_swap_remove: "names_wf sz n es \<Longrightarrow> i < length es \<Longrightarrow> names_wf sz n (swap_remove i es)"
  by (auto simp: names_wf_def swap_remove_set list_all_iff)

lemma array_access_list:
  fixes ok_code :: int
  assumes contains: "\<And>l u. contains l u = list_ex (\<lambda>e. strncmp_eq sz e u) l"
    and add: "\<And>l u. add l u = (if contains l u then (l, 0) else if n \<le> length l then (l, -1)
      else (l @ [bounded_copy sz u], ok_code))"
    and "0 \<le> ok_code"
    and remove: "\<And>l u. remove l u = (case acl_index sz l u of None \<Rightarrow> (l, 0) | Some i \<Rightarrow> (swap_remove i l, 1))"
  shows "access_list (names_wf sz n) (\<lambda>u. length u < sz) contains (\<lambda>l. n - length l) add remove"
proof
  fix l :: "cstring list" and u v :: cstring
  assume wf: "names_wf sz n l" and u: "length u < sz"
  have mem: "contains l' w \<longleftrightarrow> w \<in> set l'" if "names_wf sz n l'" "length w < sz" for l' w
    using names_contains [OF that] by (simp add: contains)
  have add': "add l u = (if u \<in> set l then (l, 0) else if n \<le> length l then (l, -1) else (l @ [u], ok_code))"
    using wf u by (simp add: add mem bounded_copy_id)
  obtain i where rem: "remove l u = (if u \<in> set l then (swap_remove i l, 1) else (l, 0))"
    and i: "u \<in> set l \<longrightarrow> i < length l \<and> l ! i = u"
  proof (cases "acl_index sz l u")
    case None
    then have "u \<notin> set l"
      using acl_index_None names_contains [OF wf u] by blast
    then show ?thesis
      using that None by (simp add: remove)
  next
    case (Some i)
    then have i: "i < length l" "strncmp_eq sz (l ! i) u"
      using acl_index_Some by blast+
    then have "l ! i = u"
      using wf u by (simp add: names_wf_def list_all_length strncmp_eq_iff)
    then show ?thesis
      using that [of i] Some i nth_mem [OF i(1)] by (auto simp: remove)
  qed
  show wfa: "names_wf sz n (fst (add l u))"
    using add' wf u by (auto simp: names_wf_def)
  show "n - length (fst (add l u)) = (if contains l u then n - length l else n - length l - 1)"
    using add' mem [OF wf u] by auto
  show "snd (add l u) < 0 \<longleftrightarrow> \<not> contains l u \<and> n - length l = 0"
    using add' mem [OF wf u] assms(3) by auto
  show wfr: "names_wf sz n (fst (remove l u))"
    using rem i wf by (auto simp: names_wf_swap_remove)
  show "n - length (fst (remove l u)) = (if contains l u then Suc (n - length l) else n - length l)"
    using rem i mem [OF wf u] wf by (cases l) (auto simp: names_wf_def)
  show "snd (remove l u) = (if contains l u then 1 else 0)"
    using rem mem [OF wf u] by simp
  assume v: "length v < sz"
  show "contains (fst (add l u)) v \<longleftrightarrow> contains l v \<or> (v = u \<and> 0 < n - length l)"
    unfolding mem [OF wfa v] mem [OF wf v] using add' wf by (auto simp: names_wf_def)
  show "contains (fst (remove l u)) v \<longleftrightarrow> contains l v \<and> v \<noteq> u"
    unfolding mem [OF wfr v] mem [OF wf v] using rem i wf by (auto simp: swap_remove_set names_wf_def)
qed

end
