(* ===== verification/Text_Files.thy ===== *)
theory Text_Files
  imports Utils
begin

text \<open>
  Reading and writing text files line by line, as both servers do for their metadata:
  \<open>fgets\<close> with a buffer, \<open>strtok\<close> at commas, and what is read back of lines that fit.
\<close>

section \<open>Reading\<close>

text \<open>\<open>fgets\<close> with a buffer of \<open>n\<close> bytes: at most \<open>n - 1\<close> characters, ending after a newline.\<close>

function fgets_lines :: "nat \<Rightarrow> cstring \<Rightarrow> cstring list" where
  "fgets_lines n s = (if s = [] \<or> n < 2 then []
     else let k = min (n - 1) (Suc (length (takeWhile (\<lambda>c. c \<noteq> newline) s))) in
       take k s # fgets_lines n (drop k s))"
  by pat_completeness auto
termination
  by (relation "measure (\<lambda>(n, s). length s)") auto

declare fgets_lines.simps [simp del]

text \<open>\<open>strtok (s, ",")\<close>: the non-empty pieces between commas.\<close>

definition strtok_commas :: "cstring \<Rightarrow> cstring list" where
  "strtok_commas s = filter (\<lambda>f. f \<noteq> []) (split_on (CHR '','') s)"

definition atoll :: "cstring \<Rightarrow> int" where
  "atoll s = fst (strtol64 s)"

definition join_commas :: "cstring list \<Rightarrow> cstring" where
  "join_commas us = join_with (CHR '','') us"

section \<open>Lines that are read back\<close>

definition file_line :: "nat \<Rightarrow> cstring \<Rightarrow> bool" where
  "file_line n l \<longleftrightarrow> l \<noteq> [] \<and> \<not> is_space (hd l) \<and> \<not> is_space (last l) \<and> newline \<notin> set l \<and> length l + 2 \<le> n"

lemma fgets_lines_concat:
  assumes "\<forall>l\<in>set ls. newline \<notin> set l \<and> length l + 2 \<le> n"
  shows "fgets_lines n (concat (map (\<lambda>l. l @ [newline]) ls)) = map (\<lambda>l. l @ [newline]) ls"
  using assms
proof (induction ls)
  case (Cons l ls)
  let ?r = "concat (map (\<lambda>l. l @ [newline]) ls)"
  have "takeWhile (\<lambda>c. c \<noteq> newline) (l @ newline # ?r) = l"
    using Cons.prems by (subst takeWhile_append2) auto
  then have "min (n - 1) (Suc (length (takeWhile (\<lambda>c. c \<noteq> newline) (l @ newline # ?r)))) = length (l @ [newline])"
    using Cons.prems by (simp add: min_def) linarith
  moreover have "take (length (l @ [newline])) (l @ newline # ?r) = l @ [newline]"
    and "drop (length (l @ [newline])) (l @ newline # ?r) = ?r"
    by simp_all
  ultimately show ?case
    using Cons by (subst fgets_lines.simps) (simp add: Let_def)
qed (simp add: fgets_lines.simps)

lemma trim_line:
  assumes "file_line n l"
  shows "trim_string (l @ [newline]) = l"
proof -
  have "dropWhile is_space (l @ [newline]) = l @ [newline]"
    using assms by (cases l) (simp_all add: file_line_def)
  moreover have "dropWhile is_space (rev l) = rev l"
    using assms by (cases l rule: rev_cases) (simp_all add: file_line_def)
  ultimately show ?thesis
    by (simp add: trim_string_ref)
qed

section \<open>Names between separators\<close>

definition plain_name :: "char \<Rightarrow> nat \<Rightarrow> cstring \<Rightarrow> bool" where
  "plain_name sep n s \<longleftrightarrow> s \<noteq> [] \<and> sep \<notin> set s \<and> newline \<notin> set s \<and> length s < n \<and> \<not> is_space (hd s) \<and> \<not> is_space (last s)"

lemma plain_name_trim: "plain_name sep n s \<Longrightarrow> trim_string s = s"
  by (simp add: plain_name_def trim_string_id)

lemma strtok_join:
  assumes "\<forall>u\<in>set us. plain_name (CHR '','') n u"
  shows "strtok_commas (join_commas us) = us"
proof (cases "us = []")
  case True
  then show ?thesis
    by (simp add: strtok_commas_def join_commas_def)
next
  case False
  have "\<forall>u\<in>set us. u \<noteq> []"
    using assms by (simp add: plain_name_def)
  then show ?thesis
    using assms False split_on_join [OF False, of "CHR '',''"]
    by (simp add: strtok_commas_def join_commas_def plain_name_def)
qed

lemma atoll_show_int: "LONG_MIN_I \<le> i \<Longrightarrow> i \<le> LONG_MAX_I \<Longrightarrow> atoll (show_int i) = i"
  using strtol64_show_int [of i "[]"] by (simp add: atoll_def)

end
