(* ===== verification/Storage_Records.thy ===== *)
theory Storage_Records
  imports Disk Protocol Sentences Access_Contract Text_Files
begin

text \<open>
  The data of a storage server (\<open>storage_server.h\<close>) and the operations on its
  file records: paths, the \<open>.meta\<close> sidecar, the list of records, access lists,
  creation, deletion and renaming (\<open>storage_server.c\<close>).

  The linked list \<open>ss->files\<close> is a list, its head first.  A \<open>FileRecord *\<close> is the
  address of the record, drawn from a counter at allocation and never reused, so
  that the pointer comparisons of the write sessions are comparisons of addresses.
  An array with its count is a list.  The clock is the parameter \<open>now\<close>.

  The locale \<open>access_list\<close> (theory \<open>Access_Contract\<close>) is interpreted on the access lists.
\<close>

section \<open>Data\<close>

definition SS_STORAGE_PATH :: cstring where "SS_STORAGE_PATH = ''./ss_storage/''"
definition SS_META_SUFFIX :: cstring where "SS_META_SUFFIX = ''.meta''"
definition SS_UNDO_SUFFIX :: cstring where "SS_UNDO_SUFFIX = ''.undo''"
definition SS_MAX_USERS_PER_FILE :: nat where "SS_MAX_USERS_PER_FILE = 128"
definition SS_MAX_CHECKPOINTS :: nat where "SS_MAX_CHECKPOINTS = 32"

record checkpoint_record =
  ck_tag :: cstring
  ck_path :: cstring

record file_record =
  rec_addr :: nat
  filename :: cstring
  physical_name :: cstring
  filepath :: cstring
  metapath :: cstring
  undopath :: cstring
  owner :: cstring
  read_users :: "cstring list"
  write_users :: "cstring list"
  created :: int
  modified :: int
  last_access :: int
  last_access_user :: cstring
  undo_available :: int
  checkpoints :: "checkpoint_record list"
  migrating :: bool

record write_session =
  sess_addr :: nat
  client_fd :: int
  sess_file :: nat
  username :: cstring
  sentence_index :: int
  sentence_start :: nat
  sentence_end :: nat
  file_snapshot :: cstring
  sentence_working :: cstring

record storage_server =
  ns_ip :: cstring
  ns_port :: int
  client_ip :: cstring
  client_port :: int
  ns_sockfd :: int
  client_listen_fd :: int
  storage_path :: cstring
  ss_files :: "file_record list"
  sessions :: "write_session list"
  running :: bool
  next_addr :: nat
  ss_disk :: disk

section \<open>Paths and checkpoints of a record\<close>

definition sanitize_ip_char :: "char \<Rightarrow> char" where
  "sanitize_ip_char ch = (if is_alnum ch \<or> ch = CHR ''_'' then ch else CHR ''_'')"

definition ss_build_storage_path :: "nat \<Rightarrow> cstring \<Rightarrow> int \<Rightarrow> cstring option" where
  "ss_build_storage_path sz ip port0 =
     (if sz = 0 then None else
      let ip_source = (if ip \<noteq> [] then ip else ''local'');
          sanitized_ip = map sanitize_ip_char (bounded_copy MAX_IP_LENGTH ip_source);
          sanitized_ip = (if sanitized_ip = [] then ''local'' else sanitized_ip);
          port = (if port0 < 0 then 0 else port0);
          path = SS_STORAGE_PATH @ ''server_'' @ sanitized_ip @ ''_'' @ show_int port @ ''/'' in
      if length path \<ge> sz then None else Some path)"

definition ss_find_checkpoint :: "file_record \<Rightarrow> cstring \<Rightarrow> checkpoint_record option" where
  "ss_find_checkpoint r tag = (if tag = [] then None
     else find (\<lambda>c. strncmp_eq MAX_FILENAME_LENGTH (ck_tag c) tag) (checkpoints r))"

definition ss_prune_oldest_checkpoint :: "file_record \<Rightarrow> disk \<Rightarrow> file_record \<times> disk" where
  "ss_prune_oldest_checkpoint r d = (case checkpoints r of
       [] \<Rightarrow> (r, d)
     | oldest # rest \<Rightarrow>
         (r\<lparr>checkpoints := rest\<rparr>,
          if ck_path oldest \<noteq> [] then fst (disk_unlink d (ck_path oldest)) else d))"

definition path_or_empty :: "cstring option \<Rightarrow> cstring" where
  "path_or_empty p = (case p of Some q \<Rightarrow> q | None \<Rightarrow> [])"

definition ss_set_record_paths :: "cstring \<Rightarrow> file_record \<Rightarrow> cstring \<Rightarrow> file_record" where
  "ss_set_record_paths spath r logical_name =
     (let phys = (case flatten_logical_path MAX_FILENAME_LENGTH logical_name of
                    Some p \<Rightarrow> p
                  | None \<Rightarrow> bounded_copy MAX_FILENAME_LENGTH logical_name);
          meta_name = bounded_copy (MAX_FILENAME_LENGTH + 8) (phys @ SS_META_SUFFIX);
          undo_name = bounded_copy (MAX_FILENAME_LENGTH + 8) (phys @ SS_UNDO_SUFFIX) in
      r\<lparr>filename := bounded_copy MAX_FILENAME_LENGTH logical_name,
        physical_name := phys,
        filepath := path_or_empty (build_path MAX_PATH_LENGTH spath phys),
        metapath := path_or_empty (build_path MAX_PATH_LENGTH spath meta_name),
        undopath := path_or_empty (build_path MAX_PATH_LENGTH spath undo_name)\<rparr>)"

definition empty_record :: "nat \<Rightarrow> file_record" where
  "empty_record a = \<lparr>rec_addr = a, filename = [], physical_name = [], filepath = [], metapath = [],
     undopath = [], owner = [], read_users = [], write_users = [], created = 0, modified = 0,
     last_access = 0, last_access_user = [], undo_available = 0, checkpoints = [], migrating = False\<rparr>"

definition ss_init_file_record :: "cstring \<Rightarrow> nat \<Rightarrow> cstring \<Rightarrow> file_record" where
  "ss_init_file_record spath a fname = ss_set_record_paths spath (empty_record a) fname"

section \<open>The metadata sidecar\<close>

text \<open>The loop over the pieces between commas trims each and stops at the limit.\<close>

fun load_users :: "cstring list \<Rightarrow> cstring list \<Rightarrow> cstring list" where
  "load_users users [] = users"
| "load_users users (token # tokens) =
     (if length users < SS_MAX_USERS_PER_FILE then
        let token = trim_string token in
        load_users (if token \<noteq> [] then users @ [bounded_copy MAX_USERNAME_LENGTH token] else users) tokens
      else users)"

definition load_checkpoint :: "file_record \<Rightarrow> cstring \<Rightarrow> file_record" where
  "load_checkpoint r text =
     (if length (checkpoints r) < SS_MAX_CHECKPOINTS then
        case strchr_tail (CHR '':'') text of
          None \<Rightarrow> r
        | Some colon \<Rightarrow> r\<lparr>checkpoints := checkpoints r @
            [\<lparr>ck_tag = bounded_copy MAX_FILENAME_LENGTH
                (trim_string (takeWhile (\<lambda>c. c \<noteq> CHR '':'') text)),
              ck_path = bounded_copy MAX_PATH_LENGTH (trim_string (tl colon))\<rparr>]\<rparr>
      else r)"

definition load_meta_line :: "file_record \<times> cstring \<Rightarrow> cstring \<Rightarrow> file_record \<times> cstring" where
  "load_meta_line = (\<lambda>(r, logical_override) raw.
     let line = trim_string raw in
     if strncmp_eq 8 line ''LOGICAL='' then (r, bounded_copy MAX_FILENAME_LENGTH (drop 8 line))
     else if strncmp_eq 6 line ''OWNER='' then
       (r\<lparr>owner := bounded_copy MAX_USERNAME_LENGTH (drop 6 line)\<rparr>, logical_override)
     else if strncmp_eq 5 line ''READ='' then
       (r\<lparr>read_users := load_users [] (strtok_commas (drop 5 line))\<rparr>, logical_override)
     else if strncmp_eq 6 line ''WRITE='' then
       (r\<lparr>write_users := load_users [] (strtok_commas (drop 6 line))\<rparr>, logical_override)
     else if strncmp_eq 8 line ''CREATED='' then
       (r\<lparr>created := atoll (drop 8 line)\<rparr>, logical_override)
     else if strncmp_eq 9 line ''MODIFIED='' then
       (r\<lparr>modified := atoll (drop 9 line)\<rparr>, logical_override)
     else if strncmp_eq 12 line ''LAST_ACCESS='' then
       (r\<lparr>last_access := atoll (drop 12 line)\<rparr>, logical_override)
     else if strncmp_eq 10 line ''LAST_USER='' then
       (r\<lparr>last_access_user := bounded_copy MAX_USERNAME_LENGTH (drop 10 line)\<rparr>, logical_override)
     else if strncmp_eq 5 line ''UNDO='' then
       (r\<lparr>undo_available := atoi (drop 5 line)\<rparr>, logical_override)
     else if strncmp_eq 11 line ''CHECKPOINT='' then
       (load_checkpoint r (drop 11 line), logical_override)
     else (r, logical_override))"

definition ss_load_metadata :: "cstring \<Rightarrow> disk \<Rightarrow> file_record \<Rightarrow> file_record option" where
  "ss_load_metadata spath d r = (case fopen_read d (metapath r) of
       None \<Rightarrow> None
     | Some text \<Rightarrow>
         let r0 = r\<lparr>read_users := [], write_users := [], undo_available := 0, checkpoints := []\<rparr>;
             (r1, logical_override) = foldl load_meta_line (r0, []) (fgets_lines 1024 text) in
         Some (if logical_override \<noteq> [] then ss_set_record_paths spath r1 logical_override else r1))"

definition meta_lines :: "file_record \<Rightarrow> cstring list" where
  "meta_lines r =
     [''LOGICAL='' @ filename r, ''OWNER='' @ owner r,
      ''CREATED='' @ show_int (created r), ''MODIFIED='' @ show_int (modified r),
      ''LAST_ACCESS='' @ show_int (last_access r), ''LAST_USER='' @ last_access_user r,
      ''UNDO='' @ show_int (undo_available r),
      ''READ='' @ join_commas (read_users r), ''WRITE='' @ join_commas (write_users r)] @
     map (\<lambda>c. ''CHECKPOINT='' @ ck_tag c @ '':'' @ ck_path c) (take SS_MAX_CHECKPOINTS (checkpoints r))"

definition meta_text :: "file_record \<Rightarrow> cstring" where
  "meta_text r = concat (map (\<lambda>l. l @ [newline]) (meta_lines r))"

text \<open>The results of \<open>fprintf\<close> are not checked: only a failed \<open>fopen\<close> is reported.\<close>

definition ss_write_metadata :: "disk \<Rightarrow> file_record \<Rightarrow> disk \<times> bool" where
  "ss_write_metadata d r = (case fopen_trunc d (metapath r) of
       None \<Rightarrow> (d, False)
     | Some d1 \<Rightarrow> (fst (fwrite d1 (metapath r) (meta_text r)), True))"

section \<open>The list of records\<close>

definition ss_find_file :: "storage_server \<Rightarrow> cstring \<Rightarrow> file_record option" where
  "ss_find_file ss fname = find (\<lambda>r. strncmp_eq MAX_FILENAME_LENGTH (filename r) fname) (ss_files ss)"

text \<open>A write through a \<open>FileRecord *\<close>.\<close>

definition put_record :: "file_record \<Rightarrow> storage_server \<Rightarrow> storage_server" where
  "put_record r ss = ss\<lparr>ss_files := map (\<lambda>x. if rec_addr x = rec_addr r then r else x) (ss_files ss)\<rparr>"

definition get_record :: "storage_server \<Rightarrow> nat \<Rightarrow> file_record option" where
  "get_record ss a = find (\<lambda>x. rec_addr x = a) (ss_files ss)"

definition ss_add_file_record :: "int \<Rightarrow> storage_server \<Rightarrow> cstring \<Rightarrow> storage_server" where
  "ss_add_file_record now ss fname =
     (let r = ss_init_file_record (storage_path ss) (next_addr ss) fname in
      case ss_load_metadata (storage_path ss) (ss_disk ss) r of
        Some r1 \<Rightarrow> ss\<lparr>ss_files := r1 # ss_files ss, next_addr := next_addr ss + 1\<rparr>
      | None \<Rightarrow>
          let r1 = r\<lparr>created := now, modified := now, last_access := now, undo_available := 0,
                     read_users := [], write_users := []\<rparr> in
          ss\<lparr>ss_files := r1 # ss_files ss, next_addr := next_addr ss + 1,
             ss_disk := fst (ss_write_metadata (ss_disk ss) r1)\<rparr>)"

text \<open>The entries of the storage directory in the order \<open>readdir\<close> gives them: the name and the type the file
  system tells, which may be unknown.\<close>

datatype entry_type = DT_DIR | DT_UNKNOWN | DT_OTHER

type_synonym dir_entry = "cstring \<times> entry_type"

definition dirent_is_directory :: "disk \<Rightarrow> cstring \<Rightarrow> dir_entry \<Rightarrow> bool" where
  "dirent_is_directory d base_path = (\<lambda>(name, ty).
     if ty = DT_DIR then True
     else if ty \<noteq> DT_UNKNOWN then False
     else (case build_path MAX_PATH_LENGTH base_path name of
         None \<Rightarrow> False
       | Some full_path \<Rightarrow> full_path \<in> set (dk_dirs d)))"

definition contains_text :: "cstring \<Rightarrow> cstring \<Rightarrow> bool" where
  "contains_text s pat \<longleftrightarrow> list_ex (\<lambda>i. take (length pat) (drop i s) = pat) [0..<Suc (length s)]"

definition skip_entry :: "disk \<Rightarrow> cstring \<Rightarrow> dir_entry \<Rightarrow> bool" where
  "skip_entry d base_path entry \<longleftrightarrow> (let name = fst entry in
     name = ''.'' \<or> name = ''..'' \<or> dirent_is_directory d base_path entry \<or> name = [] \<or>
     (length name > length SS_META_SUFFIX \<and>
        drop (length name - length SS_META_SUFFIX) name = SS_META_SUFFIX) \<or>
     (length name > length SS_UNDO_SUFFIX \<and>
        drop (length name - length SS_UNDO_SUFFIX) name = SS_UNDO_SUFFIX) \<or>
     contains_text name ''.ckpt_'')"

fun load_entries :: "int \<Rightarrow> storage_server \<Rightarrow> dir_entry list \<Rightarrow> storage_server" where
  "load_entries now ss [] = ss"
| "load_entries now ss (entry # entries) =
     load_entries now (if skip_entry (ss_disk ss) (storage_path ss) entry then ss
                       else ss_add_file_record now ss (fst entry)) entries"

definition ss_load_existing_files :: "int \<Rightarrow> dir_entry list option \<Rightarrow> storage_server \<Rightarrow> storage_server" where
  "ss_load_existing_files now dir ss = (case dir of None \<Rightarrow> ss | Some entries \<Rightarrow> load_entries now ss entries)"

definition touch_record :: "int \<Rightarrow> cstring option \<Rightarrow> bool \<Rightarrow> file_record \<Rightarrow> file_record" where
  "touch_record now user update_modified r =
     (let r1 = r\<lparr>last_access := now\<rparr>;
          r2 = (case user of Some u \<Rightarrow> r1\<lparr>last_access_user := bounded_copy MAX_USERNAME_LENGTH u\<rparr> | None \<Rightarrow> r1) in
      if update_modified then r2\<lparr>modified := now\<rparr> else r2)"

definition ss_touch_file_metadata ::
  "int \<Rightarrow> storage_server \<Rightarrow> file_record \<Rightarrow> cstring option \<Rightarrow> bool \<Rightarrow> storage_server" where
  "ss_touch_file_metadata now ss r user update_modified =
     (let r1 = touch_record now user update_modified r in
      (put_record r1 ss)\<lparr>ss_disk := fst (ss_write_metadata (ss_disk ss) r1)\<rparr>)"

section \<open>Access lists\<close>

definition ss_acl_contains :: "cstring list \<Rightarrow> cstring \<Rightarrow> bool" where
  "ss_acl_contains entries user \<longleftrightarrow> list_ex (\<lambda>e. strncmp_eq MAX_USERNAME_LENGTH e user) entries"

definition ss_check_read_access :: "file_record \<Rightarrow> cstring \<Rightarrow> bool" where
  "ss_check_read_access r user \<longleftrightarrow>
     (owner r \<noteq> [] \<and> strncmp_eq MAX_USERNAME_LENGTH (owner r) user) \<or>
     ss_acl_contains (read_users r) user \<or> ss_acl_contains (write_users r) user"

definition ss_check_write_access :: "file_record \<Rightarrow> cstring \<Rightarrow> bool" where
  "ss_check_write_access r user \<longleftrightarrow>
     (owner r \<noteq> [] \<and> strncmp_eq MAX_USERNAME_LENGTH (owner r) user) \<or>
     ss_acl_contains (write_users r) user"

definition ss_acl_add :: "cstring list \<Rightarrow> cstring \<Rightarrow> cstring list \<times> int" where
  "ss_acl_add entries user =
     (if ss_acl_contains entries user then (entries, 0)
      else if length entries \<ge> SS_MAX_USERS_PER_FILE then (entries, -1)
      else case safe_strcpy MAX_USERNAME_LENGTH user of
        None \<Rightarrow> (entries, -1)
      | Some u \<Rightarrow> (entries @ [u], 1))"

definition ss_acl_remove :: "cstring list \<Rightarrow> cstring \<Rightarrow> cstring list \<times> int" where
  "ss_acl_remove entries user = (case acl_index MAX_USERNAME_LENGTH entries user of
       None \<Rightarrow> (entries, 0)
     | Some i \<Rightarrow> let last_index = length entries - 1 in
         (butlast (if i \<noteq> last_index then entries[i := entries ! last_index] else entries), 1))"

fun join_acl_loop :: "nat \<Rightarrow> cstring \<Rightarrow> cstring list \<Rightarrow> cstring option" where
  "join_acl_loop sz buffer [] = Some buffer"
| "join_acl_loop sz buffer (e # es) =
     (let e' = take MAX_USERNAME_LENGTH e in
      if e' = [] then join_acl_loop sz buffer es
      else if length buffer + length e' + (if length buffer > 0 then 1 else 0) \<ge> sz then None
      else join_acl_loop sz ((if length buffer > 0 then buffer @ '','' else buffer) @ e') es)"

definition ss_join_acl :: "nat \<Rightarrow> cstring list \<Rightarrow> cstring option" where
  "ss_join_acl sz entries = (if sz = 0 then None else join_acl_loop sz [] entries)"

definition acl_wf :: "cstring list \<Rightarrow> bool" where
  "acl_wf entries \<longleftrightarrow> distinct entries \<and> length entries \<le> SS_MAX_USERS_PER_FILE \<and>
     list_all (\<lambda>e. length e < MAX_USERNAME_LENGTH) entries"

lemma acl_wf_names: "acl_wf = names_wf MAX_USERNAME_LENGTH SS_MAX_USERS_PER_FILE"
  by (auto simp: acl_wf_def names_wf_def)

lemma acl_contains_set:
  "acl_wf es \<Longrightarrow> length user < MAX_USERNAME_LENGTH \<Longrightarrow> ss_acl_contains es user \<longleftrightarrow> user \<in> set es"
  by (simp add: acl_wf_names ss_acl_contains_def names_contains)

interpretation ss_acl: access_list acl_wf "\<lambda>u. length u < MAX_USERNAME_LENGTH" ss_acl_contains
    "\<lambda>l. SS_MAX_USERS_PER_FILE - length l" ss_acl_add ss_acl_remove
  unfolding acl_wf_names
  by (rule array_access_list [where ok_code = 1])
    (auto simp: ss_acl_contains_def ss_acl_add_def ss_acl_remove_def swap_remove_def safe_strcpy_def
      MAX_USERNAME_LENGTH_def split: option.split)

section \<open>Creation, deletion, renaming\<close>

text \<open>\<open>ss_create_file\<close>: the flag is true for 0.  The record freed on failure keeps its address used.\<close>

definition ss_create_file :: "int \<Rightarrow> storage_server \<Rightarrow> cstring \<Rightarrow> cstring \<Rightarrow> storage_server \<times> bool" where
  "ss_create_file now ss fname ownr =
     (if ss_find_file ss fname \<noteq> None then (ss, False)
      else
        let r0 = ss_init_file_record (storage_path ss) (next_addr ss) fname;
            r = r0\<lparr>owner := bounded_copy MAX_USERNAME_LENGTH ownr,
                   last_access_user := bounded_copy MAX_USERNAME_LENGTH ownr,
                   created := now, modified := now, last_access := now, undo_available := 0,
                   read_users := [], write_users := []\<rparr>;
            ss1 = ss\<lparr>next_addr := next_addr ss + 1\<rparr> in
        case fopen_trunc (ss_disk ss) (filepath r) of
          None \<Rightarrow> (ss1, False)
        | Some d1 \<Rightarrow> (ss1\<lparr>ss_files := r # ss_files ss, ss_disk := fst (ss_write_metadata d1 r)\<rparr>, True))"

definition ss_file_has_active_writers :: "storage_server \<Rightarrow> file_record \<Rightarrow> bool" where
  "ss_file_has_active_writers ss r \<longleftrightarrow> list_ex (\<lambda>s. sess_file s = rec_addr r) (sessions ss)"

definition unlink_all :: "disk \<Rightarrow> cstring list \<Rightarrow> disk" where
  "unlink_all d ps = foldl (\<lambda>d p. fst (disk_unlink d p)) d ps"

text \<open>\<open>ss_delete_file\<close> returns 0, -1 (no such file) or -2 (write sessions).\<close>

definition ss_delete_file :: "storage_server \<Rightarrow> cstring \<Rightarrow> storage_server \<times> int" where
  "ss_delete_file ss fname = (case ss_find_file ss fname of
       None \<Rightarrow> (ss, -1)
     | Some r \<Rightarrow>
         if ss_file_has_active_writers ss r then (ss, -2)
         else (ss\<lparr>ss_files := filter (\<lambda>x. rec_addr x \<noteq> rec_addr r) (ss_files ss),
                  ss_disk := unlink_all (ss_disk ss)
                    ([filepath r, metapath r, undopath r] @
                     filter (\<lambda>p. p \<noteq> []) (map ck_path (checkpoints r)))\<rparr>, 0))"

definition ss_handle_rename ::
  "int \<Rightarrow> storage_server \<Rightarrow> cstring \<Rightarrow> cstring \<Rightarrow> cstring \<Rightarrow> cstring \<Rightarrow> storage_server \<times> bool" where
  "ss_handle_rename now ss old_logical new_logical old_flat new_flat =
     (case ss_find_file ss old_logical of
        None \<Rightarrow> (ss, False)
      | Some r \<Rightarrow> (case flatten_logical_path MAX_FILENAME_LENGTH (filename r) of
          None \<Rightarrow> (ss, False)
        | Some expected_old_flat \<Rightarrow>
            if \<not> strncmp_eq MAX_FILENAME_LENGTH expected_old_flat old_flat then (ss, False)
            else (case (build_path MAX_PATH_LENGTH (storage_path ss) old_flat,
                        build_path MAX_PATH_LENGTH (storage_path ss) new_flat) of
              (Some current_path, Some new_path) \<Rightarrow>
                let current_meta = bounded_copy MAX_PATH_LENGTH (current_path @ SS_META_SUFFIX);
                    new_meta = bounded_copy MAX_PATH_LENGTH (new_path @ SS_META_SUFFIX);
                    current_undo = bounded_copy MAX_PATH_LENGTH (current_path @ SS_UNDO_SUFFIX);
                    new_undo = bounded_copy MAX_PATH_LENGTH (new_path @ SS_UNDO_SUFFIX);
                    (d1, ok) = disk_rename (ss_disk ss) current_path new_path in
                if \<not> ok then (ss, False)
                else
                  let d2 = fst (disk_rename d1 current_meta new_meta);
                      d3 = fst (disk_rename d2 current_undo new_undo);
                      r1 = r\<lparr>filename := bounded_copy MAX_FILENAME_LENGTH new_logical,
                             physical_name := bounded_copy MAX_FILENAME_LENGTH new_flat,
                             filepath := bounded_copy MAX_PATH_LENGTH new_path,
                             metapath := bounded_copy MAX_PATH_LENGTH new_meta,
                             undopath := bounded_copy MAX_PATH_LENGTH new_undo\<rparr> in
                  (ss_touch_file_metadata now (ss\<lparr>ss_disk := d3\<rparr>) r1 None True, True)
            | _ \<Rightarrow> (ss, False))))"

section \<open>Lemmas: records and the disk\<close>

lemma find_map_update:
  assumes "\<And>x. x \<in> set xs \<Longrightarrow> P (f x) = P x"
  shows "find P (map f xs) = map_option f (find P xs)"
  using assms by (induction xs) auto

lemma find_SomeD: "find P xs = Some x \<Longrightarrow> x \<in> set xs \<and> P x"
  by (induction xs) (auto split: if_splits)

lemma get_record_Some: "get_record ss a = Some r \<Longrightarrow> r \<in> set (ss_files ss) \<and> rec_addr r = a"
  by (auto simp: get_record_def dest: find_SomeD)

lemma ss_find_file_Some:
  "ss_find_file ss f = Some r \<Longrightarrow> r \<in> set (ss_files ss) \<and> strncmp_eq MAX_FILENAME_LENGTH (filename r) f"
  by (auto simp: ss_find_file_def dest: find_SomeD)

lemma get_put_record:
  "get_record (put_record r ss) a =
     (if a = rec_addr r then (if get_record ss a = None then None else Some r) else get_record ss a)"
proof -
  let ?f = "\<lambda>x. if rec_addr x = rec_addr r then r else x"
  have "get_record (put_record r ss) a = map_option ?f (get_record ss a)"
    unfolding get_record_def put_record_def
    by (simp, rule find_map_update) auto
  then show ?thesis
    by (cases "get_record ss a") (auto dest: get_record_Some)
qed

lemma get_record_in:
  "distinct (map rec_addr (ss_files ss)) \<Longrightarrow> r \<in> set (ss_files ss) \<Longrightarrow> get_record ss (rec_addr r) = Some r"
proof -
  have "distinct (map rec_addr xs) \<Longrightarrow> r \<in> set xs \<Longrightarrow> find (\<lambda>x. rec_addr x = rec_addr r) xs = Some r" for xs
    by (induction xs) (auto simp: image_iff)
  then show "distinct (map rec_addr (ss_files ss)) \<Longrightarrow> r \<in> set (ss_files ss) \<Longrightarrow> ?thesis"
    by (simp add: get_record_def)
qed

lemma find_file_put:
  assumes "distinct (map rec_addr (ss_files ss))" "ss_find_file ss f = Some r"
    "rec_addr r' = rec_addr r" "filename r' = filename r"
  shows "ss_find_file (put_record r' ss) f = Some r'"
proof -
  let ?g = "\<lambda>x. if rec_addr x = rec_addr r' then r' else x"
  have r: "r \<in> set (ss_files ss)"
    using ss_find_file_Some [OF assms(2)] by simp
  have "filename (?g x) = filename x" if "x \<in> set (ss_files ss)" for x
  proof (cases "rec_addr x = rec_addr r")
    case True
    then have "x = r"
      using assms(1) that r by (simp add: distinct_map inj_on_def)
    then show ?thesis
      using assms(3,4) by simp
  qed (use assms(3) in simp)
  then have "ss_find_file (put_record r' ss) f = map_option ?g (ss_find_file ss f)"
    unfolding ss_find_file_def put_record_def by (simp, intro find_map_update) simp
  then show ?thesis
    using assms by simp
qed

lemma find_file_cong: "ss_files ss = ss_files ss' \<Longrightarrow> ss_find_file ss = ss_find_file ss'"
  by (simp add: ss_find_file_def fun_eq_iff)

lemma get_record_cong: "ss_files ss = ss_files ss' \<Longrightarrow> get_record ss = get_record ss'"
  by (simp add: get_record_def fun_eq_iff)

lemma put_record_simps [simp]:
  "sessions (put_record r ss) = sessions ss" "ss_disk (put_record r ss) = ss_disk ss"
  "next_addr (put_record r ss) = next_addr ss" "storage_path (put_record r ss) = storage_path ss"
  "ns_sockfd (put_record r ss) = ns_sockfd ss"
  by (simp_all add: put_record_def)

lemma map_put_record:
  assumes "distinct (map rec_addr (ss_files ss))" "r \<in> set (ss_files ss)" "rec_addr r' = rec_addr r" "g r' = g r"
  shows "map g (ss_files (put_record r' ss)) = map g (ss_files ss)"
proof -
  have "g (if rec_addr x = rec_addr r' then r' else x) = g x" if "x \<in> set (ss_files ss)" for x
    using assms that get_record_in [OF assms(1)] by (metis option.inject)
  then show ?thesis
    by (simp add: put_record_def)
qed

lemma write_metadata_frame:
  "q \<noteq> metapath r \<Longrightarrow> dk_files (fst (ss_write_metadata d r)) q = dk_files d q"
  by (auto simp: ss_write_metadata_def fopen_trunc_def fwrite_def split: option.splits if_splits)

lemma write_metadata_rest:
  "dk_dirs (fst (ss_write_metadata d r)) = dk_dirs d"
  "dk_denied (fst (ss_write_metadata d r)) = dk_denied d"
  "dk_limit (fst (ss_write_metadata d r)) = dk_limit d"
  by (auto simp: ss_write_metadata_def fopen_trunc_def fwrite_def split: option.splits if_splits)

lemma touch_record_simps [simp]:
  "rec_addr (touch_record n u b r) = rec_addr r" "filename (touch_record n u b r) = filename r"
  "physical_name (touch_record n u b r) = physical_name r"
  "filepath (touch_record n u b r) = filepath r" "metapath (touch_record n u b r) = metapath r"
  "undopath (touch_record n u b r) = undopath r" "owner (touch_record n u b r) = owner r"
  "read_users (touch_record n u b r) = read_users r" "write_users (touch_record n u b r) = write_users r"
  "checkpoints (touch_record n u b r) = checkpoints r"
  "undo_available (touch_record n u b r) = undo_available r"
  by (auto simp: touch_record_def Let_def split: option.splits)

lemma touch_simps [simp]:
  "sessions (ss_touch_file_metadata n ss r u b) = sessions ss"
  "next_addr (ss_touch_file_metadata n ss r u b) = next_addr ss"
  "storage_path (ss_touch_file_metadata n ss r u b) = storage_path ss"
  "ns_sockfd (ss_touch_file_metadata n ss r u b) = ns_sockfd ss"
  "ss_files (ss_touch_file_metadata n ss r u b) = ss_files (put_record (touch_record n u b r) ss)"
  "ss_disk (ss_touch_file_metadata n ss r u b) = fst (ss_write_metadata (ss_disk ss) (touch_record n u b r))"
  by (simp_all add: ss_touch_file_metadata_def Let_def)

section \<open>Separation of content and sidecar paths\<close>

definition sidecars :: "file_record \<Rightarrow> cstring list" where
  "sidecars r = [metapath r, undopath r] @ map ck_path (checkpoints r)"

definition records_wf :: "storage_server \<Rightarrow> bool" where
  "records_wf ss \<longleftrightarrow> distinct (map rec_addr (ss_files ss)) \<and>
     list_all (\<lambda>r. rec_addr r < next_addr ss) (ss_files ss) \<and>
     distinct (map filepath (ss_files ss)) \<and>
     list_all (\<lambda>r. list_all (\<lambda>q. filepath r \<notin> set (sidecars q)) (ss_files ss)) (ss_files ss)"

text \<open>The text of the file a session points to.\<close>

definition file_text :: "storage_server \<Rightarrow> nat \<Rightarrow> cstring option" where
  "file_text ss a = (case get_record ss a of None \<Rightarrow> None | Some r \<Rightarrow> dk_files (ss_disk ss) (filepath r))"

lemma file_text_cong: "ss_files ss' = ss_files ss \<Longrightarrow> ss_disk ss' = ss_disk ss \<Longrightarrow> file_text ss' = file_text ss"
  by (simp add: file_text_def fun_eq_iff get_record_def split: option.split)

lemma records_wf_put:
  assumes "records_wf ss" "r \<in> set (ss_files ss)" "rec_addr r' = rec_addr r" "filepath r' = filepath r"
    "\<forall>q\<in>set (ss_files ss). filepath q \<notin> set (sidecars r')"
  shows "records_wf (put_record r' ss)"
proof -
  have d: "distinct (map rec_addr (ss_files ss))"
    using assms(1) by (simp add: records_wf_def)
  note m = map_put_record [OF d assms(2,3)]
  have a: "map rec_addr (ss_files (put_record r' ss)) = map rec_addr (ss_files ss)"
    and f: "map filepath (ss_files (put_record r' ss)) = map filepath (ss_files ss)"
    using assms by (simp_all add: m)
  have fs: "filepath ` set (ss_files (put_record r' ss)) = filepath ` set (ss_files ss)"
    and as: "rec_addr ` set (ss_files (put_record r' ss)) = rec_addr ` set (ss_files ss)"
    using a f by (metis list.set_map)+
  have sub: "set (ss_files (put_record r' ss)) \<subseteq> insert r' (set (ss_files ss))"
    by (auto simp: put_record_def)
  have "filepath x \<notin> set (sidecars q)" if x: "x \<in> set (ss_files (put_record r' ss))"
      and q: "q \<in> set (ss_files (put_record r' ss))" for x q
  proof -
    have "filepath x \<in> filepath ` set (ss_files ss)"
      using x fs by blast
    then obtain y where "y \<in> set (ss_files ss)" "filepath x = filepath y"
      by blast
    moreover have "q = r' \<or> q \<in> set (ss_files ss)"
      using q sub by blast
    ultimately show ?thesis
      using assms(1,5) by (auto simp: records_wf_def list_all_iff)
  qed
  moreover have "rec_addr x < next_addr ss" if "x \<in> set (ss_files (put_record r' ss))" for x
  proof -
    have "rec_addr x \<in> rec_addr ` set (ss_files ss)"
      using that as by blast
    then show ?thesis
      using assms(1) by (auto simp: records_wf_def list_all_iff)
  qed
  ultimately show ?thesis
    using assms(1) a f by (simp add: records_wf_def list_all_iff)
qed

lemma sidecar_not_content:
  "records_wf ss \<Longrightarrow> r \<in> set (ss_files ss) \<Longrightarrow> q \<in> set (ss_files ss) \<Longrightarrow> p \<in> set (sidecars q) \<Longrightarrow> filepath r \<noteq> p"
  by (auto simp: records_wf_def list_all_iff)

lemma file_text_touch:
  assumes "records_wf ss" "r \<in> set (ss_files ss)" "rec_addr r' = rec_addr r" "filepath r' = filepath r"
    "metapath r' = metapath r"
  shows "file_text (ss_touch_file_metadata n ss r' u b) a = file_text ss a"
proof -
  have get: "get_record ss (rec_addr r) = Some r"
    using assms(1,2) by (simp add: records_wf_def get_record_in)
  have meta: "dk_files (fst (ss_write_metadata (ss_disk ss) (touch_record n u b r'))) (filepath q) =
      dk_files (ss_disk ss) (filepath q)" if "q \<in> set (ss_files ss)" for q
    using sidecar_not_content [OF assms(1) that assms(2)] assms(5)
    by (intro write_metadata_frame) (auto simp: sidecars_def)
  have g: "get_record (ss_touch_file_metadata n ss r' u b) a = get_record (put_record (touch_record n u b r') ss) a"
    by (rule fun_cong [OF get_record_cong]) simp
  show ?thesis
    using assms(3,4) get meta [OF assms(2)] meta
    by (auto simp: file_text_def g get_put_record split: option.splits dest: get_record_Some)
qed

lemma records_wf_cong:
  "ss_files ss' = ss_files ss \<Longrightarrow> next_addr ss \<le> next_addr ss' \<Longrightarrow> records_wf ss \<Longrightarrow> records_wf ss'"
  by (auto simp: records_wf_def list_all_iff intro: less_le_trans)

end
