(* ===== verification/Write_Sessions.thy ===== *)
theory Write_Sessions
  imports Storage_Records
begin

text \<open>
  Sentence locks and write sessions of the storage server
  (\<open>storage_server.c\<close>): the session list, \<open>handle_client_write_lock\<close>,
  \<open>handle_client_write_data\<close>, \<open>ss_update_active_sessions\<close> and
  \<open>handle_client_etirw\<close>.

  A handler takes the server and the fields of the request and returns the
  server and the messages it sent, in order.  \<open>handle_client_etirw\<close> is the
  composition of two parts, because the code reads the bounds of the lock under \<open>sessions_lock\<close>
  and commits later under \<open>file_lock\<close>: \<open>etirw_begin\<close> and \<open>etirw_commit\<close>.  Following
  a pointer to a freed record has no defined behaviour in C; the model then does
  nothing, and the invariant shows that it never happens.
\<close>

section \<open>Messages\<close>

datatype dest = To_client int | To_ns

type_synonym outputs = "(dest \<times> cstring) list"

definition emit :: "dest \<Rightarrow> cstring option \<Rightarrow> outputs" where
  "emit to msg = (case msg of Some m \<Rightarrow> [(to, m)] | None \<Rightarrow> [])"

definition send_fields :: "dest \<Rightarrow> cstring list \<Rightarrow> outputs" where
  "send_fields to fs = emit to (protocol_build_message (map Some fs))"

definition send_error_response :: "int \<Rightarrow> int \<Rightarrow> cstring \<Rightarrow> outputs" where
  "send_error_response fd code message = emit (To_client fd) (protocol_build_error code (Some message))"

definition send_simple_ok :: "dest \<Rightarrow> cstring option \<Rightarrow> outputs" where
  "send_simple_ok to detail = (case detail of
       Some t \<Rightarrow> send_fields to [''OK'', t]
     | None \<Rightarrow> send_fields to [''OK''])"

definition ss_send_ns_error :: "storage_server \<Rightarrow> int \<Rightarrow> cstring \<Rightarrow> outputs" where
  "ss_send_ns_error ss code message =
     (if ns_sockfd ss < 0 then [] else emit To_ns (protocol_build_error code (Some message)))"

definition ss_sync_metadata_to_ns :: "storage_server \<Rightarrow> file_record \<Rightarrow> outputs" where
  "ss_sync_metadata_to_ns ss r =
     (if ns_sockfd ss < 0 then [] else
      let sz = get_file_size (ss_disk ss) (filepath r);
          content = ss_read_file_content (ss_disk ss) (filepath r);
          words = (case content of Some t \<Rightarrow> count_words t | None \<Rightarrow> 0);
          chars = (case content of Some t \<Rightarrow> count_chars t | None \<Rightarrow> 0) in
      send_fields To_ns [''WRITE_COMPLETE'', filename r, show_int (if sz \<ge> 0 then sz else 0),
        show_int (int words), show_int (int chars)])"

section \<open>The session list\<close>

definition ss_find_session :: "storage_server \<Rightarrow> int \<Rightarrow> write_session option" where
  "ss_find_session ss fd = find (\<lambda>s. client_fd s = fd) (sessions ss)"

definition ss_find_session_by_sentence :: "storage_server \<Rightarrow> file_record \<Rightarrow> int \<Rightarrow> write_session option" where
  "ss_find_session_by_sentence ss r index =
     find (\<lambda>s. sess_file s = rec_addr r \<and> sentence_index s = index) (sessions ss)"

fun detach :: "int \<Rightarrow> write_session list \<Rightarrow> write_session list" where
  "detach fd [] = []"
| "detach fd (s # ss) = (if client_fd s = fd then ss else s # detach fd ss)"

definition ss_detach_session :: "storage_server \<Rightarrow> int \<Rightarrow> storage_server" where
  "ss_detach_session ss fd = ss\<lparr>sessions := detach fd (sessions ss)\<rparr>"

definition ss_abort_session :: "storage_server \<Rightarrow> int \<Rightarrow> storage_server" where
  "ss_abort_session ss fd = ss_detach_session ss fd"

definition ss_create_session ::
  "storage_server \<Rightarrow> int \<Rightarrow> file_record \<Rightarrow> cstring \<Rightarrow> int \<Rightarrow> nat \<Rightarrow> nat \<Rightarrow> cstring \<Rightarrow> cstring \<Rightarrow> storage_server" where
  "ss_create_session ss fd r user index start_offset end_offset snapshot stext =
     ss\<lparr>sessions := \<lparr>sess_addr = next_addr ss, client_fd = fd, sess_file = rec_addr r,
          username = bounded_copy MAX_USERNAME_LENGTH user, sentence_index = index,
          sentence_start = start_offset, sentence_end = end_offset,
          file_snapshot = snapshot, sentence_working = stext\<rparr> # sessions ss,
        next_addr := next_addr ss + 1\<rparr>"

section \<open>Handlers\<close>

definition handle_client_write_lock ::
  "storage_server \<Rightarrow> int \<Rightarrow> cstring list \<Rightarrow> storage_server \<times> outputs" where
  "handle_client_write_lock ss fd fs =
     (if length fs < 4 then
        (ss, send_error_response fd ERR_INVALID_REQUEST ''Missing fields in REQ_WRITE_LOCK'')
      else let user = fs ! 1; fname = fs ! 2 in
      case parse_int (fs ! 3) of
        None \<Rightarrow> (ss, send_error_response fd ERR_INVALID_REQUEST ''Invalid sentence index'')
      | Some index \<Rightarrow>
        if index < 0 then (ss, send_error_response fd ERR_INVALID_REQUEST ''Invalid sentence index'')
        else let ss1 = ss_abort_session ss fd in
        case ss_find_file ss1 fname of
          None \<Rightarrow> (ss1, send_error_response fd ERR_FILE_NOT_FOUND ''File not found'')
        | Some r \<Rightarrow>
          if \<not> ss_check_write_access r user then
            (ss1, send_error_response fd ERR_PERMISSION_DENIED ''No write access'')
          else if ss_find_session_by_sentence ss1 r index \<noteq> None then
            (ss1, send_error_response fd ERR_SENTENCE_LOCKED ''Sentence already locked'')
          else case ss_read_file_content (ss_disk ss1) (filepath r) of
            None \<Rightarrow> (ss1, send_error_response fd ERR_INTERNAL_ERROR ''Failed to read file'')
          | Some file_data \<Rightarrow> (case ss_get_sentence_bounds file_data index of
              None \<Rightarrow> (ss1, send_error_response fd ERR_INVALID_REQUEST ''Sentence index out of range'')
            | Some (start, fin) \<Rightarrow>
                let stext = (if fin > start then take (fin - start) (drop start file_data) else []);
                    ss2 = ss_create_session ss1 fd r user index start fin file_data stext in
                (ss2, send_fields (To_client fd) [''OK_LOCKED'', filename r, fs ! 3] @
                      send_fields (To_client fd) [''OK_CONTENT'', stext])))"

definition put_session :: "write_session \<Rightarrow> storage_server \<Rightarrow> storage_server" where
  "put_session s ss = ss\<lparr>sessions := map (\<lambda>x. if sess_addr x = sess_addr s then s else x) (sessions ss)\<rparr>"

definition ss_apply_word_edit :: "storage_server \<Rightarrow> write_session \<Rightarrow> int \<Rightarrow> cstring \<Rightarrow> storage_server option" where
  "ss_apply_word_edit ss session word_index content =
     (case apply_word_edit (sentence_working session) word_index content of
        None \<Rightarrow> None
      | Some joined \<Rightarrow> Some (put_session (session\<lparr>sentence_working := joined\<rparr>) ss))"

definition handle_client_write_data ::
  "storage_server \<Rightarrow> int \<Rightarrow> cstring list \<Rightarrow> storage_server \<times> outputs" where
  "handle_client_write_data ss fd fs =
     (if length fs < 3 then
        (ss, send_error_response fd ERR_INVALID_REQUEST ''Missing fields in WRITE_DATA'')
      else case parse_int (fs ! 1) of
        None \<Rightarrow> (ss, send_error_response fd ERR_INVALID_REQUEST ''Invalid word index'')
      | Some word_index \<Rightarrow>
        if word_index < 0 then (ss, send_error_response fd ERR_INVALID_REQUEST ''Invalid word index'')
        else case ss_find_session ss fd of
          None \<Rightarrow> (ss, send_error_response fd ERR_INVALID_REQUEST ''No active WRITE session'')
        | Some session \<Rightarrow> (case ss_apply_word_edit ss session word_index (fs ! 2) of
            None \<Rightarrow> (ss, send_error_response fd ERR_INVALID_REQUEST ''Failed to apply edit'')
          | Some ss1 \<Rightarrow> (ss1, send_simple_ok (To_client fd) (Some ''WRITE_DATA applied''))))"

text \<open>\<open>ss_update_active_sessions\<close> for one session, field by field.\<close>

definition shift_session :: "nat \<Rightarrow> nat \<Rightarrow> nat \<Rightarrow> int \<Rightarrow> write_session \<Rightarrow> write_session" where
  "shift_session edit_start old_len new_len sdelta s =
     (let char_delta = int new_len - int old_len;
          edit_end = edit_start + old_len in
      if sentence_start s \<ge> edit_end then
        let s1 = s\<lparr>sentence_start := nat (int (sentence_start s) + char_delta),
                   sentence_end := nat (int (sentence_end s) + char_delta)\<rparr> in
        if sdelta \<noteq> 0 then
          s1\<lparr>sentence_index := (if sentence_index s + sdelta < 0 then 0 else sentence_index s + sdelta)\<rparr>
        else s1
      else s)"

definition ss_update_active_sessions ::
  "storage_server \<Rightarrow> nat \<Rightarrow> nat \<Rightarrow> nat \<Rightarrow> nat \<Rightarrow> int \<Rightarrow> nat \<Rightarrow> storage_server" where
  "ss_update_active_sessions ss r_addr edit_start old_len new_len sdelta exclude =
     ss\<lparr>sessions := map (\<lambda>s. if sess_addr s = exclude \<or> sess_file s \<noteq> r_addr then s
          else shift_session edit_start old_len new_len sdelta s) (sessions ss)\<rparr>"

definition etirw_begin :: "storage_server \<Rightarrow> int \<Rightarrow> write_session option" where
  "etirw_begin ss fd = ss_find_session ss fd"

definition etirw_commit :: "int \<Rightarrow> storage_server \<Rightarrow> int \<Rightarrow> write_session \<Rightarrow> storage_server \<times> outputs" where
  "etirw_commit now ss fd session =
     (case get_record ss (sess_file session) of None \<Rightarrow> (ss, [])
      | Some r \<Rightarrow>
        let locked_start = sentence_start session;
            locked_end = sentence_end session;
            replacement = sentence_working session in
        case ss_read_file_content (ss_disk ss) (filepath r) of
          None \<Rightarrow> (ss, send_error_response fd ERR_INTERNAL_ERROR ''Failed to read file'')
        | Some current_snapshot \<Rightarrow>
          let base_len = length current_snapshot in
          if locked_start > base_len \<or> locked_end > base_len \<or> locked_start > locked_end then
            (ss, send_error_response fd ERR_INTERNAL_ERROR ''Invalid sentence bounds'')
          else
            let old_len = locked_end - locked_start;
                replacement_len = length replacement;
                old_sentences = count_sentences_in_span current_snapshot locked_start locked_end;
                new_sentences = count_sentences_in_span replacement 0 replacement_len;
                sdelta = new_sentences - old_sentences;
                new_content = take locked_start current_snapshot @ replacement @
                              drop locked_end current_snapshot;
                (d1, undo_ok) = ss_write_file_content (ss_disk ss) (undopath r) current_snapshot in
            if \<not> undo_ok then
              (ss\<lparr>ss_disk := d1\<rparr>, send_error_response fd ERR_INTERNAL_ERROR ''Failed to persist undo'')
            else
              let (d2, write_ok) = ss_write_file_content d1 (filepath r) new_content in
              if \<not> write_ok then
                (ss\<lparr>ss_disk := d2\<rparr>, send_error_response fd ERR_INTERNAL_ERROR ''Failed to write file'')
              else
                let r1 = r\<lparr>undo_available := 1\<rparr>;
                    ss1 = ss_touch_file_metadata now (ss\<lparr>ss_disk := d2\<rparr>) r1 (Some (username session)) True;
                    ss2 = ss_update_active_sessions ss1 (rec_addr r) locked_start old_len
                            replacement_len sdelta (sess_addr session);
                    ss3 = ss_detach_session ss2 fd in
                (ss3, send_fields (To_client fd) [''OK_WRITE_DONE''] @ ss_sync_metadata_to_ns ss3 r1))"

definition handle_client_etirw :: "int \<Rightarrow> storage_server \<Rightarrow> int \<Rightarrow> storage_server \<times> outputs" where
  "handle_client_etirw now ss fd = (case etirw_begin ss fd of
       None \<Rightarrow> (ss, send_error_response fd ERR_INVALID_REQUEST ''No active WRITE session'')
     | Some session \<Rightarrow> etirw_commit now ss fd session)"

section \<open>Invariant\<close>

text \<open>A session is sound when its file exists, its bounds are those of its sentence in
  the current text, and its working copy is terminated if the locked sentence is.\<close>

definition lock_of :: "write_session \<Rightarrow> int \<times> nat \<times> nat" where
  "lock_of s = (sentence_index s, sentence_start s, sentence_end s)"

definition session_ok :: "cstring option \<Rightarrow> write_session \<Rightarrow> bool" where
  "session_ok text s \<longleftrightarrow> (case text of None \<Rightarrow> False
     | Some t \<Rightarrow> ss_get_sentence_bounds t (sentence_index s) = Some (sentence_start s, sentence_end s) \<and>
         (closed_text (span_text t (sentence_start s) (sentence_end s)) \<longrightarrow>
            closed_text (sentence_working s)))"

definition locked :: "write_session \<Rightarrow> nat \<times> int" where
  "locked s = (sess_file s, sentence_index s)"

definition sessions_wf :: "storage_server \<Rightarrow> bool" where
  "sessions_wf ss \<longleftrightarrow> distinct (map client_fd (sessions ss)) \<and> distinct (map sess_addr (sessions ss)) \<and>
     list_all (\<lambda>s. sess_addr s < next_addr ss) (sessions ss) \<and>
     distinct (map locked (sessions ss)) \<and>
     list_all (\<lambda>s. session_ok (file_text ss (sess_file s)) s) (sessions ss)"

definition roomy :: "storage_server \<Rightarrow> bool" where
  "roomy ss \<longleftrightarrow> dk_limit (ss_disk ss) = (\<lambda>_. None)"

definition ss_inv :: "storage_server \<Rightarrow> bool" where
  "ss_inv ss \<longleftrightarrow> records_wf ss \<and> sessions_wf ss \<and> roomy ss"

section \<open>Lemmas: framing\<close>

lemma set_detach_subset: "set (detach fd xs) \<subseteq> set xs"
  by (induction xs) auto

lemma distinct_map_detach: "distinct (map f xs) \<Longrightarrow> distinct (map f (detach fd xs))"
  by (induction xs) (auto dest: subsetD [OF set_detach_subset])

lemma detach_filter: "distinct (map client_fd xs) \<Longrightarrow> detach fd xs = filter (\<lambda>s. client_fd s \<noteq> fd) xs"
  by (induction xs) (auto simp: image_iff intro!: filter_True [symmetric])

lemma sessions_wf_frame:
  assumes "sessions_wf ss" "sessions ss' = sessions ss" "next_addr ss \<le> next_addr ss'"
    "\<And>s. s \<in> set (sessions ss) \<Longrightarrow> file_text ss' (sess_file s) = file_text ss (sess_file s)"
  shows "sessions_wf ss'"
  using assms by (auto simp: sessions_wf_def list_all_iff intro: less_le_trans)

lemma detach_simps [simp]:
  "ss_files (ss_detach_session ss fd) = ss_files ss" "ss_disk (ss_detach_session ss fd) = ss_disk ss"
  "next_addr (ss_detach_session ss fd) = next_addr ss"
  "sessions (ss_detach_session ss fd) = detach fd (sessions ss)"
  by (simp_all add: ss_detach_session_def)

lemma file_text_detach [simp]: "file_text (ss_detach_session ss fd) = file_text ss"
  by (rule file_text_cong) simp_all

lemma ss_inv_detach: "ss_inv ss \<Longrightarrow> ss_inv (ss_detach_session ss fd)"
  using set_detach_subset [of fd "sessions ss"]
  by (auto simp: ss_inv_def sessions_wf_def records_wf_def roomy_def distinct_map_detach list_all_iff)

lemma ss_abort_inv: "ss_inv ss \<Longrightarrow> ss_inv (ss_abort_session ss fd)"
  by (simp add: ss_abort_session_def ss_inv_detach)

lemma abort_no_session: "ss_inv ss \<Longrightarrow> fd \<notin> client_fd ` set (sessions (ss_abort_session ss fd))"
  by (auto simp: ss_inv_def sessions_wf_def ss_abort_session_def ss_detach_session_def detach_filter)

lemma abort_simps [simp]:
  "ss_files (ss_abort_session ss fd) = ss_files ss" "ss_disk (ss_abort_session ss fd) = ss_disk ss"
  "next_addr (ss_abort_session ss fd) = next_addr ss"
  by (simp_all add: ss_abort_session_def ss_detach_session_def)

lemma find_file_abort [simp]: "ss_find_file (ss_abort_session ss fd) = ss_find_file ss"
  by (simp add: ss_find_file_def fun_eq_iff)

section \<open>Lemmas: taking a lock\<close>

lemma create_session_inv:
  assumes inv: "ss_inv ss" and r: "r \<in> set (ss_files ss)" and fd: "fd \<notin> client_fd ` set (sessions ss)"
    and free: "ss_find_session_by_sentence ss r i = None"
    and content: "dk_files (ss_disk ss) (filepath r) = Some t"
    and b: "ss_get_sentence_bounds t i = Some (s, e)"
  shows "ss_inv (ss_create_session ss fd r user i s e t (take (e - s) (drop s t)))"
    (is "ss_inv ?ss'")
proof -
  have get: "get_record ss (rec_addr r) = Some r"
    using inv r by (simp add: ss_inv_def records_wf_def get_record_in)
  have ft: "file_text ?ss' = file_text ss"
    by (rule file_text_cong) (simp_all add: ss_create_session_def)
  have "file_text ss (rec_addr r) = Some t"
    using get content by (simp add: file_text_def)
  moreover have "(rec_addr r, i) \<notin> locked ` set (sessions ss)"
    using free by (auto simp: ss_find_session_by_sentence_def find_None_iff locked_def)
  moreover have "next_addr ss \<notin> sess_addr ` set (sessions ss)"
    using inv by (auto simp: ss_inv_def sessions_wf_def list_all_iff)
  ultimately have "sessions_wf ?ss'"
    using inv fd b unfolding sessions_wf_def ft
    by (auto simp: ss_create_session_def ss_inv_def sessions_wf_def list_all_iff less_Suc_eq
        session_ok_def span_text_def locked_def image_iff)
  then show ?thesis
    using inv records_wf_cong [of ?ss' ss] by (simp add: ss_inv_def roomy_def ss_create_session_def)
qed

lemma write_lock_inv:
  assumes "ss_inv ss"
  shows "ss_inv (fst (handle_client_write_lock ss fd fs))"
proof -
  let ?ss1 = "ss_abort_session ss fd"
  note inv = ss_abort_inv [OF assms, of fd] and nofd = abort_no_session [OF assms, of fd]
  have "ss_inv (ss_create_session ?ss1 fd r user i s e t (if s < e then take (e - s) (drop s t) else []))"
    if "ss_find_file ss fname = Some r" "ss_find_session_by_sentence ?ss1 r i = None"
      "ss_read_file_content (ss_disk ss) (filepath r) = Some t" "ss_get_sentence_bounds t i = Some (s, e)"
    for fname r i s e t user
    using that create_session_inv [OF inv _ nofd that(2), of t s e user] ss_find_file_Some [OF that(1)]
    by (auto simp: ss_read_file_content_def fopen_read_def split: if_splits)
  then show ?thesis
    using assms inv by (auto simp: handle_client_write_lock_def Let_def split: option.splits)
qed

section \<open>Lemmas: editing the working copy\<close>

lemma put_session_simps [simp]:
  "ss_files (put_session s ss) = ss_files ss" "ss_disk (put_session s ss) = ss_disk ss"
  "next_addr (put_session s ss) = next_addr ss"
  by (simp_all add: put_session_def)

lemma map_put_session:
  assumes "distinct (map sess_addr (sessions ss))" "s \<in> set (sessions ss)"
    "sess_addr s' = sess_addr s" "g s' = g s"
  shows "map g (sessions (put_session s' ss)) = map g (sessions ss)"
proof -
  have "g (if sess_addr x = sess_addr s' then s' else x) = g x" if "x \<in> set (sessions ss)" for x
    using assms that by (auto simp: distinct_map inj_on_def)
  then show ?thesis
    by (simp add: put_session_def)
qed

lemma put_session_inv:
  assumes inv: "ss_inv ss" and s: "s \<in> set (sessions ss)"
    and w: "closed_text (sentence_working s) \<longrightarrow> closed_text w"
  shows "ss_inv (put_session (s\<lparr>sentence_working := w\<rparr>) ss)" (is "ss_inv ?ss'")
proof -
  have d: "distinct (map sess_addr (sessions ss))"
    using inv by (simp add: ss_inv_def sessions_wf_def)
  let ?s' = "s\<lparr>sentence_working := w\<rparr>"
  have ft: "file_text ?ss' = file_text ss"
    by (rule file_text_cong) simp_all
  have m: "map client_fd (sessions ?ss') = map client_fd (sessions ss)"
      "map sess_addr (sessions ?ss') = map sess_addr (sessions ss)"
      "map locked (sessions ?ss') = map locked (sessions ss)"
    by (rule map_put_session [OF d s]; simp add: locked_def)+
  have sub: "set (sessions ?ss') \<subseteq> insert ?s' (set (sessions ss))"
    by (auto simp: put_session_def)
  have "session_ok (file_text ss (sess_file s)) s"
    using inv s by (auto simp: ss_inv_def sessions_wf_def list_all_iff)
  then have "session_ok (file_text ss (sess_file ?s')) ?s'"
    using w by (auto simp: session_ok_def split: option.splits)
  moreover have "sess_addr ?s' < next_addr ss"
    using inv s by (auto simp: ss_inv_def sessions_wf_def list_all_iff)
  ultimately have "sessions_wf ?ss'"
    using inv sub unfolding sessions_wf_def m ft by (auto simp: ss_inv_def sessions_wf_def list_all_iff)
  then show ?thesis
    using inv records_wf_cong [of ?ss' ss] by (simp add: ss_inv_def roomy_def)
qed

lemma ss_find_session_Some: "ss_find_session ss fd = Some s \<Longrightarrow> s \<in> set (sessions ss) \<and> client_fd s = fd"
  by (auto simp: ss_find_session_def dest: find_SomeD)

lemma write_data_inv:
  assumes "ss_inv ss"
  shows "ss_inv (fst (handle_client_write_data ss fd fs))"
proof -
  have "ss_inv ss1" if "ss_find_session ss fd = Some s" "ss_apply_word_edit ss s k c = Some ss1" for s k c ss1
    using that put_session_inv [OF assms] ss_find_session_Some apply_word_edit_closed
    by (fastforce simp: ss_apply_word_edit_def split: option.splits)
  then show ?thesis
    using assms by (auto simp: handle_client_write_data_def split: option.splits)
qed

section \<open>Lemmas: committing\<close>

lemma lock_of_shift:
  "lock_of (shift_session s n m d x) = moved s n m d (lock_of x)"
  by (simp add: shift_session_def moved_def lock_of_def Let_def)

lemma shift_session_simps [simp]:
  "client_fd (shift_session s n m d x) = client_fd x" "sess_addr (shift_session s n m d x) = sess_addr x"
  "sess_file (shift_session s n m d x) = sess_file x"
  "sentence_working (shift_session s n m d x) = sentence_working x"
  "username (shift_session s n m d x) = username x"
  by (simp_all add: shift_session_def Let_def)

lemma session_ok_valid:
  "session_ok (Some t) s \<longleftrightarrow> st.valid t (lock_of s) \<and>
     (closed_text (span_text t (sentence_start s) (sentence_end s)) \<longrightarrow> closed_text (sentence_working s))"
  by (simp add: session_ok_def st.valid_def lock_of_def)

text \<open>One session of the same file, when another one of it is committed.\<close>

lemma shift_session_span:
  assumes x: "session_ok (Some t) x" and y: "session_ok (Some t) y" "sentence_index y \<noteq> sentence_index x"
    and s: "s = sentence_start x" and e: "e = sentence_end x" and w: "w = sentence_working x"
  shows "span_text (splice_text t s e w)
      (sentence_start (shift_session s (e - s) (length w) (sentence_delta t s e w) y))
      (sentence_end (shift_session s (e - s) (length w) (sentence_delta t s e w) y)) =
    span_text t (sentence_start y) (sentence_end y)"
proof -
  let ?y = "shift_session s (e - s) (length w) (sentence_delta t s e w) y"
  have vx: "st.valid t (sentence_index x, s, e)" and cx: "closed_text (span_text t s e) \<longrightarrow> closed_text w"
    using x s e w by (simp_all add: session_ok_valid lock_of_def)
  have vy: "st.valid t (lock_of y)"
    using y(1) by (simp add: session_ok_valid)
  show ?thesis
    using st.moved_span [OF vx vy [unfolded lock_of_def] y(2) cx,
        of "sentence_index ?y" "sentence_start ?y" "sentence_end ?y"]
    by (simp add: lock_of_shift [symmetric, unfolded lock_of_def])
qed

lemma shift_session_ok:
  assumes x: "session_ok (Some t) x" and y: "session_ok (Some t) y" "sentence_index y \<noteq> sentence_index x"
    and s: "s = sentence_start x" and e: "e = sentence_end x" and w: "w = sentence_working x"
  shows "session_ok (Some (splice_text t s e w))
    (shift_session s (e - s) (length w) (sentence_delta t s e w) y)" (is "session_ok _ ?y")
proof -
  have vx: "st.valid t (sentence_index x, s, e)" and cx: "closed_text (span_text t s e) \<longrightarrow> closed_text w"
    using x s e w by (simp_all add: session_ok_valid lock_of_def)
  have vy: "st.valid t (lock_of y)" and ne: "fst (lock_of y) \<noteq> sentence_index x"
    using y by (simp_all add: session_ok_valid lock_of_def)
  have "st.valid (splice_text t s e w) (lock_of ?y)"
    using st.moved_valid [OF vx vy ne cx] by (simp add: lock_of_shift)
  then show ?thesis
    using y(1) shift_session_span [OF assms] by (simp add: session_ok_valid)
qed

lemma shift_session_index:
  assumes x: "session_ok (Some t) x" and y: "session_ok (Some t) y" "sentence_index y \<noteq> sentence_index x"
    and z: "session_ok (Some t) z" "sentence_index z \<noteq> sentence_index x"
    and ne: "sentence_index y \<noteq> sentence_index z"
    and s: "s = sentence_start x" and e: "e = sentence_end x" and w: "w = sentence_working x"
  shows "sentence_index (shift_session s (e - s) (length w) (sentence_delta t s e w) y) \<noteq>
    sentence_index (shift_session s (e - s) (length w) (sentence_delta t s e w) z)"
proof -
  have vx: "st.valid t (sentence_index x, s, e)" and cx: "closed_text (span_text t s e) \<longrightarrow> closed_text w"
    using x s e w by (simp_all add: session_ok_valid lock_of_def)
  have "fst (lock_of (shift_session s (e - s) (length w) (sentence_delta t s e w) y)) \<noteq>
      fst (lock_of (shift_session s (e - s) (length w) (sentence_delta t s e w) z))"
    unfolding lock_of_shift
    by (rule st.moved_distinct [OF vx cx]) (use y z ne in \<open>simp_all add: session_ok_valid lock_of_def\<close>)
  then show ?thesis
    by (simp add: lock_of_def)
qed

text \<open>The session list after a commit of session \<open>x\<close>: the others, those of the same file shifted.\<close>

definition commit_sessions :: "cstring \<Rightarrow> write_session \<Rightarrow> write_session list \<Rightarrow> write_session list" where
  "commit_sessions t x xs = map (\<lambda>y. if sess_file y = sess_file x
     then shift_session (sentence_start x) (sentence_end x - sentence_start x) (length (sentence_working x))
       (sentence_delta t (sentence_start x) (sentence_end x) (sentence_working x)) y
     else y) (filter (\<lambda>y. client_fd y \<noteq> client_fd x) xs)"

lemma commit_sessions_wf:
  assumes wf: "sessions_wf ss" and x: "x \<in> set (sessions ss)" and t: "file_text ss (sess_file x) = Some t"
    and ss': "sessions ss' = commit_sessions t x (sessions ss)" "next_addr ss \<le> next_addr ss'"
      "\<And>a. file_text ss' a = (if a = sess_file x
         then Some (splice_text t (sentence_start x) (sentence_end x) (sentence_working x))
         else file_text ss a)"
  shows "sessions_wf ss'"
proof -
  let ?sh = "shift_session (sentence_start x) (sentence_end x - sentence_start x) (length (sentence_working x))
       (sentence_delta t (sentence_start x) (sentence_end x) (sentence_working x))"
  let ?f = "\<lambda>y. if sess_file y = sess_file x then ?sh y else y"
  let ?xs = "filter (\<lambda>y. client_fd y \<noteq> client_fd x) (sessions ss)"
  have ok: "session_ok (file_text ss (sess_file y)) y" if "y \<in> set (sessions ss)" for y
    using wf that by (auto simp: sessions_wf_def list_all_iff)
  have other: "sentence_index y \<noteq> sentence_index x" if "y \<in> set ?xs" "sess_file y = sess_file x" for y
    using wf that x by (auto simp: sessions_wf_def distinct_map inj_on_def locked_def)
  have okt: "session_ok (Some t) y" if "y \<in> set (sessions ss)" "sess_file y = sess_file x" for y
    using ok [OF that(1)] that(2) t by simp
  have "session_ok (file_text ss' (sess_file (?f y))) (?f y)" if "y \<in> set ?xs" for y
    using that ok [of y] okt [OF x refl] okt [of y] other [OF that]
    by (auto simp: ss'(3) intro!: shift_session_ok)
  then have all_ok: "list_all (\<lambda>s. session_ok (file_text ss' (sess_file s)) s) (map ?f ?xs)"
    unfolding list_all_iff set_map by blast
  have "locked (?f y) \<noteq> locked (?f z)" if "y \<in> set ?xs" "z \<in> set ?xs" "locked y \<noteq> locked z" for y z
    using that okt [OF x refl] okt [of y] okt [of z] other [of y] other [of z] shift_session_index
    by (auto simp: locked_def)
  then have dist: "distinct (map locked (map ?f ?xs))"
    using wf by (intro distinct_map_update) (auto simp: sessions_wf_def distinct_map_filter)
  have same: "map client_fd (map ?f ?xs) = map client_fd ?xs" "map sess_addr (map ?f ?xs) = map sess_addr ?xs"
    by auto
  have addr: "list_all (\<lambda>s. sess_addr s < next_addr ss') (map ?f ?xs)"
    using wf ss'(2) by (auto simp: sessions_wf_def list_all_iff intro: less_le_trans)
  have "distinct (map client_fd ?xs)" "distinct (map sess_addr ?xs)"
    using wf by (simp_all add: sessions_wf_def distinct_map_filter)
  then show ?thesis
    unfolding sessions_wf_def ss'(1) commit_sessions_def same using addr dist all_ok by blast
qed

definition commit_state ::
  "int \<Rightarrow> storage_server \<Rightarrow> int \<Rightarrow> write_session \<Rightarrow> file_record \<Rightarrow> cstring \<Rightarrow> disk \<Rightarrow> storage_server" where
  "commit_state now ss fd x r t d2 = ss_detach_session
     (ss_update_active_sessions
       (ss_touch_file_metadata now (ss\<lparr>ss_disk := d2\<rparr>) (r\<lparr>undo_available := 1\<rparr>) (Some (username x)) True)
       (rec_addr r) (sentence_start x) (sentence_end x - sentence_start x) (length (sentence_working x))
       (sentence_delta t (sentence_start x) (sentence_end x) (sentence_working x)) (sess_addr x)) fd"

lemma update_simps [simp]:
  "ss_files (ss_update_active_sessions ss a s n m d x) = ss_files ss"
  "ss_disk (ss_update_active_sessions ss a s n m d x) = ss_disk ss"
  "next_addr (ss_update_active_sessions ss a s n m d x) = next_addr ss"
  by (simp_all add: ss_update_active_sessions_def)

lemma commit_state_sessions:
  assumes "sessions_wf ss" "x \<in> set (sessions ss)" "client_fd x = fd" "rec_addr r = sess_file x"
  shows "sessions (commit_state now ss fd x r t d2) = commit_sessions t x (sessions ss)"
proof -
  have d: "distinct (map client_fd (sessions ss))" "distinct (map sess_addr (sessions ss))"
    using assms(1) by (simp_all add: sessions_wf_def)
  let ?sh = "shift_session (sentence_start x) (sentence_end x - sentence_start x) (length (sentence_working x))
       (sentence_delta t (sentence_start x) (sentence_end x) (sentence_working x))"
  let ?g = "\<lambda>s. if sess_addr s = sess_addr x \<or> sess_file s \<noteq> rec_addr r then s else ?sh s"
  have g: "client_fd (?g s) = client_fd s" for s
    by simp
  have "sessions (commit_state now ss fd x r t d2) = detach fd (map ?g (sessions ss))"
    by (simp add: commit_state_def ss_update_active_sessions_def)
  also have "\<dots> = filter (\<lambda>s. client_fd s \<noteq> fd) (map ?g (sessions ss))"
    using d(1) g by (intro detach_filter) (simp add: comp_def)
  also have "\<dots> = map ?g (filter (\<lambda>s. client_fd s \<noteq> fd) (sessions ss))"
    using g by (simp add: filter_map comp_def)
  also have "\<dots> = commit_sessions t x (sessions ss)"
    using d(2) assms(2-4) by (auto simp: commit_sessions_def distinct_map inj_on_def)
  finally show ?thesis .
qed

lemma commit_state_files:
  "ss_files (commit_state now ss fd x r t d2) =
     ss_files (put_record (touch_record now (Some (username x)) True (r\<lparr>undo_available := 1\<rparr>)) ss)"
  "next_addr (commit_state now ss fd x r t d2) = next_addr ss"
  "ss_disk (commit_state now ss fd x r t d2) =
     fst (ss_write_metadata d2 (touch_record now (Some (username x)) True (r\<lparr>undo_available := 1\<rparr>)))"
  by (simp_all add: commit_state_def put_record_def)

lemma records_wf_put_same:
  assumes "records_wf ss" "r \<in> set (ss_files ss)" "rec_addr r' = rec_addr r" "filepath r' = filepath r"
    "sidecars r' = sidecars r"
  shows "records_wf (put_record r' ss)"
  using assms by (intro records_wf_put) (auto simp: records_wf_def list_all_iff)

lemma sidecars_touch [simp]: "sidecars (touch_record n u b r) = sidecars r"
  by (simp add: sidecars_def)

lemma sidecars_undo [simp]: "sidecars (r\<lparr>undo_available := k\<rparr>) = sidecars r"
  by (simp add: sidecars_def)

lemma file_text_in:
  "records_wf ss \<Longrightarrow> r \<in> set (ss_files ss) \<Longrightarrow> file_text ss (rec_addr r) = dk_files (ss_disk ss) (filepath r)"
  by (simp add: file_text_def records_wf_def get_record_in)

lemma file_text_disk:
  assumes wf: "records_wf ss" and r: "r \<in> set (ss_files ss)"
    and frame: "\<And>q. q \<in> set (ss_files ss) \<Longrightarrow> q \<noteq> r \<Longrightarrow> dk_files d (filepath q) = dk_files (ss_disk ss) (filepath q)"
  shows "file_text (ss\<lparr>ss_disk := d\<rparr>) a = (if a = rec_addr r then dk_files d (filepath r) else file_text ss a)"
proof -
  have "get_record (ss\<lparr>ss_disk := d\<rparr>) a = get_record ss a" "get_record ss (rec_addr r) = Some r"
    using wf r by (simp_all add: get_record_def get_record_in [unfolded get_record_def] records_wf_def)
  then show ?thesis
    using frame by (auto simp: file_text_def split: option.splits dest: get_record_Some)
qed

lemma commit_state_inv:
  assumes inv: "ss_inv ss" and x: "x \<in> set (sessions ss)" "client_fd x = fd"
    and r: "get_record ss (sess_file x) = Some r" and t: "dk_files (ss_disk ss) (filepath r) = Some t"
    and w1: "ss_write_file_content (ss_disk ss) (undopath r) t = (d1, True)"
    and w2: "ss_write_file_content d1 (filepath r)
      (splice_text t (sentence_start x) (sentence_end x) (sentence_working x)) = (d2, True)"
  shows "ss_inv (commit_state now ss fd x r t d2)"
    and "file_text (commit_state now ss fd x r t d2) a = (if a = sess_file x
      then Some (splice_text t (sentence_start x) (sentence_end x) (sentence_working x)) else file_text ss a)"
proof -
  let ?c = "commit_state now ss fd x r t d2"
  let ?w = "splice_text t (sentence_start x) (sentence_end x) (sentence_working x)"
  let ?r1 = "r\<lparr>undo_available := 1\<rparr>"
  have wf: "records_wf ss" and swf: "sessions_wf ss" and room: "roomy ss"
    using inv by (simp_all add: ss_inv_def)
  have rin: "r \<in> set (ss_files ss)" and ra: "rec_addr r = sess_file x"
    using get_record_Some [OF r] by simp_all
  have up: "undopath r \<noteq> filepath r"
    using sidecar_not_content [OF wf rin rin, of "undopath r"] by (auto simp: sidecars_def)
  have d2: "dk_files d2 (filepath r) = Some ?w"
    using bs.save_then_write(2) [OF w1 w2 up] .
  have frame: "dk_files d2 (filepath q) = dk_files (ss_disk ss) (filepath q)"
    if "q \<in> set (ss_files ss)" "q \<noteq> r" for q
  proof (rule bs.save_then_write(3) [OF w1 w2 up])
    show "filepath q \<noteq> undopath r"
      using sidecar_not_content [OF wf that(1) rin] by (simp add: sidecars_def)
    show "filepath q \<noteq> filepath r"
      using wf that rin by (auto simp: records_wf_def distinct_map inj_on_def)
  qed
  let ?m = "ss\<lparr>ss_disk := d2\<rparr>"
  have wfm: "records_wf ?m"
    by (rule records_wf_cong [OF _ _ wf]) simp_all
  have ftc: "file_text ?c = file_text (ss_touch_file_metadata now ?m ?r1 (Some (username x)) True)"
    by (rule file_text_cong) (simp_all add: commit_state_def)
  have ft: "file_text ?c a = (if a = sess_file x then Some ?w else file_text ss a)" for a
    using file_text_touch [OF wfm, of r ?r1 now "Some (username x)" True a] rin
      file_text_disk [OF wf rin frame, of a] d2 ra by (simp add: ftc)
  show "file_text ?c a = (if a = sess_file x then Some ?w else file_text ss a)"
    by (rule ft)
  have "records_wf ?c"
    using records_wf_put_same [OF wf rin, of "touch_record now (Some (username x)) True ?r1"]
    by (intro records_wf_cong [of ?c "put_record (touch_record now (Some (username x)) True ?r1) ss"])
      (simp_all add: commit_state_files)
  moreover have "file_text ss (sess_file x) = Some t"
    using r t by (simp add: file_text_def)
  then have "sessions_wf ?c"
    by (rule commit_sessions_wf [OF swf x(1)])
      (use ft commit_state_sessions [OF swf x ra] in \<open>simp_all add: commit_state_files\<close>)
  moreover have "roomy ?c"
    using room write_content_rest [OF w1] write_content_rest [OF w2]
    by (simp add: roomy_def commit_state_files write_metadata_rest)
  ultimately show "ss_inv ?c"
    by (simp add: ss_inv_def)
qed

lemma session_record:
  assumes "ss_inv ss" "x \<in> set (sessions ss)"
  obtains r t where "get_record ss (sess_file x) = Some r" "r \<in> set (ss_files ss)"
    "dk_files (ss_disk ss) (filepath r) = Some t" "session_ok (Some t) x"
proof -
  have "session_ok (file_text ss (sess_file x)) x"
    using assms by (auto simp: ss_inv_def sessions_wf_def list_all_iff)
  then show ?thesis
    using that get_record_Some by (fastforce simp: file_text_def session_ok_def split: option.splits)
qed

text \<open>In a sound state the bounds test of the commit never fails, so a commit ends in one of
  four ways.\<close>

lemma etirw_commit_eq:
  assumes "get_record ss (sess_file x) = Some r" "dk_files (ss_disk ss) (filepath r) = Some t"
    "session_ok (Some t) x" "\<not> dk_denied (ss_disk ss) (filepath r)"
  shows "etirw_commit now ss fd x =
    (let (d1, undo_ok) = ss_write_file_content (ss_disk ss) (undopath r) t;
         (d2, write_ok) = ss_write_file_content d1 (filepath r)
           (splice_text t (sentence_start x) (sentence_end x) (sentence_working x)) in
     if \<not> undo_ok then
       (ss\<lparr>ss_disk := d1\<rparr>, send_error_response fd ERR_INTERNAL_ERROR ''Failed to persist undo'')
     else if \<not> write_ok then
       (ss\<lparr>ss_disk := d2\<rparr>, send_error_response fd ERR_INTERNAL_ERROR ''Failed to write file'')
     else (commit_state now ss fd x r t d2, send_fields (To_client fd) [''OK_WRITE_DONE''] @
            ss_sync_metadata_to_ns (commit_state now ss fd x r t d2) (r\<lparr>undo_available := 1\<rparr>)))"
proof -
  have "sentence_start x \<le> sentence_end x" "sentence_end x \<le> length t"
    using assms(3) st.range [of t "sentence_index x" "sentence_start x" "sentence_end x"]
    by (auto simp: session_ok_def)
  then show ?thesis
    using assms
    by (auto simp: etirw_commit_def ss_read_file_content_def fopen_read_def splice_text_def
        sentence_delta_def commit_state_def Let_def split: prod.splits)
qed

lemma undo_write_inv:
  assumes inv: "ss_inv ss" and r: "r \<in> set (ss_files ss)" and p: "p \<in> set (sidecars r)"
    and w: "ss_write_file_content (ss_disk ss) p t = (d, ok)"
  shows "ss_inv (ss\<lparr>ss_disk := d\<rparr>)"
proof -
  have wf: "records_wf ss"
    using inv by (simp add: ss_inv_def)
  have same: "dk_files d (filepath q) = dk_files (ss_disk ss) (filepath q)" if "q \<in> set (ss_files ss)" for q
    using sidecar_not_content [OF wf that r p] by (intro write_content_frame [OF w])
  have ft: "file_text (ss\<lparr>ss_disk := d\<rparr>) a = file_text ss a" for a
    using file_text_in [OF wf r] by (simp add: file_text_disk [OF wf r same] same [OF r])
  have "sessions_wf ss"
    using inv by (simp add: ss_inv_def)
  then have "sessions_wf (ss\<lparr>ss_disk := d\<rparr>)"
    by (rule sessions_wf_frame) (simp_all add: ft)
  then show ?thesis
    using inv records_wf_cong [of "ss\<lparr>ss_disk := d\<rparr>" ss] write_content_rest [OF w]
    by (simp add: ss_inv_def roomy_def)
qed

lemma etirw_commit_inv:
  assumes inv: "ss_inv ss" and x: "x \<in> set (sessions ss)" "client_fd x = fd"
  shows "ss_inv (fst (etirw_commit now ss fd x))"
proof -
  obtain r t where r: "get_record ss (sess_file x) = Some r" "r \<in> set (ss_files ss)"
      "dk_files (ss_disk ss) (filepath r) = Some t" "session_ok (Some t) x"
    using session_record [OF inv x(1)] .
  show ?thesis
  proof (cases "dk_denied (ss_disk ss) (filepath r)")
    case True
    then show ?thesis
      using inv r by (simp add: etirw_commit_def ss_read_file_content_def fopen_read_def)
  next
    case False
    let ?n = "splice_text t (sentence_start x) (sentence_end x) (sentence_working x)"
    obtain d1 ok1 where w1: "ss_write_file_content (ss_disk ss) (undopath r) t = (d1, ok1)"
      by (cases "ss_write_file_content (ss_disk ss) (undopath r) t")
    obtain d2 ok2 where w2: "ss_write_file_content d1 (filepath r) ?n = (d2, ok2)"
      by (cases "ss_write_file_content d1 (filepath r) ?n")
    have lim: "dk_limit d1 (filepath r) = None"
      using inv write_content_rest [OF w1] by (simp add: ss_inv_def roomy_def)
    have i1: "ss_inv (ss\<lparr>ss_disk := d1\<rparr>)"
      using undo_write_inv [OF inv r(2) _ w1] by (simp add: sidecars_def)
    then have "ss_inv (ss\<lparr>ss_disk := d2\<rparr>)" if "\<not> ok2"
      using that write_content_fail [OF lim] w2 by auto
    then show ?thesis
      using i1 w1 w2 commit_state_inv(1) [OF inv x r(1,3)]
      by (auto simp: etirw_commit_eq [OF r(1,3,4) False])
  qed
qed

lemma etirw_inv:
  assumes "ss_inv ss"
  shows "ss_inv (fst (handle_client_etirw now ss fd))"
  using assms etirw_commit_inv [OF assms] ss_find_session_Some
  by (auto simp: handle_client_etirw_def etirw_begin_def split: option.splits)

end
