(* ===== verification/Storage_Handlers.thy ===== *)
theory Storage_Handlers
  imports Write_Sessions
begin

text \<open>
  The remaining handlers of client requests of the storage server
  (\<open>storage_server.c\<close>): reading and streaming, checkpoints, revert, undo, and the
  dispatch of requests (\<open>client_thread\<close>).

  Every client handler opens with the same three steps (look the file up, check
  the access right, take the file lock); they are the definition \<open>locate\<close>.
\<close>

section \<open>Common opening of the client handlers\<close>

definition locate :: "storage_server \<Rightarrow> int \<Rightarrow> cstring \<Rightarrow> (file_record \<Rightarrow> bool) \<Rightarrow> cstring \<Rightarrow>
    (file_record \<Rightarrow> storage_server \<times> outputs) \<Rightarrow> storage_server \<times> outputs" where
  "locate ss fd fname allowed refusal body = (case ss_find_file ss fname of
       None \<Rightarrow> (ss, send_error_response fd ERR_FILE_NOT_FOUND ''File not found'')
     | Some r \<Rightarrow> if \<not> allowed r then (ss, send_error_response fd ERR_PERMISSION_DENIED refusal)
         else body r)"

definition read_reply :: "int \<Rightarrow> cstring \<Rightarrow> cstring \<Rightarrow> outputs" where
  "read_reply fd name content =
     send_fields (To_client fd) [''OK_READ_START'', name] @
     send_fields (To_client fd) [''OK_CONTENT'', content] @
     send_fields (To_client fd) [''OK_READ_END'']"

section \<open>Reading\<close>

definition handle_client_read :: "int \<Rightarrow> storage_server \<Rightarrow> int \<Rightarrow> cstring list \<Rightarrow> storage_server \<times> outputs" where
  "handle_client_read now ss fd fs =
     (if length fs < 3 then (ss, send_error_response fd ERR_INVALID_REQUEST ''Missing fields in REQ_READ'')
      else let user = fs ! 1; fname = fs ! 2 in
      locate ss fd fname (\<lambda>r. ss_check_read_access r user) ''No read access'' (\<lambda>r.
        case ss_read_file_content (ss_disk ss) (filepath r) of
          None \<Rightarrow> (ss, send_error_response fd ERR_INTERNAL_ERROR ''Failed to read file'')
        | Some content \<Rightarrow>
            (ss_touch_file_metadata now ss r (Some user) False, read_reply fd (filename r) content)))"

function stream_loop :: "int \<Rightarrow> cstring \<Rightarrow> outputs" where
  "stream_loop fd cursor =
     (if cursor = [] then []
      else let word_start = dropWhile is_space cursor in
        if word_start = [] then []
        else send_fields (To_client fd) [''OK_CONTENT'', takeWhile (\<lambda>c. \<not> is_space c) word_start] @
             stream_loop fd (dropWhile (\<lambda>c. \<not> is_space c) word_start))"
  by pat_completeness auto
termination
proof (relation "measure (\<lambda>(fd, p). length p)", goal_cases)
  case (2 fd cursor word_start)
  obtain c t where start: "word_start = c # t"
    using 2 by (meson neq_Nil_conv)
  then have "\<not> is_space c" "length (c # t) \<le> length cursor"
    using 2 by (metis dropWhile_eq_Cons_conv, metis length_dropWhile_le)
  then show ?case
    using length_dropWhile_le [of "\<lambda>c. \<not> is_space c" t] by (simp add: start)
qed simp

declare stream_loop.simps [simp del]

definition handle_client_stream :: "int \<Rightarrow> storage_server \<Rightarrow> int \<Rightarrow> cstring list \<Rightarrow> storage_server \<times> outputs" where
  "handle_client_stream now ss fd fs =
     (if length fs < 3 then (ss, send_error_response fd ERR_INVALID_REQUEST ''Missing fields in REQ_STREAM'')
      else let user = fs ! 1; fname = fs ! 2 in
      locate ss fd fname (\<lambda>r. ss_check_read_access r user) ''No read access'' (\<lambda>r.
        case ss_read_file_content (ss_disk ss) (filepath r) of
          None \<Rightarrow> (ss, send_error_response fd ERR_INTERNAL_ERROR ''Failed to read file'')
        | Some content \<Rightarrow>
            (ss_touch_file_metadata now ss r (Some user) False,
             send_fields (To_client fd) [''OK_STREAM'', filename r] @ stream_loop fd content @
             send_fields (To_client fd) [''OK_STREAM_END''])))"

section \<open>Checkpoints, revert and undo\<close>

definition checkpoint_name :: "int \<Rightarrow> file_record \<Rightarrow> cstring \<Rightarrow> cstring" where
  "checkpoint_name now r tag_copy =
     (let sanitized = ss_sanitize_tag MAX_TAG_LENGTH tag_copy;
          sanitized = (if sanitized = [] then ''checkpoint'' else sanitized) in
      bounded_copy (MAX_FILENAME_LENGTH + MAX_TAG_LENGTH + 32)
        (filename r @ ''.ckpt_'' @ show_int now @ ''_'' @ sanitized))"

definition handle_client_checkpoint :: "int \<Rightarrow> storage_server \<Rightarrow> int \<Rightarrow> cstring list \<Rightarrow> storage_server \<times> outputs" where
  "handle_client_checkpoint now ss fd fs =
     (if length fs < 4 then (ss, send_error_response fd ERR_INVALID_REQUEST ''Missing fields in REQ_CHECKPOINT'')
      else let user = fs ! 1; fname = fs ! 2 in
      case safe_strcpy MAX_TAG_LENGTH (fs ! 3) of
        None \<Rightarrow> (ss, send_error_response fd ERR_INVALID_REQUEST ''Checkpoint tag too long'')
      | Some tag0 \<Rightarrow>
        let tag_copy = trim_string tag0 in
        if tag_copy = [] then
          (ss, send_error_response fd ERR_INVALID_REQUEST ''Checkpoint tag cannot be empty'')
        else locate ss fd fname (\<lambda>r. ss_check_write_access r user) ''No write access'' (\<lambda>r.
          if ss_file_has_active_writers ss r then
            (ss, send_error_response fd ERR_SENTENCE_LOCKED ''File locked for writing'')
          else if ss_find_checkpoint r tag_copy \<noteq> None then
            (ss, send_error_response fd ERR_INVALID_REQUEST ''Checkpoint already exists'')
          else case build_path MAX_PATH_LENGTH (storage_path ss) (checkpoint_name now r tag_copy) of
            None \<Rightarrow> (ss, send_error_response fd ERR_INTERNAL_ERROR ''Failed to build checkpoint path'')
          | Some ckpt_path \<Rightarrow>
              let (d1, ok) = ss_copy_file (ss_disk ss) (filepath r) ckpt_path in
              if \<not> ok then
                (ss\<lparr>ss_disk := fst (disk_unlink d1 ckpt_path)\<rparr>,
                 send_error_response fd ERR_INTERNAL_ERROR ''Failed to persist checkpoint'')
              else
                let (r1, d2) = (if length (checkpoints r) \<ge> SS_MAX_CHECKPOINTS
                                then ss_prune_oldest_checkpoint r d1 else (r, d1));
                    r2 = r1\<lparr>checkpoints := checkpoints r1 @
                      [\<lparr>ck_tag = bounded_copy MAX_FILENAME_LENGTH tag_copy,
                        ck_path = bounded_copy MAX_PATH_LENGTH ckpt_path\<rparr>]\<rparr> in
                (ss_touch_file_metadata now (ss\<lparr>ss_disk := d2\<rparr>) r2 (Some user) False,
                 send_fields (To_client fd) [''OK_CHECKPOINT'',
                   bounded_copy 256 (''Checkpoint '' @ quoted tag_copy @ '' created.'')])))"

definition handle_client_viewcheckpoint :: "int \<Rightarrow> storage_server \<Rightarrow> int \<Rightarrow> cstring list \<Rightarrow> storage_server \<times> outputs" where
  "handle_client_viewcheckpoint now ss fd fs =
     (if length fs < 4 then (ss, send_error_response fd ERR_INVALID_REQUEST ''Missing fields in REQ_VIEWCHECKPOINT'')
      else let user = fs ! 1; fname = fs ! 2 in
      case safe_strcpy MAX_TAG_LENGTH (fs ! 3) of
        None \<Rightarrow> (ss, send_error_response fd ERR_INVALID_REQUEST ''Checkpoint tag too long'')
      | Some tag0 \<Rightarrow>
        let tag_copy = trim_string tag0 in
        if tag_copy = [] then
          (ss, send_error_response fd ERR_INVALID_REQUEST ''Checkpoint tag cannot be empty'')
        else locate ss fd fname (\<lambda>r. ss_check_read_access r user) ''No read access'' (\<lambda>r.
          case ss_find_checkpoint r tag_copy of
            None \<Rightarrow> (ss, send_error_response fd ERR_INVALID_REQUEST ''Checkpoint not found'')
          | Some ckpt \<Rightarrow>
              if \<not> ss_file_exists (ss_disk ss) (ck_path ckpt) then
                (ss, send_error_response fd ERR_INTERNAL_ERROR ''Checkpoint data missing'')
              else case ss_read_file_content (ss_disk ss) (ck_path ckpt) of
                None \<Rightarrow> (ss, send_error_response fd ERR_INTERNAL_ERROR ''Failed to read checkpoint'')
              | Some content \<Rightarrow>
                  (ss_touch_file_metadata now ss r (Some user) False,
                   read_reply fd (bounded_copy (MAX_FILENAME_LENGTH + MAX_TAG_LENGTH + 4)
                     (filename r @ '' ['' @ tag_copy @ '']'')) content)))"

definition handle_client_revert :: "int \<Rightarrow> storage_server \<Rightarrow> int \<Rightarrow> cstring list \<Rightarrow> storage_server \<times> outputs" where
  "handle_client_revert now ss fd fs =
     (if length fs < 4 then (ss, send_error_response fd ERR_INVALID_REQUEST ''Missing fields in REQ_REVERT'')
      else let user = fs ! 1; fname = fs ! 2 in
      case safe_strcpy MAX_TAG_LENGTH (fs ! 3) of
        None \<Rightarrow> (ss, send_error_response fd ERR_INVALID_REQUEST ''Checkpoint tag too long'')
      | Some tag0 \<Rightarrow>
        let tag_copy = trim_string tag0 in
        if tag_copy = [] then
          (ss, send_error_response fd ERR_INVALID_REQUEST ''Checkpoint tag cannot be empty'')
        else locate ss fd fname (\<lambda>r. ss_check_write_access r user) ''No write access'' (\<lambda>r.
          if ss_file_has_active_writers ss r then
            (ss, send_error_response fd ERR_SENTENCE_LOCKED ''File locked for writing'')
          else case ss_find_checkpoint r tag_copy of
            None \<Rightarrow> (ss, send_error_response fd ERR_INVALID_REQUEST ''Checkpoint not found'')
          | Some ckpt \<Rightarrow>
              if \<not> ss_file_exists (ss_disk ss) (ck_path ckpt) then
                (ss, send_error_response fd ERR_INTERNAL_ERROR ''Checkpoint data missing'')
              else
                let (d1, ok1) = ss_copy_file (ss_disk ss) (filepath r) (undopath r) in
                if \<not> ok1 then
                  (ss\<lparr>ss_disk := d1\<rparr>,
                   send_error_response fd ERR_INTERNAL_ERROR ''Failed to create undo snapshot'')
                else
                  let (d2, ok2) = ss_copy_file d1 (ck_path ckpt) (filepath r) in
                  if \<not> ok2 then
                    (ss\<lparr>ss_disk := fst (ss_copy_file d2 (undopath r) (filepath r))\<rparr>,
                     send_error_response fd ERR_INTERNAL_ERROR ''Failed to revert file'')
                  else
                    (ss_touch_file_metadata now (ss\<lparr>ss_disk := d2\<rparr>) (r\<lparr>undo_available := 1\<rparr>) (Some user) True,
                     send_fields (To_client fd) [''OK_REVERT'',
                       bounded_copy 256 (''File reverted to '' @ quoted tag_copy @ ''.'')])))"

definition handle_client_listcheckpoints :: "int \<Rightarrow> storage_server \<Rightarrow> int \<Rightarrow> cstring list \<Rightarrow> storage_server \<times> outputs" where
  "handle_client_listcheckpoints now ss fd fs =
     (if length fs < 3 then (ss, send_error_response fd ERR_INVALID_REQUEST ''Missing fields in REQ_LIST_CHECKPOINTS'')
      else let user = fs ! 1; fname = fs ! 2 in
      locate ss fd fname (\<lambda>r. ss_check_read_access r user) ''No read access'' (\<lambda>r.
        (ss_touch_file_metadata now ss r (Some user) False,
         concat (map (\<lambda>c. send_fields (To_client fd) [''OK_LIST_CHECKPOINT'', ck_tag c]) (checkpoints r)) @
         send_fields (To_client fd) [''OK_LIST_CHECKPOINT_END''])))"

definition handle_client_undo :: "int \<Rightarrow> storage_server \<Rightarrow> int \<Rightarrow> cstring list \<Rightarrow> storage_server \<times> outputs" where
  "handle_client_undo now ss fd fs =
     (if length fs < 3 then (ss, send_error_response fd ERR_INVALID_REQUEST ''Missing fields in REQ_UNDO'')
      else let user = fs ! 1; fname = fs ! 2 in
      locate ss fd fname (\<lambda>r. ss_check_write_access r user) ''No write access'' (\<lambda>r.
        if ss_file_has_active_writers ss r then
          (ss, send_error_response fd ERR_SENTENCE_LOCKED ''File locked for writing'')
        else if undo_available r = 0 \<or> \<not> file_exists (ss_disk ss) (undopath r) then
          (ss, send_error_response fd ERR_NO_UNDO_HISTORY ''No undo available'')
        else case ss_read_file_content (ss_disk ss) (undopath r) of
          None \<Rightarrow> (ss, send_error_response fd ERR_INTERNAL_ERROR ''Failed to read undo data'')
        | Some undo_content \<Rightarrow>
            let (d1, ok) = ss_write_file_content (ss_disk ss) (filepath r) undo_content in
            if \<not> ok then
              (ss\<lparr>ss_disk := d1\<rparr>, send_error_response fd ERR_INTERNAL_ERROR ''Failed to restore file'')
            else
              (ss_touch_file_metadata now (ss\<lparr>ss_disk := d1\<rparr>) (r\<lparr>undo_available := 0\<rparr>) (Some user) True,
               send_fields (To_client fd) [''OK_UNDO''])))"

section \<open>Dispatch of client requests\<close>

definition client_dispatch :: "int \<Rightarrow> storage_server \<Rightarrow> int \<Rightarrow> cstring list \<Rightarrow> storage_server \<times> outputs" where
  "client_dispatch now ss fd fs =
     (let command = fs ! 0 in
      if command = ''REQ_READ'' then handle_client_read now ss fd fs
      else if command = ''REQ_STREAM'' then handle_client_stream now ss fd fs
      else if command = ''REQ_WRITE_LOCK'' then handle_client_write_lock ss fd fs
      else if command = ''WRITE_DATA'' then handle_client_write_data ss fd fs
      else if command = ''ETIRW'' then handle_client_etirw now ss fd
      else if command = ''REQ_UNDO'' then handle_client_undo now ss fd fs
      else if command = ''REQ_CHECKPOINT'' then handle_client_checkpoint now ss fd fs
      else if command = ''REQ_VIEWCHECKPOINT'' then handle_client_viewcheckpoint now ss fd fs
      else if command = ''REQ_REVERT'' then handle_client_revert now ss fd fs
      else if command = ''REQ_LIST_CHECKPOINTS'' then handle_client_listcheckpoints now ss fd fs
      else (ss, send_error_response fd ERR_INVALID_REQUEST ''Unsupported command''))"

text \<open>\<open>client_thread\<close> on a list of \<open>recv\<close> results; the clock of the n-th request is
  \<open>clock n\<close>.  The thread ends when no message comes back.\<close>

lemma recv_loop_shorter: "recv_loop b rs = (Received m, rs') \<Longrightarrow> length rs' < length rs"
proof (induction rs arbitrary: b)
  case Nil
  then show ?case
    by (subst (asm) recv_loop.simps) (simp split: if_splits)
next
  case (Cons r rs)
  show ?case
    using Cons.prems
    by (subst (asm) recv_loop.simps) (auto split: if_splits recv_result.splits dest: Cons.IH)
qed

lemma receive_shorter: "protocol_receive_message fd rs = (Received m, rs') \<Longrightarrow> length rs' < length rs"
  by (auto simp: protocol_receive_message_def recv_loop_shorter split: if_splits)

function client_thread :: "(nat \<Rightarrow> int) \<Rightarrow> nat \<Rightarrow> storage_server \<Rightarrow> int \<Rightarrow> recv_result list \<Rightarrow> storage_server \<times> outputs" where
  "client_thread clock n ss fd rs =
     (if \<not> running ss then (ss_abort_session ss fd, [])
      else case protocol_receive_message fd rs of
        (Received raw, rs') \<Rightarrow>
          let (ss1, out1) = client_dispatch (clock n) ss fd (msg_fields (protocol_parse_message raw));
              (ss2, out2) = client_thread clock (n + 1) ss1 fd rs' in
          (ss2, out1 @ out2)
      | _ \<Rightarrow> (ss_abort_session ss fd, []))"
  by pat_completeness auto
termination
  by (relation "measure (\<lambda>(c, n, s, f, rs). length rs)") (auto dest: receive_shorter [OF sym])

declare client_thread.simps [simp del]

end
