(* ===== verification/Storage_Control.thy ===== *)
theory Storage_Control
  imports Storage_Handlers
begin

text \<open>
  The commands a storage server takes from the name server
  (\<open>ns_control_loop\<close>, \<open>handle_ss_copy\<close> and \<open>ss_emit_file_list\<close> in
  \<open>storage_server.c\<close>).  Start and shutdown are in \<open>Storage_Startup\<close>.

  What another storage server answers during a copy is a parameter: the
  connection is refused, the request cannot be sent, or it sends the given bytes
  and then closes.
\<close>

section \<open>Announcing the files\<close>


definition send_ns :: "storage_server \<Rightarrow> cstring list \<Rightarrow> outputs" where
  "send_ns ss fs = (if ns_sockfd ss < 0 then [] else send_fields To_ns fs)"

definition acl_field :: "cstring list \<Rightarrow> cstring" where
  "acl_field entries = (case ss_join_acl MAX_FIELD_SIZE entries of Some t \<Rightarrow> t | None \<Rightarrow> [])"

definition has_file_fields :: "disk \<Rightarrow> file_record \<Rightarrow> cstring list" where
  "has_file_fields d r =
     (let content = ss_read_file_content d (filepath r) in
      [''SS_HAS_FILE'', filename r, owner r, acl_field (read_users r), acl_field (write_users r),
       show_int (get_file_size d (filepath r)),
       show_int (case content of Some t \<Rightarrow> int (count_words t) | None \<Rightarrow> 0),
       show_int (case content of Some t \<Rightarrow> int (count_chars t) | None \<Rightarrow> 0)])"

definition ss_emit_file_list :: "storage_server \<Rightarrow> outputs" where
  "ss_emit_file_list ss =
     concat (map (\<lambda>r. send_ns ss (has_file_fields (ss_disk ss) r)) (ss_files ss)) @
     send_ns ss [''SS_FILES_DONE'']"

section \<open>Commands on files\<close>

definition ns_create_file :: "int \<Rightarrow> storage_server \<Rightarrow> cstring list \<Rightarrow> storage_server \<times> outputs" where
  "ns_create_file now ss fs =
     (if length fs < 3 then (ss, ss_send_ns_error ss ERR_INVALID_REQUEST ''CREATE_FILE missing fields'')
      else if \<not> validate_filename (fs ! 1) \<or> \<not> validate_username (fs ! 2) then
        (ss, ss_send_ns_error ss ERR_INVALID_REQUEST ''Invalid filename or owner'')
      else let (ss1, ok) = ss_create_file now ss (fs ! 1) (fs ! 2) in
        if \<not> ok then (ss1, ss_send_ns_error ss ERR_FILE_EXISTS ''File already exists'')
        else (ss1, send_ns ss [''OK_CREATE'', fs ! 1]))"

definition ns_delete_file :: "storage_server \<Rightarrow> cstring list \<Rightarrow> storage_server \<times> outputs" where
  "ns_delete_file ss fs =
     (if length fs < 2 then (ss, ss_send_ns_error ss ERR_INVALID_REQUEST ''DELETE_FILE missing filename'')
      else if \<not> validate_filename (fs ! 1) then
        (ss, ss_send_ns_error ss ERR_INVALID_REQUEST ''Invalid filename'')
      else let (ss1, delete_status) = ss_delete_file ss (fs ! 1) in
        if delete_status = -1 then (ss1, ss_send_ns_error ss ERR_FILE_NOT_FOUND ''File not found'')
        else if delete_status = -2 then (ss1, ss_send_ns_error ss ERR_SENTENCE_LOCKED ''File is locked for writing'')
        else (ss1, send_ns ss [''OK_DELETE'', fs ! 1]))"

definition ns_get_stats :: "storage_server \<Rightarrow> cstring list \<Rightarrow> storage_server \<times> outputs" where
  "ns_get_stats ss fs =
     (if length fs < 2 then (ss, ss_send_ns_error ss ERR_INVALID_REQUEST ''GET_STATS missing filename'')
      else case ss_find_file ss (fs ! 1) of
        None \<Rightarrow> (ss, ss_send_ns_error ss ERR_FILE_NOT_FOUND ''Stats target missing'')
      | Some r \<Rightarrow>
          let sz = get_file_size (ss_disk ss) (filepath r);
              content = ss_read_file_content (ss_disk ss) (filepath r);
              words = (case content of Some t \<Rightarrow> int (count_words t) | None \<Rightarrow> 0);
              chars = (case content of Some t \<Rightarrow> int (count_chars t) | None \<Rightarrow> 0) in
          (ss, send_ns ss [''OK_STATS'', filename r, owner r, show_int (if sz \<ge> 0 then sz else 0),
             show_int words, show_int chars, show_int (created r), show_int (modified r),
             show_int (last_access r), last_access_user r]))"

definition ns_get_content :: "storage_server \<Rightarrow> cstring list \<Rightarrow> storage_server \<times> outputs" where
  "ns_get_content ss fs =
     (if length fs < 2 then (ss, ss_send_ns_error ss ERR_INVALID_REQUEST ''GET_CONTENT missing filename'')
      else case ss_find_file ss (fs ! 1) of
        None \<Rightarrow> (ss, ss_send_ns_error ss ERR_FILE_NOT_FOUND ''Content file missing'')
      | Some r \<Rightarrow> (case ss_read_file_content (ss_disk ss) (filepath r) of
          None \<Rightarrow> (ss, ss_send_ns_error ss ERR_INTERNAL_ERROR ''Failed to read file'')
        | Some content \<Rightarrow> (ss, send_ns ss [''OK_CONTENT'', filename r, content])))"

definition ns_rename :: "int \<Rightarrow> storage_server \<Rightarrow> cstring list \<Rightarrow> storage_server \<times> outputs" where
  "ns_rename now ss fs =
     (if length fs < 5 then (ss, ss_send_ns_error ss ERR_INVALID_REQUEST ''SS_RENAME missing fields'')
      else if \<not> validate_filename (fs ! 1) \<or> \<not> validate_filename (fs ! 2) then
        (ss, ss_send_ns_error ss ERR_INVALID_REQUEST ''Invalid logical path'')
      else let (ss1, ok) = ss_handle_rename now ss (fs ! 1) (fs ! 2) (fs ! 3) (fs ! 4) in
        if \<not> ok then (ss1, ss_send_ns_error ss ERR_INTERNAL_ERROR ''Rename failed'')
        else (ss1, send_ns ss [''OK'']))"

section \<open>Commands on access lists\<close>

definition wants :: "char \<Rightarrow> char \<Rightarrow> cstring \<Rightarrow> bool" where
  "wants upper lower token \<longleftrightarrow> list_ex (\<lambda>c. c = upper \<or> c = lower) token"

text \<open>The update of the two lists: the record, whether each list grew, and whether it succeeded.\<close>

definition add_access :: "file_record \<Rightarrow> cstring \<Rightarrow> bool \<Rightarrow> bool \<Rightarrow> file_record \<times> bool \<times> bool \<times> bool" where
  "add_access r user want_read want_write =
     (let had_read = ss_acl_contains (read_users r) user;
          had_write = ss_acl_contains (write_users r) user;
          (reads, res_r) = (if want_read \<and> \<not> had_read then ss_acl_add (read_users r) user else (read_users r, 0));
          status1 = (res_r \<ge> 0);
          (writes, res_w) = (if status1 \<and> want_write \<and> \<not> had_write
                             then ss_acl_add (write_users r) user else (write_users r, 0)) in
      (r\<lparr>read_users := reads, write_users := writes\<rparr>, res_r > 0, res_w > 0, status1 \<and> res_w \<ge> 0))"

definition ns_add_access :: "storage_server \<Rightarrow> cstring list \<Rightarrow> storage_server \<times> outputs" where
  "ns_add_access ss fs =
     (if length fs < 4 then (ss, ss_send_ns_error ss ERR_INVALID_REQUEST ''ADDACCESS missing fields'')
      else let user = fs ! 2 in
      case ss_find_file ss (fs ! 1) of
        None \<Rightarrow> (ss, ss_send_ns_error ss ERR_FILE_NOT_FOUND ''File not found'')
      | Some r \<Rightarrow>
          let want_read = wants (CHR ''R'') (CHR ''r'') (fs ! 3);
              want_write = wants (CHR ''W'') (CHR ''w'') (fs ! 3) in
          if \<not> want_read \<and> \<not> want_write then
            (ss, ss_send_ns_error ss ERR_INVALID_REQUEST ''Invalid permission token'')
          else
            let (r1, added_read, added_write, status) = add_access r user want_read want_write;
                (d1, meta_ok) = (if status \<and> (added_read \<or> added_write)
                                 then ss_write_metadata (ss_disk ss) r1 else (ss_disk ss, True)) in
            if \<not> status \<or> \<not> meta_ok then
              let r2 = r1\<lparr>read_users := (if added_read then fst (ss_acl_remove (read_users r1) user) else read_users r1),
                          write_users := (if added_write then fst (ss_acl_remove (write_users r1) user)
                                          else write_users r1)\<rparr> in
              (put_record r2 (ss\<lparr>ss_disk := d1\<rparr>),
               ss_send_ns_error ss ERR_INTERNAL_ERROR ''Failed to update ACL metadata'')
            else (put_record r1 (ss\<lparr>ss_disk := d1\<rparr>), send_ns ss [''OK_ACCESS_CHANGED'', fs ! 1]))"

definition ns_rem_access :: "storage_server \<Rightarrow> cstring list \<Rightarrow> storage_server \<times> outputs" where
  "ns_rem_access ss fs =
     (if length fs < 3 then (ss, ss_send_ns_error ss ERR_INVALID_REQUEST ''REMACCESS missing fields'')
      else let user = fs ! 2 in
      case ss_find_file ss (fs ! 1) of
        None \<Rightarrow> (ss, ss_send_ns_error ss ERR_FILE_NOT_FOUND ''File not found'')
      | Some r \<Rightarrow>
          let (reads, removed_read) = ss_acl_remove (read_users r) user;
              (writes, removed_write) = ss_acl_remove (write_users r) user in
          if removed_read = 0 \<and> removed_write = 0 then
            (ss, ss_send_ns_error ss ERR_USER_NOT_FOUND ''User not present in ACL'')
          else
            let r1 = r\<lparr>read_users := reads, write_users := writes\<rparr>;
                (d1, ok) = ss_write_metadata (ss_disk ss) r1 in
            if \<not> ok then
              let r2 = r1\<lparr>read_users := (if removed_read \<noteq> 0 then fst (ss_acl_add reads user) else reads),
                          write_users := (if removed_write \<noteq> 0 then fst (ss_acl_add writes user) else writes)\<rparr> in
              (put_record r2 (ss\<lparr>ss_disk := d1\<rparr>),
               ss_send_ns_error ss ERR_INTERNAL_ERROR ''Failed to persist ACL metadata'')
            else (put_record r1 (ss\<lparr>ss_disk := d1\<rparr>), send_ns ss [''OK_ACCESS_CHANGED'', fs ! 1]))"

section \<open>Copying between servers\<close>

datatype peer_answer = Unreachable | Request_unsent | Stream "recv_result list"

type_synonym peer = "cstring \<Rightarrow> int \<Rightarrow> cstring option \<Rightarrow> peer_answer"

text \<open>A connection is the function from the request sent on it to the answer.  What a server that can be addressed does, the
  results of \<open>socket\<close> and \<open>connect\<close> included, is the parameter; an address or a port that is not one is refused
  here.  The port is cut to 16 bits.\<close>

definition ss_connect_to_peer :: "peer \<Rightarrow> cstring \<Rightarrow> int \<Rightarrow> cstring option \<Rightarrow> peer_answer" where
  "ss_connect_to_peer peer ip port =
     (if port \<le> 0 then (\<lambda>request. Unreachable)
      else if \<not> is_valid_ip ip then (\<lambda>request. Unreachable)
      else peer ip (port mod 65536))"

text \<open>The receiving loop of \<open>handle_ss_copy\<close>: \<open>acc\<close> is what the temporary file holds.  The
  result is the error to report, or \<open>None\<close> when \<open>OK_READ_END\<close> arrived.\<close>

function copy_stream :: "disk \<Rightarrow> cstring \<Rightarrow> cstring \<Rightarrow> recv_result list \<Rightarrow> cstring \<times> (int \<times> cstring) option" where
  "copy_stream d temp_path acc rs = (case protocol_receive_message 0 rs of
       (Received raw, rs') \<Rightarrow>
         let m = protocol_parse_message raw in
         if protocol_is_error m then
           let peer_code = protocol_get_error_code m in
           (acc, Some (if peer_code = ERR_FILE_NOT_FOUND then (ERR_FILE_NOT_FOUND, ''Source file not found'')
              else if peer_code = ERR_PERMISSION_DENIED then (ERR_PERMISSION_DENIED, ''Source access denied'')
              else (ERR_INTERNAL_ERROR, ''Source server rejected COPY'')))
         else if msg_fields m ! 0 = ''OK_CONTENT'' \<and> field_count m \<ge> 2 then
           let chunk = msg_fields m ! 1 in
           if fits d temp_path (acc @ chunk) \<noteq> acc @ chunk then
             (fits d temp_path (acc @ chunk), Some (ERR_INTERNAL_ERROR, ''Failed to persist stream chunk''))
           else copy_stream d temp_path (acc @ chunk) rs'
         else if msg_fields m ! 0 = ''OK_READ_END'' then (acc, None)
         else copy_stream d temp_path acc rs'
     | _ \<Rightarrow> (acc, Some (ERR_INTERNAL_ERROR, ''Connection dropped during COPY'')))"
  by pat_completeness auto
termination
  by (relation "measure (\<lambda>(d, p, a, rs). length rs)") (auto dest: receive_shorter [OF sym])

declare copy_stream.simps [simp del]

definition fetch_remote :: "peer \<Rightarrow> disk \<Rightarrow> cstring \<Rightarrow> cstring \<Rightarrow> int \<Rightarrow> cstring \<Rightarrow> cstring \<Rightarrow>
    disk \<times> (int \<times> cstring) option" where
  "fetch_remote peer d temp_path src_ip src_port user src_filename =
     (case ss_connect_to_peer peer src_ip src_port (protocol_build_message (map Some [''REQ_READ'', user, src_filename])) of
        Unreachable \<Rightarrow> (d, Some (ERR_INTERNAL_ERROR, ''Failed to reach source server''))
      | Request_unsent \<Rightarrow> (d, Some (ERR_INTERNAL_ERROR, ''Failed to request source content''))
      | Stream rs \<Rightarrow> (case ss_open_truncating_binary d temp_path of
          None \<Rightarrow> (d, Some (ERR_INTERNAL_ERROR, ''Failed to create temporary file''))
        | Some d1 \<Rightarrow>
            let (acc, err) = copy_stream d1 temp_path [] rs;
                d2 = d1\<lparr>dk_files := (dk_files d1)(temp_path \<mapsto> acc)\<rparr> in
            if err \<noteq> None then (fst (disk_unlink d2 temp_path), err) else (d2, None)))"

text \<open>Filling the temporary file, from a local source (\<open>Some\<close>) or from the peer, and
  moving it over the destination.\<close>

definition fill_and_move :: "peer \<Rightarrow> disk \<Rightarrow> cstring \<Rightarrow> cstring \<Rightarrow> cstring option \<Rightarrow> cstring \<Rightarrow> int \<Rightarrow> cstring \<Rightarrow>
    cstring \<Rightarrow> disk \<times> (int \<times> cstring) option" where
  "fill_and_move peer d temp_path dest_path src_path src_ip src_port user src_filename =
     (let d0 = fst (disk_unlink d temp_path);
          (d1, err) = (case src_path of
              Some p \<Rightarrow> let (d', ok) = ss_copy_file d0 p temp_path in
                (d', if ok then None else Some (ERR_INTERNAL_ERROR, ''Failed to clone local source file''))
            | None \<Rightarrow> fetch_remote peer d0 temp_path src_ip src_port user src_filename) in
      if err = None then
        let (d', ok) = disk_rename d1 temp_path dest_path in
        (d', if ok then None else Some (ERR_INTERNAL_ERROR, ''Failed to finalize destination file''))
      else (d1, err))"

definition handle_ss_copy :: "peer \<Rightarrow> int \<Rightarrow> storage_server \<Rightarrow> cstring list \<Rightarrow> storage_server \<times> outputs" where
  "handle_ss_copy peer now ss fs =
     (if length fs < 6 then (ss, ss_send_ns_error ss ERR_INVALID_REQUEST ''SS_COPY missing fields'')
      else let dest_filename = fs ! 1; src_ip = fs ! 2; src_filename = fs ! 4; user = fs ! 5 in
      if \<not> validate_filename dest_filename \<or> \<not> validate_filename src_filename \<or> \<not> validate_username user then
        (ss, ss_send_ns_error ss ERR_INVALID_REQUEST ''Invalid COPY request payload'')
      else
        let source_is_local = (src_ip = ''LOCAL'');
            port = (if source_is_local then Some 0
                    else case parse_int (fs ! 3) of None \<Rightarrow> None
                         | Some p \<Rightarrow> if p \<le> 0 then None else Some p) in
        case port of
          None \<Rightarrow> (ss, ss_send_ns_error ss ERR_INVALID_REQUEST ''Invalid source endpoint'')
        | Some src_port \<Rightarrow> (case ss_find_file ss dest_filename of
            None \<Rightarrow> (ss, ss_send_ns_error ss ERR_FILE_NOT_FOUND ''Destination file not found'')
          | Some dest \<Rightarrow>
              let src = (if source_is_local then ss_find_file ss src_filename else None) in
              if source_is_local \<and> src = None then
                (ss, ss_send_ns_error ss ERR_FILE_NOT_FOUND ''Source file not found'')
              else if ss_file_has_active_writers ss dest then
                (ss, ss_send_ns_error ss ERR_SENTENCE_LOCKED ''Destination locked for writing'')
              else if source_is_local \<and> ss_file_has_active_writers ss (the src) then
                (ss, ss_send_ns_error ss ERR_SENTENCE_LOCKED ''Source locked for writing'')
              else
                let temp_path = bounded_copy MAX_PATH_LENGTH (filepath dest @ ''.copytmp'');
                    (d1, err) = fill_and_move peer (ss_disk ss) temp_path (filepath dest)
                      (map_option filepath src) src_ip src_port user src_filename in
                case err of
                  Some (code, text) \<Rightarrow>
                    (ss\<lparr>ss_disk := fst (disk_unlink d1 temp_path)\<rparr>, ss_send_ns_error ss code text)
                | None \<Rightarrow>
                    let ss1 = ss_touch_file_metadata now (ss\<lparr>ss_disk := d1\<rparr>) dest (Some user) True in
                    (ss1, ss_sync_metadata_to_ns ss1 dest @ send_ns ss [''OK'', ''Copy successful''])))"

section \<open>Dispatch\<close>

definition ns_dispatch :: "peer \<Rightarrow> int \<Rightarrow> storage_server \<Rightarrow> cstring list \<Rightarrow> storage_server \<times> outputs" where
  "ns_dispatch peer now ss fs =
     (let command = fs ! 0 in
      if command = ''CREATE_FILE'' then ns_create_file now ss fs
      else if command = ''DELETE_FILE'' then ns_delete_file ss fs
      else if command = ''GET_STATS'' then ns_get_stats ss fs
      else if command = ''GET_CONTENT'' then ns_get_content ss fs
      else if command = ''SS_RENAME'' then ns_rename now ss fs
      else if command = ''SS_ADDACCESS'' then ns_add_access ss fs
      else if command = ''SS_REMACCESS'' then ns_rem_access ss fs
      else if command = ''SS_COPY'' then handle_ss_copy peer now ss fs
      else (ss, []))"

function ns_control_loop :: "peer \<Rightarrow> (nat \<Rightarrow> int) \<Rightarrow> nat \<Rightarrow> storage_server \<Rightarrow> recv_result list \<Rightarrow> storage_server \<times> outputs" where
  "ns_control_loop peer clock n ss rs =
     (if \<not> running ss then (ss, [])
      else case protocol_receive_message (ns_sockfd ss) rs of
        (Received raw, rs') \<Rightarrow>
          let (ss1, out1) = ns_dispatch peer (clock n) ss (msg_fields (protocol_parse_message raw));
              (ss2, out2) = ns_control_loop peer clock (n + 1) ss1 rs' in
          (ss2, out1 @ out2)
      | _ \<Rightarrow> (ss\<lparr>running := False\<rparr>, []))"
  by pat_completeness auto
termination
  by (relation "measure (\<lambda>(p, c, n, s, rs). length rs)") (auto dest: receive_shorter [OF sym])

declare ns_control_loop.simps [simp del]

end
