(* ===== verification/Storage_Invariant.thy ===== *)
theory Storage_Invariant
  imports Storage_Control
begin

text \<open>
  The storage server as a state machine.  A step is a client request, a
  command of the name server or the end of a connection.  The steps are restricted to requests whose
  file names do not collide on disk (\<open>client_ok\<close>, \<open>ns_ok\<close>): the code does not
  test for collisions.  The invariant \<open>ss_inv\<close> of the write sessions holds in every
  reachable state.
\<close>

section \<open>Requests without name collisions\<close>

definition content_paths :: "storage_server \<Rightarrow> cstring list" where
  "content_paths ss = map filepath (ss_files ss)"

definition sidecar_paths :: "storage_server \<Rightarrow> cstring list" where
  "sidecar_paths ss = concat (map sidecars (ss_files ss))"

definition checkpoint_ok :: "int \<Rightarrow> storage_server \<Rightarrow> cstring list \<Rightarrow> bool" where
  "checkpoint_ok now ss fs \<longleftrightarrow> (case ss_find_file ss (fs ! 2) of None \<Rightarrow> True
     | Some r \<Rightarrow> storage_path ss @ ''/'' @ checkpoint_name now r
           (trim_string (bounded_copy MAX_TAG_LENGTH (fs ! 3))) \<notin> set (content_paths ss))"

definition client_ok :: "int \<Rightarrow> storage_server \<Rightarrow> cstring list \<Rightarrow> bool" where
  "client_ok now ss fs \<longleftrightarrow> (if fs ! 0 = ''REQ_CHECKPOINT'' then checkpoint_ok now ss fs else True)"

definition create_ok :: "storage_server \<Rightarrow> cstring \<Rightarrow> bool" where
  "create_ok ss fname \<longleftrightarrow> (let r = ss_init_file_record (storage_path ss) (next_addr ss) fname in
     filepath r \<notin> set (content_paths ss) \<and> filepath r \<notin> set (sidecar_paths ss) \<and>
     filepath r \<noteq> metapath r \<and> filepath r \<noteq> undopath r \<and>
     metapath r \<notin> set (content_paths ss) \<and> undopath r \<notin> set (content_paths ss))"

definition copy_ok :: "storage_server \<Rightarrow> cstring list \<Rightarrow> bool" where
  "copy_ok ss fs \<longleftrightarrow> (case ss_find_file ss (fs ! 1) of None \<Rightarrow> True
     | Some r \<Rightarrow> bounded_copy MAX_PATH_LENGTH (filepath r @ ''.copytmp'') \<notin> set (content_paths ss))"

definition rename_ok :: "storage_server \<Rightarrow> cstring \<Rightarrow> cstring \<Rightarrow> cstring \<Rightarrow> bool" where
  "rename_ok ss fname old_flat new_flat \<longleftrightarrow> (case ss_find_file ss fname of None \<Rightarrow> True
     | Some r \<Rightarrow> (case (build_path MAX_PATH_LENGTH (storage_path ss) old_flat,
                       build_path MAX_PATH_LENGTH (storage_path ss) new_flat) of
         (Some p, Some q) \<Rightarrow>
           let others = filter (\<lambda>x. rec_addr x \<noteq> rec_addr r) (ss_files ss);
               aux = map (bounded_copy MAX_PATH_LENGTH)
                 [p @ SS_META_SUFFIX, q @ SS_META_SUFFIX, p @ SS_UNDO_SUFFIX, q @ SS_UNDO_SUFFIX] in
           p = filepath r \<and> list_all (\<lambda>x. filepath x \<noteq> q \<and> q \<notin> set (sidecars x) \<and> filepath x \<notin> set aux) others \<and>
           q \<notin> set aux \<and> p \<notin> set aux \<and> q \<notin> set (map ck_path (checkpoints r))
       | _ \<Rightarrow> True))"

definition ns_ok :: "storage_server \<Rightarrow> cstring list \<Rightarrow> bool" where
  "ns_ok ss fs \<longleftrightarrow>
     (if fs ! 0 = ''CREATE_FILE'' then create_ok ss (fs ! 1)
      else if fs ! 0 = ''SS_RENAME'' then rename_ok ss (fs ! 1) (fs ! 3) (fs ! 4)
      else if fs ! 0 = ''SS_COPY'' then copy_ok ss fs
      else True)"

inductive ss_step :: "peer \<Rightarrow> storage_server \<Rightarrow> storage_server \<Rightarrow> bool" for peer where
  Client: "client_ok now ss fs \<Longrightarrow> ss_step peer ss (fst (client_dispatch now ss fd fs))"
| Command: "ns_ok ss fs \<Longrightarrow> ss_step peer ss (fst (ns_dispatch peer now ss fs))"
| Disconnect: "ss_step peer ss (ss_abort_session ss fd)"

inductive ss_reachable :: "peer \<Rightarrow> storage_server \<Rightarrow> storage_server \<Rightarrow> bool" for peer ss0 where
  Start: "ss_reachable peer ss0 ss0"
| Step: "ss_reachable peer ss0 ss \<Longrightarrow> ss_step peer ss ss' \<Longrightarrow> ss_reachable peer ss0 ss'"

inductive_cases ss_stepE: "ss_step peer ss ss'"

section \<open>Lemmas: what a handler may do\<close>

lemma inv_parts: "ss_inv ss \<Longrightarrow> records_wf ss" "ss_inv ss \<Longrightarrow> sessions_wf ss" "ss_inv ss \<Longrightarrow> roomy ss"
  by (simp_all add: ss_inv_def)

lemma session_has_writer:
  "s \<in> set (sessions ss) \<Longrightarrow> get_record ss (sess_file s) = Some r \<Longrightarrow> ss_file_has_active_writers ss r"
  using get_record_Some [of ss "sess_file s" r]
  by (auto simp: ss_file_has_active_writers_def list_ex_iff)

text \<open>Changing the disk but not the contents of files that are being written.\<close>

lemma disk_inv:
  assumes inv: "ss_inv ss"
    and same: "\<And>r. r \<in> set (ss_files ss) \<Longrightarrow> ss_file_has_active_writers ss r \<Longrightarrow>
      dk_files d (filepath r) = dk_files (ss_disk ss) (filepath r)"
    and lim: "dk_limit d = dk_limit (ss_disk ss)"
  shows "ss_inv (ss\<lparr>ss_disk := d\<rparr>)"
proof -
  have get: "get_record (ss\<lparr>ss_disk := d\<rparr>) = get_record ss"
    by (rule get_record_cong) simp
  have ft: "file_text (ss\<lparr>ss_disk := d\<rparr>) (sess_file s) = file_text ss (sess_file s)"
    if "s \<in> set (sessions ss)" for s
    using same session_has_writer [OF that]
    by (auto simp: file_text_def get split: option.splits dest: get_record_Some)
  have "sessions_wf (ss\<lparr>ss_disk := d\<rparr>)"
    by (rule sessions_wf_frame [OF inv_parts(2) [OF inv]]) (simp_all add: ft)
  moreover have "records_wf (ss\<lparr>ss_disk := d\<rparr>)"
    by (rule records_wf_cong [OF _ _ inv_parts(1) [OF inv]]) simp_all
  ultimately show ?thesis
    using inv lim by (simp add: ss_inv_def roomy_def)
qed

lemma put_record_inv:
  assumes inv: "ss_inv ss" and r: "r \<in> set (ss_files ss)"
    and r': "rec_addr r' = rec_addr r" "filepath r' = filepath r"
      "\<forall>q\<in>set (ss_files ss). filepath q \<notin> set (sidecars r')"
  shows "ss_inv (put_record r' ss)"
proof -
  have wf: "records_wf (put_record r' ss)"
    by (rule records_wf_put [OF inv_parts(1) [OF inv] r r'])
  have "get_record ss (rec_addr r) = Some r"
    using inv r by (simp add: ss_inv_def records_wf_def get_record_in)
  then have ft: "file_text (put_record r' ss) a = file_text ss a" for a
    using r' by (simp add: file_text_def get_put_record split: option.split)
  have "sessions_wf (put_record r' ss)"
    by (rule sessions_wf_frame [OF inv_parts(2) [OF inv]]) (simp_all add: ft)
  then show ?thesis
    using wf inv by (simp add: ss_inv_def roomy_def)
qed

lemma meta_disk_inv:
  assumes "ss_inv ss" "\<forall>q\<in>set (ss_files ss). filepath q \<noteq> metapath r"
  shows "ss_inv (ss\<lparr>ss_disk := fst (ss_write_metadata (ss_disk ss) r)\<rparr>)"
  using assms by (intro disk_inv) (simp_all add: write_metadata_frame write_metadata_rest)

lemma touch_inv:
  assumes inv: "ss_inv ss" and r: "r \<in> set (ss_files ss)"
    and r': "rec_addr r' = rec_addr r" "filepath r' = filepath r"
      "\<forall>q\<in>set (ss_files ss). filepath q \<notin> set (sidecars r')"
  shows "ss_inv (ss_touch_file_metadata n ss r' u b)"
proof -
  let ?t = "touch_record n u b r'"
  have p: "ss_inv (put_record ?t ss)"
    using r' by (intro put_record_inv [OF inv r]) auto
  have "filepath ` set (ss_files (put_record ?t ss)) \<subseteq> filepath ` set (ss_files ss)"
    using r r' by (auto simp: put_record_def)
  then have "\<forall>q\<in>set (ss_files (put_record ?t ss)). filepath q \<noteq> metapath ?t"
    using r'(3) by (fastforce simp: sidecars_def)
  then have "ss_inv ((put_record ?t ss)\<lparr>ss_disk := fst (ss_write_metadata (ss_disk (put_record ?t ss)) ?t)\<rparr>)"
    by (rule meta_disk_inv [OF p])
  then show ?thesis
    by (simp add: ss_touch_file_metadata_def Let_def)
qed

lemma own_sidecars:
  "ss_inv ss \<Longrightarrow> r \<in> set (ss_files ss) \<Longrightarrow> \<forall>q\<in>set (ss_files ss). filepath q \<notin> set (sidecars r)"
  by (auto simp: ss_inv_def records_wf_def list_all_iff)

lemma touch_same_inv:
  assumes "ss_inv ss" "r \<in> set (ss_files ss)"
  shows "ss_inv (ss_touch_file_metadata n ss r u b)"
  using assms own_sidecars [OF assms] by (intro touch_inv) auto

lemma locate_inv:
  assumes "ss_inv ss" "\<And>r. ss_find_file ss f = Some r \<Longrightarrow> r \<in> set (ss_files ss) \<Longrightarrow> ss_inv (fst (body r))"
  shows "ss_inv (fst (locate ss fd f allowed refusal body))"
  using assms by (auto simp: locate_def split: option.splits dest: ss_find_file_Some)

text \<open>Overwriting the content of a file nobody writes.\<close>

lemma quiet_disk_inv:
  assumes inv: "ss_inv ss" and r: "r \<in> set (ss_files ss)" "\<not> ss_file_has_active_writers ss r"
    and frame: "\<And>q. q \<in> set (ss_files ss) \<Longrightarrow> filepath q \<noteq> filepath r \<Longrightarrow>
      dk_files d (filepath q) = dk_files (ss_disk ss) (filepath q)"
    and lim: "dk_limit d = dk_limit (ss_disk ss)"
  shows "ss_inv (ss\<lparr>ss_disk := d\<rparr>)"
proof (rule disk_inv [OF inv _ lim])
  fix q assume q: "q \<in> set (ss_files ss)" "ss_file_has_active_writers ss q"
  have "q \<noteq> r"
    using q r by auto
  then have "filepath q \<noteq> filepath r"
    using inv q r by (auto simp: ss_inv_def records_wf_def distinct_map inj_on_def)
  then show "dk_files d (filepath q) = dk_files (ss_disk ss) (filepath q)"
    by (rule frame [OF q(1)])
qed

section \<open>Lemmas: client handlers\<close>

lemma read_inv: "ss_inv ss \<Longrightarrow> ss_inv (fst (handle_client_read now ss fd fs))"
  by (auto simp: handle_client_read_def Let_def intro!: locate_inv touch_same_inv split: option.splits)

lemma stream_inv: "ss_inv ss \<Longrightarrow> ss_inv (fst (handle_client_stream now ss fd fs))"
  by (auto simp: handle_client_stream_def Let_def intro!: locate_inv touch_same_inv split: option.splits)

lemma listcheckpoints_inv: "ss_inv ss \<Longrightarrow> ss_inv (fst (handle_client_listcheckpoints now ss fd fs))"
  by (auto simp: handle_client_listcheckpoints_def Let_def intro!: locate_inv touch_same_inv)

lemma viewcheckpoint_inv: "ss_inv ss \<Longrightarrow> ss_inv (fst (handle_client_viewcheckpoint now ss fd fs))"
  by (auto simp: handle_client_viewcheckpoint_def Let_def intro!: locate_inv touch_same_inv split: option.splits)

lemma undo_inv:
  assumes inv: "ss_inv ss"
  shows "ss_inv (fst (handle_client_undo now ss fd fs))"
proof -
  have d: "ss_inv (ss\<lparr>ss_disk := d1\<rparr>)"
    if "r \<in> set (ss_files ss)" "\<not> ss_file_has_active_writers ss r"
      "ss_write_file_content (ss_disk ss) (filepath r) t = (d1, ok)" for r t d1 ok
    using that write_content_rest [OF that(3)]
    by (intro quiet_disk_inv [OF inv that(1,2)]) (simp_all add: write_content_frame)
  have "ss_inv (ss_touch_file_metadata now (ss\<lparr>ss_disk := d1\<rparr>) (r\<lparr>undo_available := 0\<rparr>) u True)"
    if "r \<in> set (ss_files ss)" "\<not> ss_file_has_active_writers ss r"
      "ss_write_file_content (ss_disk ss) (filepath r) t = (d1, ok)" for r t d1 ok u
    using own_sidecars [OF inv that(1)] that(1) by (intro touch_inv [OF d [OF that], of r]) simp_all
  then show ?thesis
    using inv d by (auto simp: handle_client_undo_def Let_def intro!: locate_inv split: option.splits prod.splits)
qed

lemma revert_inv:
  assumes inv: "ss_inv ss"
  shows "ss_inv (fst (handle_client_revert now ss fd fs))"
proof -
  have und: "filepath q \<noteq> undopath r" if "q \<in> set (ss_files ss)" "r \<in> set (ss_files ss)" for q r
    using sidecar_not_content [OF inv_parts(1) [OF inv] that] by (simp add: sidecars_def)
  have 1: "ss_inv (ss\<lparr>ss_disk := d1\<rparr>)"
    if "r \<in> set (ss_files ss)" "\<not> ss_file_has_active_writers ss r"
      "ss_copy_file (ss_disk ss) (filepath r) (undopath r) = (d1, ok1)" for r d1 ok1
    using that und copy_file_rest [OF that(3)]
    by (intro quiet_disk_inv [OF inv that(1,2)]) (simp_all add: copy_file_frame)
  have 2: "ss_inv (ss\<lparr>ss_disk := d2\<rparr>)"
    if "r \<in> set (ss_files ss)" "\<not> ss_file_has_active_writers ss r"
      "ss_copy_file (ss_disk ss) (filepath r) (undopath r) = (d1, ok1)"
      "ss_copy_file d1 p (filepath r) = (d2, ok2)" for r d1 ok1 d2 ok2 p
    using that und copy_file_rest [OF that(3)] copy_file_rest [OF that(4)]
      copy_file_frame [OF that(3)] copy_file_frame [OF that(4)]
    by (intro quiet_disk_inv [OF inv that(1,2)]) simp_all
  have 3: "ss_inv (ss\<lparr>ss_disk := fst (ss_copy_file d2 (undopath r) (filepath r))\<rparr>)"
    if "r \<in> set (ss_files ss)" "\<not> ss_file_has_active_writers ss r"
      "ss_copy_file (ss_disk ss) (filepath r) (undopath r) = (d1, ok1)"
      "ss_copy_file d1 p (filepath r) = (d2, ok2)" for r d1 ok1 d2 ok2 p
  proof -
    obtain d3 ok3 where c: "ss_copy_file d2 (undopath r) (filepath r) = (d3, ok3)"
      by (cases "ss_copy_file d2 (undopath r) (filepath r)")
    then show ?thesis
      using that und copy_file_rest [OF that(3)] copy_file_rest [OF that(4)] copy_file_rest [OF c]
        copy_file_frame [OF that(3)] copy_file_frame [OF that(4)] copy_file_frame [OF c]
      by (simp, intro quiet_disk_inv [OF inv that(1,2)]) simp_all
  qed
  have 4: "ss_inv (ss_touch_file_metadata now (ss\<lparr>ss_disk := d2\<rparr>) (r\<lparr>undo_available := 1\<rparr>) u True)"
    if "r \<in> set (ss_files ss)" "\<not> ss_file_has_active_writers ss r"
      "ss_copy_file (ss_disk ss) (filepath r) (undopath r) = (d1, ok1)"
      "ss_copy_file d1 p (filepath r) = (d2, ok2)" for r d1 ok1 d2 ok2 p u
    using own_sidecars [OF inv that(1)] that(1) by (intro touch_inv [OF 2 [OF that], of r]) simp_all
  show ?thesis
    using inv 1 2 3 4
    by (auto simp: handle_client_revert_def Let_def intro!: locate_inv split: option.splits prod.splits)
qed

lemma prune_simps:
  "ss_prune_oldest_checkpoint r d = (r1, d1) \<Longrightarrow>
     rec_addr r1 = rec_addr r \<and> filepath r1 = filepath r \<and> set (sidecars r1) \<subseteq> set (sidecars r) \<and>
     dk_limit d1 = dk_limit d \<and> checkpoints r1 = tl (checkpoints r)"
  by (auto simp: ss_prune_oldest_checkpoint_def sidecars_def unlink_rest split: list.splits if_splits)

lemma prune_frame:
  "ss_prune_oldest_checkpoint r d = (r1, d1) \<Longrightarrow> p \<notin> set (sidecars r) \<Longrightarrow> dk_files d1 p = dk_files d p"
  by (auto simp: ss_prune_oldest_checkpoint_def sidecars_def unlink_frame split: list.splits if_splits)

lemma sidecars_add: "set (sidecars (r\<lparr>checkpoints := checkpoints r @ [c]\<rparr>)) = insert (ck_path c) (set (sidecars r))"
  by (auto simp: sidecars_def)

lemma safe_strcpy_tag [simp]: "safe_strcpy MAX_TAG_LENGTH s = Some (bounded_copy MAX_TAG_LENGTH s)"
  by (simp add: safe_strcpy_def MAX_TAG_LENGTH_def)

lemma unlink_disk_inv:
  assumes "ss_inv (ss\<lparr>ss_disk := d\<rparr>)" "p \<notin> set (content_paths ss)"
  shows "ss_inv (ss\<lparr>ss_disk := fst (disk_unlink d p)\<rparr>)"
proof -
  have "ss_inv ((ss\<lparr>ss_disk := d\<rparr>)\<lparr>ss_disk := fst (disk_unlink d p)\<rparr>)"
    using assms(2) by (intro disk_inv [OF assms(1)]) (auto simp: content_paths_def unlink_rest intro!: unlink_frame)
  then show ?thesis
    by simp
qed

lemma checkpoint_inv:
  assumes inv: "ss_inv ss" and ok: "checkpoint_ok now ss fs"
  shows "ss_inv (fst (handle_client_checkpoint now ss fd fs))"
proof -
  let ?tag = "trim_string (bounded_copy MAX_TAG_LENGTH (fs ! 3))"
  have copy: "ss_inv (ss\<lparr>ss_disk := d1\<rparr>)"
    if "p \<notin> set (content_paths ss)" "ss_copy_file (ss_disk ss) q p = (d1, c)" for d1 c p q
    using that copy_file_rest [OF that(2)]
    by (intro disk_inv [OF inv]) (auto simp: content_paths_def intro!: copy_file_frame)
  have fin: "ss_inv (ss_touch_file_metadata now (ss\<lparr>ss_disk := d2\<rparr>)
      (r1\<lparr>checkpoints := checkpoints r1 @ [\<lparr>ck_tag = t, ck_path = p\<rparr>]\<rparr>) u False)"
    if r: "r \<in> set (ss_files ss)" and p: "p \<notin> set (content_paths ss)"
      and c: "ss_copy_file (ss_disk ss) (filepath r) p = (d1, c)"
      and pr: "(r1, d2) = (if b then ss_prune_oldest_checkpoint r d1 else (r, d1))" for r p d1 c r1 d2 b t u
  proof -
    have same: "rec_addr r1 = rec_addr r" "filepath r1 = filepath r" "set (sidecars r1) \<subseteq> set (sidecars r)"
        "dk_limit d2 = dk_limit d1"
      using prune_simps [of r d1 r1 d2] pr by (auto split: if_splits)
    have fr: "dk_files d2 (filepath q) = dk_files d1 (filepath q)" if "q \<in> set (ss_files ss)" for q
      using prune_frame [of r d1 r1 d2] own_sidecars [OF inv r] that pr by (auto split: if_splits)
    have "ss_inv ((ss\<lparr>ss_disk := d1\<rparr>)\<lparr>ss_disk := d2\<rparr>)"
      using same(4) fr by (intro disk_inv [OF copy [OF p c]]) simp_all
    then have i2: "ss_inv (ss\<lparr>ss_disk := d2\<rparr>)"
      by simp
    have "\<forall>q\<in>set (ss_files ss). filepath q \<notin> insert p (set (sidecars r1))"
      using same(3) own_sidecars [OF inv r] p by (auto simp: content_paths_def)
    then show ?thesis
      using same r by (intro touch_inv [OF i2, of r]) (simp_all only: sidecars_add, simp_all)
  qed
  show ?thesis
    unfolding handle_client_checkpoint_def Let_def safe_strcpy_tag option.case
  proof (simp add: inv, intro impI, rule locate_inv [OF inv], goal_cases)
    case (1 r)
    let ?p = "storage_path ss @ ''/'' @ checkpoint_name now r ?tag"
    obtain d1 c where c: "ss_copy_file (ss_disk ss) (filepath r) ?p = (d1, c)"
      by (cases "ss_copy_file (ss_disk ss) (filepath r) ?p")
    have np: "?p \<notin> set (content_paths ss)"
      using ok 1 by (simp add: checkpoint_ok_def)
    let ?b = "length (checkpoints r) \<ge> SS_MAX_CHECKPOINTS"
    obtain r1 d2 where pr: "(r1, d2) = (if ?b then ss_prune_oldest_checkpoint r d1 else (r, d1))"
      by (metis surj_pair)
    show ?case
      using inv unlink_disk_inv [OF copy [OF np c] np] fin [OF 1(4) np c pr] c pr [symmetric]
      by (auto simp: build_path_def Let_def bounded_copy_id)
  qed
qed

section \<open>Lemmas: commands of the name server\<close>

lemma session_addr_bound:
  assumes "ss_inv ss" "s \<in> set (sessions ss)"
  shows "sess_file s < next_addr ss"
proof -
  obtain r where "get_record ss (sess_file s) = Some r" "r \<in> set (ss_files ss)"
    using session_record [OF assms] .
  then show ?thesis
    using assms(1) get_record_Some by (fastforce simp: ss_inv_def records_wf_def list_all_iff)
qed

lemma bump_addr_inv: "ss_inv ss \<Longrightarrow> ss_inv (ss\<lparr>next_addr := next_addr ss + 1\<rparr>)"
proof -
  assume inv: "ss_inv ss"
  have "file_text (ss\<lparr>next_addr := next_addr ss + 1\<rparr>) = file_text ss"
    by (rule file_text_cong) simp_all
  then have "sessions_wf (ss\<lparr>next_addr := next_addr ss + 1\<rparr>)"
    by (intro sessions_wf_frame [OF inv_parts(2) [OF inv]]) simp_all
  then show ?thesis
    using inv records_wf_cong [of "ss\<lparr>next_addr := next_addr ss + 1\<rparr>" ss]
    by (simp add: ss_inv_def roomy_def)
qed

lemma add_record_inv:
  assumes inv: "ss_inv ss" and a: "rec_addr r = next_addr ss"
    and fresh: "filepath r \<notin> set (content_paths ss)" "filepath r \<notin> set (sidecar_paths ss)"
      "filepath r \<notin> set (sidecars r)" "\<forall>q\<in>set (ss_files ss). filepath q \<notin> set (sidecars r)"
    and d: "\<And>q. q \<in> set (ss_files ss) \<Longrightarrow> dk_files d (filepath q) = dk_files (ss_disk ss) (filepath q)"
      "dk_limit d = dk_limit (ss_disk ss)"
  shows "ss_inv (ss\<lparr>next_addr := next_addr ss + 1, ss_files := r # ss_files ss, ss_disk := d\<rparr>)" (is "ss_inv ?n")
proof -
  note wf = inv_parts(1) [OF inv]
  have "next_addr ss \<notin> rec_addr ` set (ss_files ss)"
    using wf by (auto simp: records_wf_def list_all_iff)
  then have "records_wf ?n"
    using wf a fresh
    by (auto simp: records_wf_def list_all_iff content_paths_def sidecar_paths_def less_Suc_eq)
  moreover have "file_text ?n (sess_file s) = file_text ss (sess_file s)" if "s \<in> set (sessions ss)" for s
    using session_addr_bound [OF inv that] a d(1)
    by (auto simp: file_text_def get_record_def split: option.splits dest: find_SomeD)
  then have "sessions_wf ?n"
    by (intro sessions_wf_frame [OF inv_parts(2) [OF inv]]) simp_all
  ultimately show ?thesis
    using inv d(2) by (simp add: ss_inv_def roomy_def)
qed

lemma init_record_simps [simp]:
  "rec_addr (ss_init_file_record p a f) = a" "checkpoints (ss_init_file_record p a f) = []"
  by (simp_all add: ss_init_file_record_def ss_set_record_paths_def empty_record_def Let_def)

lemma in_content_paths: "q \<in> set (ss_files ss) \<Longrightarrow> filepath q \<in> set (content_paths ss)"
  by (simp add: content_paths_def)

lemma create_file_inv:
  assumes inv: "ss_inv ss" and ok: "create_ok ss fname"
  shows "ss_inv (fst (ss_create_file now ss fname ownr))"
proof -
  let ?r0 = "ss_init_file_record (storage_path ss) (next_addr ss) fname"
  define r where "r = ?r0\<lparr>owner := bounded_copy MAX_USERNAME_LENGTH ownr,
      last_access_user := bounded_copy MAX_USERNAME_LENGTH ownr, created := now, modified := now,
      last_access := now, undo_available := 0, read_users := [], write_users := []\<rparr>"
  have paths: "filepath r = filepath ?r0" "metapath r = metapath ?r0" "undopath r = undopath ?r0"
      "rec_addr r = next_addr ss" "checkpoints r = []"
    by (simp_all add: r_def)
  then have sc: "set (sidecars r) = {metapath ?r0, undopath ?r0}"
    by (auto simp: sidecars_def)
  have nosc: "\<forall>q\<in>set (ss_files ss). filepath q \<notin> set (sidecars r)"
    using ok in_content_paths by (fastforce simp: create_ok_def Let_def sc)
  have "ss_inv (ss\<lparr>next_addr := next_addr ss + 1, ss_files := r # ss_files ss,
      ss_disk := fst (ss_write_metadata d1 r)\<rparr>)" if o: "fopen_trunc (ss_disk ss) (filepath r) = Some d1" for d1
  proof (rule add_record_inv [OF inv paths(4)])
    fix q assume q: "q \<in> set (ss_files ss)"
    have "filepath q \<noteq> metapath r" "filepath q \<noteq> filepath r"
      using in_content_paths [OF q] ok paths by (auto simp: create_ok_def Let_def)
    then show "dk_files (fst (ss_write_metadata d1 r)) (filepath q) = dk_files (ss_disk ss) (filepath q)"
      using o by (auto simp: write_metadata_frame fopen_trunc_def split: if_splits)
  qed (use ok paths sc nosc o in \<open>auto simp: create_ok_def Let_def write_metadata_rest
        fopen_trunc_def split: if_splits\<close>)
  then show ?thesis
    using inv bump_addr_inv [OF inv] paths(1)
    by (auto simp: ss_create_file_def Let_def r_def [symmetric] split: option.splits)
qed

lemma unlink_all_frame: "p \<notin> set ps \<Longrightarrow> dk_files (unlink_all d ps) p = dk_files d p"
  unfolding unlink_all_def by (induction ps arbitrary: d) (auto simp: unlink_frame)

lemma unlink_all_limit: "dk_limit (unlink_all d ps) = dk_limit d"
  unfolding unlink_all_def by (induction ps arbitrary: d) (auto simp: unlink_rest)

lemma find_filter_other: "(\<And>y. P y \<Longrightarrow> Q y) \<Longrightarrow> find P (filter Q xs) = find P xs"
  by (induction xs) auto

lemma delete_file_inv:
  assumes inv: "ss_inv ss"
  shows "ss_inv (fst (ss_delete_file ss fname))"
proof (cases "ss_find_file ss fname")
  case (Some r)
  then have r: "r \<in> set (ss_files ss)"
    using ss_find_file_Some by blast
  show ?thesis
  proof (cases "ss_file_has_active_writers ss r")
    case False
    let ?ps = "[filepath r, metapath r, undopath r] @ filter (\<lambda>p. p \<noteq> []) (map ck_path (checkpoints r))"
    let ?n = "ss\<lparr>ss_files := filter (\<lambda>x. rec_addr x \<noteq> rec_addr r) (ss_files ss),
      ss_disk := unlink_all (ss_disk ss) ?ps\<rparr>"
    note wf = inv_parts(1) [OF inv]
    have "records_wf ?n"
      using wf by (auto simp: records_wf_def list_all_iff distinct_map_filter)
    moreover have "file_text ?n (sess_file s) = file_text ss (sess_file s)" if s: "s \<in> set (sessions ss)" for s
    proof -
      have ne: "sess_file s \<noteq> rec_addr r"
        using False s by (auto simp: ss_file_has_active_writers_def list_ex_iff)
      obtain q where q: "get_record ss (sess_file s) = Some q" "q \<in> set (ss_files ss)"
        using session_record [OF inv s] .
      have "q \<noteq> r"
        using ne q get_record_Some by fastforce
      then have "filepath q \<notin> set ?ps"
        using wf q r sidecar_not_content [OF wf q(2) r]
        by (auto simp: records_wf_def distinct_map inj_on_def sidecars_def)
      moreover have "get_record ?n (sess_file s) = get_record ss (sess_file s)"
        using ne by (auto simp: get_record_def intro!: find_filter_other)
      ultimately show ?thesis
        using q by (simp add: file_text_def unlink_all_frame)
    qed
    then have "sessions_wf ?n"
      by (intro sessions_wf_frame [OF inv_parts(2) [OF inv]]) simp_all
    ultimately show ?thesis
      using inv False Some by (simp add: ss_delete_file_def ss_inv_def roomy_def unlink_all_limit)
  qed (use inv Some in \<open>simp add: ss_delete_file_def\<close>)
qed (use inv in \<open>simp add: ss_delete_file_def\<close>)

text \<open>Moving a record, its content with it.\<close>

lemma move_record_inv:
  assumes inv: "ss_inv ss" and r: "r \<in> set (ss_files ss)" and a: "rec_addr r' = rec_addr r"
    and own: "dk_files d (filepath r') = dk_files (ss_disk ss) (filepath r)"
    and lim: "dk_limit d = dk_limit (ss_disk ss)"
    and others: "\<And>q. q \<in> set (ss_files ss) \<Longrightarrow> q \<noteq> r \<Longrightarrow> filepath q \<noteq> filepath r' \<and>
      filepath r' \<notin> set (sidecars q) \<and> filepath q \<notin> set (sidecars r') \<and>
      dk_files d (filepath q) = dk_files (ss_disk ss) (filepath q)"
    and self: "filepath r' \<notin> set (sidecars r')"
  shows "ss_inv ((put_record r' ss)\<lparr>ss_disk := d\<rparr>)" (is "ss_inv ?n")
proof -
  note wf = inv_parts(1) [OF inv]
  have d: "distinct (map rec_addr (ss_files ss))"
    using wf by (simp add: records_wf_def)
  have get: "get_record ss (rec_addr r) = Some r"
    by (rule get_record_in [OF d r])
  have eq: "x = r" if "x \<in> set (ss_files ss)" "rec_addr x = rec_addr r" for x
    using d r that by (auto simp: distinct_map inj_on_def)
  have in_n: "x = r' \<or> (x \<in> set (ss_files ss) \<and> x \<noteq> r)" if "x \<in> set (ss_files ?n)" for x
    using that eq a by (auto simp: put_record_def split: if_splits)
  let ?f = "\<lambda>x. if rec_addr x = rec_addr r then r' else x"
  have files: "ss_files ?n = map ?f (ss_files ss)"
    by (simp add: put_record_def a)
  have addrs: "map rec_addr (ss_files ?n) = map rec_addr (ss_files ss)"
    using a by (auto simp: files)
  have fp: "filepath (?f x) \<noteq> filepath (?f y)" if "x \<in> set (ss_files ss)" "y \<in> set (ss_files ss)"
      "filepath x \<noteq> filepath y" for x y
    using that eq [of x] eq [of y] others [of x] others [of y] by (cases "x = r"; cases "y = r") auto
  have "distinct (map filepath (ss_files ?n))"
    unfolding files using wf fp by (intro distinct_map_update) (auto simp: records_wf_def)
  moreover have "filepath x \<notin> set (sidecars q)" if "x \<in> set (ss_files ?n)" "q \<in> set (ss_files ?n)" for x q
    using in_n [OF that(1)] in_n [OF that(2)] others self wf by (auto simp: records_wf_def list_all_iff)
  moreover have "rec_addr x < next_addr ss" if "x \<in> set (ss_files ?n)" for x
    using in_n [OF that] wf r a by (auto simp: records_wf_def list_all_iff)
  ultimately have "records_wf ?n"
    using d addrs by (simp add: records_wf_def list_all_iff)
  moreover have "file_text ?n b = file_text ss b" for b
  proof -
    have "get_record ?n b = get_record (put_record r' ss) b"
      by (rule fun_cong [OF get_record_cong]) simp
    moreover have "q \<noteq> r" if "get_record ss b = Some q" "b \<noteq> rec_addr r" for q
      using that get_record_Some by fastforce
    ultimately show ?thesis
      using get own others a
      by (auto simp: file_text_def get_put_record split: option.split dest: get_record_Some)
  qed
  then have "sessions_wf ?n"
    by (intro sessions_wf_frame [OF inv_parts(2) [OF inv]]) simp_all
  ultimately show ?thesis
    using inv lim by (simp add: ss_inv_def roomy_def)
qed

lemma rename_limit: "dk_limit (fst (disk_rename d p q)) = dk_limit d"
  by (simp add: disk_rename_def split: option.split)

lemma rename_fst_frame: "r \<noteq> p \<Longrightarrow> r \<noteq> q \<Longrightarrow> dk_files (fst (disk_rename d p q)) r = dk_files d r"
  by (simp add: disk_rename_def split: option.split)

text \<open>The renaming itself: the paths of the new record stay clear of those of all others.\<close>

lemma rename_step_inv:
  assumes inv: "ss_inv ss" and ok: "rename_ok ss f old new" and f: "ss_find_file ss f = Some r"
    and bp: "build_path MAX_PATH_LENGTH (storage_path ss) old = Some p"
      "build_path MAX_PATH_LENGTH (storage_path ss) new = Some q"
    and mv: "disk_rename (ss_disk ss) p q = (d1, True)"
    and m: "pm = bounded_copy MAX_PATH_LENGTH (p @ SS_META_SUFFIX)" "qm = bounded_copy MAX_PATH_LENGTH (q @ SS_META_SUFFIX)"
      "pu = bounded_copy MAX_PATH_LENGTH (p @ SS_UNDO_SUFFIX)" "qu = bounded_copy MAX_PATH_LENGTH (q @ SS_UNDO_SUFFIX)"
    and d3: "d3 = fst (disk_rename (fst (disk_rename d1 pm qm)) pu qu)"
    and r1: "rec_addr r1 = rec_addr r" "filepath r1 = q" "metapath r1 = qm" "undopath r1 = qu"
      "checkpoints r1 = checkpoints r"
  shows "ss_inv ((put_record r1 ss)\<lparr>ss_disk := d3\<rparr>)"
proof -
  have r: "r \<in> set (ss_files ss)"
    using ss_find_file_Some [OF f] by blast
  have G: "p = filepath r" "q \<notin> {pm, qm, pu, qu}" "p \<notin> {pm, qm, pu, qu}" "q \<notin> set (map ck_path (checkpoints r))"
    and O: "\<And>x. x \<in> set (ss_files ss) \<Longrightarrow> rec_addr x \<noteq> rec_addr r \<Longrightarrow>
      filepath x \<noteq> q \<and> q \<notin> set (sidecars x) \<and> filepath x \<notin> {pm, qm, pu, qu}"
    using ok f bp m by (auto simp: rename_ok_def Let_def list_all_iff)
  have differ: "rec_addr x \<noteq> rec_addr r" "filepath x \<noteq> p" if "x \<in> set (ss_files ss)" "x \<noteq> r" for x
    using inv r that G(1) by (auto simp: ss_inv_def records_wf_def distinct_map inj_on_def)
  have frame: "dk_files d3 x = dk_files d1 x" if "x \<notin> {pm, qm, pu, qu}" for x
    using that by (simp add: d3 rename_fst_frame)
  have sc: "set (sidecars r1) = {qm, qu} \<union> ck_path ` set (checkpoints r)"
    using r1 by (auto simp: sidecars_def)
  show ?thesis
  proof (rule move_record_inv [OF inv r r1(1)])
    show "dk_files d3 (filepath r1) = dk_files (ss_disk ss) (filepath r)"
      using frame [of q] G r1 rename_ok [OF mv] by simp
    show "dk_limit d3 = dk_limit (ss_disk ss)"
      using mv rename_limit [of "ss_disk ss" p q] by (simp add: d3 rename_limit)
    show "filepath r1 \<notin> set (sidecars r1)"
      using G r1 sc by auto
    fix x assume x: "x \<in> set (ss_files ss)" "x \<noteq> r"
    have "dk_files d3 (filepath x) = dk_files (ss_disk ss) (filepath x)"
      using O [OF x(1) differ(1) [OF x]] frame [of "filepath x"] rename_frame [OF mv] differ(2) [OF x] by simp
    moreover have "filepath x \<notin> ck_path ` set (checkpoints r)"
      using own_sidecars [OF inv r] x by (auto simp: sidecars_def)
    ultimately show "filepath x \<noteq> filepath r1 \<and> filepath r1 \<notin> set (sidecars x) \<and>
        filepath x \<notin> set (sidecars r1) \<and> dk_files d3 (filepath x) = dk_files (ss_disk ss) (filepath x)"
      using O [OF x(1) differ(1) [OF x]] sc r1 by auto
  qed
qed

lemma touch_renamed_inv:
  assumes "ss_inv ((put_record r1 ss)\<lparr>ss_disk := d\<rparr>)" "r \<in> set (ss_files ss)" "rec_addr r1 = rec_addr r"
  shows "ss_inv (ss_touch_file_metadata now (ss\<lparr>ss_disk := d\<rparr>) r1 None True)"
proof -
  have "r1 \<in> set (ss_files (put_record r1 ss))"
    using assms(2,3) by (auto simp: put_record_def image_iff)
  then have "ss_inv (ss_touch_file_metadata now ((put_record r1 ss)\<lparr>ss_disk := d\<rparr>) r1 None True)"
    using assms(1) by (intro touch_same_inv) simp_all
  moreover have "ss_touch_file_metadata now ((put_record r1 ss)\<lparr>ss_disk := d\<rparr>) r1 None True =
      ss_touch_file_metadata now (ss\<lparr>ss_disk := d\<rparr>) r1 None True"
    by (auto simp: ss_touch_file_metadata_def put_record_def Let_def)
  ultimately show ?thesis
    by simp
qed

lemma handle_rename_inv:
  assumes inv: "ss_inv ss" and ok: "rename_ok ss f old new"
  shows "ss_inv (fst (ss_handle_rename now ss f g old new))"
proof (cases "ss_find_file ss f")
  case None
  then show ?thesis
    using inv by (simp add: ss_handle_rename_def)
next
  case (Some r)
  then have r: "r \<in> set (ss_files ss)"
    using ss_find_file_Some by blast
  show ?thesis
  proof (cases "build_path MAX_PATH_LENGTH (storage_path ss) old")
    case None
    then show ?thesis
      using inv Some by (simp add: ss_handle_rename_def split: option.split)
  next
    case bp: (Some p)
    show ?thesis
    proof (cases "build_path MAX_PATH_LENGTH (storage_path ss) new")
      case None
      then show ?thesis
        using inv Some bp by (simp add: ss_handle_rename_def split: option.split)
    next
      case bq: (Some q)
      obtain d1 b where mv: "disk_rename (ss_disk ss) p q = (d1, b)"
        by (cases "disk_rename (ss_disk ss) p q")
      have "bounded_copy MAX_PATH_LENGTH q = q"
        using build_path_some [OF bq] by (intro bounded_copy_id) blast
      then show ?thesis
        using inv Some bp bq mv touch_renamed_inv [OF rename_step_inv [OF inv ok Some bp bq _ refl refl refl refl refl, of d1] r]
        by (simp add: ss_handle_rename_def Let_def split: option.split)
    qed
  qed
qed

lemma acl_record_inv:
  assumes inv: "ss_inv ss" and r: "r \<in> set (ss_files ss)"
    and r1: "rec_addr r1 = rec_addr r" "filepath r1 = filepath r" "sidecars r1 = sidecars r" "metapath r1 = metapath r"
    and d: "d = ss_disk ss \<or> d = fst (ss_write_metadata (ss_disk ss) r2)" "metapath r2 = metapath r"
  shows "ss_inv (put_record r1 (ss\<lparr>ss_disk := d\<rparr>))"
proof -
  have "\<forall>q\<in>set (ss_files ss). filepath q \<noteq> metapath r"
    using own_sidecars [OF inv r] by (auto simp: sidecars_def)
  then have "ss_inv (ss\<lparr>ss_disk := d\<rparr>)"
    using d inv meta_disk_inv [OF inv, of r2] by auto
  then show ?thesis
    using r r1 own_sidecars [OF inv r] by (intro put_record_inv [of _ r]) simp_all
qed

lemma acl_sidecars [simp]: "sidecars (r\<lparr>read_users := a, write_users := b\<rparr>) = sidecars r"
  by (simp add: sidecars_def)

lemma add_access_record:
  "add_access r u a b = (r1, x, y, z) \<Longrightarrow> \<exists>rs ws. r1 = r\<lparr>read_users := rs, write_users := ws\<rparr>"
  by (auto simp: add_access_def Let_def split: prod.splits if_splits)

lemma ns_add_access_inv:
  assumes inv: "ss_inv ss"
  shows "ss_inv (fst (ns_add_access ss fs))"
proof -
  have "ss_inv (put_record (r\<lparr>read_users := a, write_users := b\<rparr>) (ss\<lparr>ss_disk := d\<rparr>))"
    if "ss_find_file ss f = Some r" "d = ss_disk ss \<or> d = fst (ss_write_metadata (ss_disk ss)
      (r\<lparr>read_users := x, write_users := y\<rparr>))" for r a b d f x y
    using that ss_find_file_Some [OF that(1)]
    by (intro acl_record_inv [OF inv _ _ _ _ _ that(2)]) simp_all
  note ok = this
  show ?thesis
  proof (cases "ss_find_file ss (fs ! 1)")
    case (Some r)
    obtain r1 x y z where a: "add_access r (fs ! 2) (wants (CHR ''R'') (CHR ''r'') (fs ! 3))
        (wants (CHR ''W'') (CHR ''w'') (fs ! 3)) = (r1, x, y, z)"
      by (metis prod_cases4)
    obtain rs ws where r1: "r1 = r\<lparr>read_users := rs, write_users := ws\<rparr>"
      using add_access_record [OF a] by blast
    have same: "ss_inv (put_record (r\<lparr>read_users := a, write_users := b\<rparr>) ss)" for a b
      using ok [OF Some, where a = a and b = b and d = "ss_disk ss"] by simp
    have meta: "ss_inv (put_record (r\<lparr>read_users := a, write_users := b\<rparr>)
        (ss\<lparr>ss_disk := fst (ss_write_metadata (ss_disk ss) r1)\<rparr>))" for a b
      unfolding r1 by (rule ok [OF Some disjI2 [OF refl]])
    show ?thesis
      using inv Some a same meta by (simp add: ns_add_access_def Let_def case_prod_unfold r1)
  qed (use inv in \<open>simp add: ns_add_access_def Let_def\<close>)
qed

lemma ns_rem_access_inv:
  assumes inv: "ss_inv ss"
  shows "ss_inv (fst (ns_rem_access ss fs))"
proof -
  have "ss_inv (put_record (r\<lparr>read_users := a, write_users := b\<rparr>)
      (ss\<lparr>ss_disk := fst (ss_write_metadata (ss_disk ss) (r\<lparr>read_users := x, write_users := y\<rparr>))\<rparr>))"
    if "ss_find_file ss f = Some r" for r a b d f x y
    using that ss_find_file_Some [OF that(1)]
    by (intro acl_record_inv [OF inv, of r _ _ "r\<lparr>read_users := x, write_users := y\<rparr>"]) simp_all
  then show ?thesis
    using inv by (auto simp: ns_rem_access_def Let_def case_prod_unfold split: option.split)
qed

lemma fetch_remote_frame:
  assumes "fetch_remote peer d tmp ip port u f = (d1, err)"
  shows "q \<noteq> tmp \<Longrightarrow> dk_files d1 q = dk_files d q" "dk_limit d1 = dk_limit d"
  using assms
  by (auto simp: fetch_remote_def ss_open_truncating_binary_def fopen_trunc_def Let_def unlink_frame unlink_rest
      split: peer_answer.splits option.splits prod.splits if_splits)

lemma copy_frame_fst:
  "q \<noteq> t \<Longrightarrow> dk_files (fst (ss_copy_file d p t)) q = dk_files d q"
  "dk_limit (fst (ss_copy_file d p t)) = dk_limit d"
  using copy_file_frame [of d p t] copy_file_rest [of d p t] by (metis prod.collapse)+

lemma fetch_frame_fst:
  "q \<noteq> t \<Longrightarrow> dk_files (fst (fetch_remote peer d t ip port u f)) q = dk_files d q"
  "dk_limit (fst (fetch_remote peer d t ip port u f)) = dk_limit d"
  using fetch_remote_frame [of peer d t ip port u f] by (metis prod.collapse)+

lemma fill_and_move_frame:
  assumes "fill_and_move peer d tmp dest src ip port u f = (d', err)"
  shows "q \<noteq> tmp \<Longrightarrow> q \<noteq> dest \<Longrightarrow> dk_files d' q = dk_files d q" "dk_limit d' = dk_limit d"
proof -
  have "d' = fst (fill_and_move peer d tmp dest src ip port u f)"
    using assms by simp
  then show "q \<noteq> tmp \<Longrightarrow> q \<noteq> dest \<Longrightarrow> dk_files d' q = dk_files d q" "dk_limit d' = dk_limit d"
    by (simp_all add: fill_and_move_def Let_def case_prod_unfold copy_frame_fst fetch_frame_fst unlink_frame
        unlink_rest rename_fst_frame rename_limit split: option.split)
qed

lemma copy_inv:
  assumes inv: "ss_inv ss" and ok: "copy_ok ss fs"
  shows "ss_inv (fst (handle_ss_copy peer now ss fs))"
proof -
  have main: "ss_inv (ss\<lparr>ss_disk := fst (disk_unlink d1 tmp)\<rparr>)"
      "ss_inv (ss_touch_file_metadata now (ss\<lparr>ss_disk := d1\<rparr>) dest v True)"
    if dest: "ss_find_file ss (fs ! 1) = Some dest" "\<not> ss_file_has_active_writers ss dest"
      and tmp: "tmp = bounded_copy MAX_PATH_LENGTH (filepath dest @ ''.copytmp'')"
      and d1: "fill_and_move peer (ss_disk ss) tmp (filepath dest) src ip port u f = (d1, err)"
    for dest tmp src ip port u f d1 err v
  proof -
    have r: "dest \<in> set (ss_files ss)"
      using ss_find_file_Some [OF dest(1)] by simp
    have nt: "tmp \<notin> set (content_paths ss)"
      using ok dest tmp by (simp add: copy_ok_def)
    then have ne: "filepath q \<noteq> tmp" if "q \<in> set (ss_files ss)" for q
      using in_content_paths [OF that] by auto
    have i1: "ss_inv (ss\<lparr>ss_disk := d1\<rparr>)"
      using fill_and_move_frame [OF d1] ne by (intro quiet_disk_inv [OF inv r dest(2)]) auto
    show "ss_inv (ss\<lparr>ss_disk := fst (disk_unlink d1 tmp)\<rparr>)"
      by (rule unlink_disk_inv [OF i1 nt])
    show "ss_inv (ss_touch_file_metadata now (ss\<lparr>ss_disk := d1\<rparr>) dest v True)"
      using r by (intro touch_same_inv [OF i1]) simp
  qed
  show ?thesis
  proof (cases "ss_find_file ss (fs ! 1)")
    case None
    then show ?thesis
      using inv by (simp add: handle_ss_copy_def Let_def split: option.split)
  next
    case (Some dest)
    note M = main [OF Some _ refl prod.collapse [symmetric]]
    show ?thesis
      using inv Some M by (simp add: handle_ss_copy_def Let_def case_prod_unfold split: option.split)
  qed
qed

section \<open>Every reachable state is sound\<close>

lemma client_dispatch_inv:
  assumes inv: "ss_inv ss" and ok: "client_ok now ss fs"
  shows "ss_inv (fst (client_dispatch now ss fd fs))"
  using ok read_inv [OF inv] stream_inv [OF inv] write_lock_inv [OF inv] write_data_inv [OF inv]
    etirw_inv [OF inv] undo_inv [OF inv] checkpoint_inv [OF inv] viewcheckpoint_inv [OF inv]
    revert_inv [OF inv] listcheckpoints_inv [OF inv] inv
  by (simp add: client_dispatch_def client_ok_def Let_def)

lemma ns_dispatch_inv:
  assumes inv: "ss_inv ss" and ok: "ns_ok ss fs"
  shows "ss_inv (fst (ns_dispatch peer now ss fs))"
proof -
  have 1: "ss_inv (fst (ns_create_file now ss fs))" if "create_ok ss (fs ! 1)"
    using create_file_inv [OF inv that] inv
    by (simp add: ns_create_file_def Let_def case_prod_unfold)
  have 2: "ss_inv (fst (ns_rename now ss fs))" if "rename_ok ss (fs ! 1) (fs ! 3) (fs ! 4)"
    using handle_rename_inv [OF inv that] inv
    by (simp add: ns_rename_def case_prod_unfold Let_def)
  have 3: "ss_inv (fst (ns_delete_file ss fs))"
    using delete_file_inv [OF inv] inv by (simp add: ns_delete_file_def Let_def case_prod_unfold)
  have 4: "fst (ns_get_stats ss fs) = ss" "fst (ns_get_content ss fs) = ss"
    by (simp_all add: ns_get_stats_def ns_get_content_def Let_def split: option.split)
  show ?thesis
    using ok inv 1 2 3 4 ns_add_access_inv [OF inv] ns_rem_access_inv [OF inv] copy_inv [OF inv]
    by (auto simp: ns_dispatch_def ns_ok_def Let_def)
qed

lemma ss_step_inv: "ss_step peer ss ss' \<Longrightarrow> ss_inv ss \<Longrightarrow> ss_inv ss'"
  by (auto elim!: ss_stepE simp: client_dispatch_inv ns_dispatch_inv ss_abort_inv)

lemma ss_reachable_inv: "ss_reachable peer ss0 ss \<Longrightarrow> ss_inv ss0 \<Longrightarrow> ss_inv ss"
  by (induction rule: ss_reachable.induct) (auto simp: ss_step_inv)

end
