(* ===== verification/Storage_Properties.thy ===== *)
theory Storage_Properties
  imports Storage_Invariant
begin

text \<open>
  The properties of the storage server: soundness of the write sessions in
  every reachable state, what a commit, an undo, a checkpoint and a revert do
  to the disk, which requests can change a document, and what goes wrong when a
  commit is interleaved with another one, when the disk fills up, when names collide and
  when a checkpoint is taken of a file in a folder.

  \<open>demo_ss\<close> is a server with one document of two sentences, on which the properties
  with hypotheses are instantiated.
\<close>

section \<open>A sample server\<close>

definition demo_disk :: disk where
  "demo_disk = \<lparr>dk_files = [''s/a'' \<mapsto> ''Hi yo. So be it.''], dk_dirs = [''s''],
     dk_denied = (\<lambda>_. False), dk_limit = (\<lambda>_. None)\<rparr>"

definition demo_record :: file_record where
  "demo_record = (empty_record 0)\<lparr>filename := ''a'', physical_name := ''a'', filepath := ''s/a'',
     metapath := ''s/a.meta'', undopath := ''s/a.undo'', owner := ''ann'', write_users := [''bob'']\<rparr>"

definition demo_ss :: storage_server where
  "demo_ss = \<lparr>ns_ip = ''n'', ns_port = 1, client_ip = ''c'', client_port = 2, ns_sockfd = 3,
     client_listen_fd = 4, storage_path = ''s'', ss_files = [demo_record], sessions = [],
     running = True, next_addr = 1, ss_disk = demo_disk\<rparr>"

text \<open>Client 10 holds sentence 0 and has inserted two words, client 11 holds sentence 1.\<close>

definition demo_lock1 :: storage_server where
  "demo_lock1 = fst (client_dispatch 6 demo_ss 10 [''REQ_WRITE_LOCK'', ''ann'', ''a'', ''0''])"

definition demo_lock2 :: storage_server where
  "demo_lock2 = fst (client_dispatch 7 demo_lock1 11 [''REQ_WRITE_LOCK'', ''bob'', ''a'', ''1''])"

definition demo_edit :: storage_server where
  "demo_edit = fst (client_dispatch 8 demo_lock2 10 [''WRITE_DATA'', ''1'', ''you. Oh''])"

lemma demo_inv: "ss_inv demo_ss"
  by (simp add: ss_inv_def demo_ss_def records_wf_def sessions_wf_def roomy_def demo_record_def
      demo_disk_def sidecars_def empty_record_def)

lemma demo_reachable: "ss_reachable peer demo_ss demo_edit"
proof -
  have ok: "client_ok 6 demo_ss [''REQ_WRITE_LOCK'', ''ann'', ''a'', ''0'']"
      "client_ok 7 demo_lock1 [''REQ_WRITE_LOCK'', ''bob'', ''a'', ''1'']"
      "client_ok 8 demo_lock2 [''WRITE_DATA'', ''1'', ''you. Oh'']"
    by (simp_all add: client_ok_def)
  show ?thesis
    unfolding demo_edit_def demo_lock2_def demo_lock1_def
    by (rule ss_reachable.Step [OF ss_reachable.Step [OF ss_reachable.Step [OF ss_reachable.Start]]];
        rule ss_step.Client) (use ok in \<open>simp_all add: demo_lock2_def demo_lock1_def\<close>)
qed

lemma demo_edit_inv: "ss_inv demo_edit"
  using ss_reachable_inv [OF demo_reachable demo_inv] .

lemma demo_edit_sessions:
  "map (\<lambda>s. (client_fd s, sess_file s, lock_of s, sentence_working s)) (sessions demo_edit) =
    [(11, 0, (1, 7, 16), ''So be it.''), (10, 0, (0, 0, 6), ''Hi you. Oh yo.'')]"
  by code_simp

section \<open>Soundness of the sessions\<close>

text \<open>C3. Mutual exclusion and freshness of locks: in every state reachable from a sound one, by any sequence of
  client requests, name server commands and disconnections without name collisions, no two
  sessions hold the same sentence of the same file, and every session points to an existing
  file and holds exactly the bounds that its sentence has in the current text of that file.\<close>

theorem reachable_sessions_sound:
  assumes "ss_inv ss0" "ss_reachable peer ss0 ss"
  shows "distinct (map (\<lambda>s. (sess_file s, sentence_index s)) (sessions ss)) \<and>
    distinct (map client_fd (sessions ss)) \<and>
    (\<forall>s\<in>set (sessions ss). \<exists>r t. get_record ss (sess_file s) = Some r \<and>
       dk_files (ss_disk ss) (filepath r) = Some t \<and>
       ss_get_sentence_bounds t (sentence_index s) = Some (sentence_start s, sentence_end s))"
proof -
  have inv: "ss_inv ss"
    by (rule ss_reachable_inv [OF assms(2,1)])
  have "\<exists>r t. get_record ss (sess_file s) = Some r \<and> dk_files (ss_disk ss) (filepath r) = Some t \<and>
      ss_get_sentence_bounds t (sentence_index s) = Some (sentence_start s, sentence_end s)"
    if "s \<in> set (sessions ss)" for s
    using session_record [OF inv that] by (force simp: session_ok_def)
  then show ?thesis
    using inv by (auto simp: ss_inv_def sessions_wf_def locked_def [abs_def])
qed

theorem reachable_sessions_sound_witness:
  "length (sessions demo_edit) = 2 \<and>
   distinct (map (\<lambda>s. (sess_file s, sentence_index s)) (sessions demo_edit))"
proof
  show "length (sessions demo_edit) = 2"
    by code_simp
  show "distinct (map (\<lambda>s. (sess_file s, sentence_index s)) (sessions demo_edit))"
    using reachable_sessions_sound [OF demo_inv demo_reachable] by blast
qed

section \<open>Commit\<close>

lemma etirw_success:
  assumes inv: "ss_inv ss" and x: "ss_find_session ss fd = Some x"
    and r: "get_record ss (sess_file x) = Some r" and t: "dk_files (ss_disk ss) (filepath r) = Some t"
    and w: "may_write (ss_disk ss) (filepath r)" "may_write (ss_disk ss) (undopath r)"
  obtains d1 d2 where
    "ss_write_file_content (ss_disk ss) (undopath r) t = (d1, True)"
    "ss_write_file_content d1 (filepath r)
       (splice_text t (sentence_start x) (sentence_end x) (sentence_working x)) = (d2, True)"
    "handle_client_etirw now ss fd = (commit_state now ss fd x r t d2,
       send_fields (To_client fd) [''OK_WRITE_DONE''] @
       ss_sync_metadata_to_ns (commit_state now ss fd x r t d2) (r\<lparr>undo_available := 1\<rparr>))"
proof -
  have xs: "x \<in> set (sessions ss)"
    using ss_find_session_Some [OF x] by simp
  have lim: "dk_limit (ss_disk ss) = (\<lambda>_. None)"
    using inv by (simp add: ss_inv_def roomy_def)
  obtain r' t' where "get_record ss (sess_file x) = Some r'" "dk_files (ss_disk ss) (filepath r') = Some t'"
      "session_ok (Some t') x"
    using session_record [OF inv xs] by metis
  then have ok: "session_ok (Some t) x"
    using r t by simp
  let ?n = "splice_text t (sentence_start x) (sentence_end x) (sentence_working x)"
  let ?d1 = "(ss_disk ss)\<lparr>dk_files := (dk_files (ss_disk ss))(undopath r \<mapsto> t)\<rparr>"
  have w1: "ss_write_file_content (ss_disk ss) (undopath r) t = (?d1, True)"
    using w lim by (simp add: write_content_succeeds)
  moreover have "may_write ?d1 (filepath r)"
    using w by (simp add: may_write_def)
  then have w2: "ss_write_file_content ?d1 (filepath r) ?n =
      (?d1\<lparr>dk_files := (dk_files ?d1)(filepath r \<mapsto> ?n)\<rparr>, True)"
    using lim by (intro write_content_succeeds) simp_all
  moreover have "\<not> dk_denied (ss_disk ss) (filepath r)"
    using w by (simp add: may_write_def)
  ultimately show thesis
    using that x by (simp add: handle_client_etirw_def etirw_begin_def etirw_commit_eq [OF r t ok])
qed

lemma find_session_detached: "sessions_wf ss \<Longrightarrow> ss_find_session (ss_detach_session ss fd) fd = None"
  by (auto simp: ss_find_session_def sessions_wf_def detach_filter find_None_iff)

lemma etirw_commit_facts:
  assumes inv: "ss_inv ss" and x: "ss_find_session ss fd = Some x"
    and r: "get_record ss (sess_file x) = Some r" and t: "dk_files (ss_disk ss) (filepath r) = Some t"
    and w: "may_write (ss_disk ss) (filepath r)" "may_write (ss_disk ss) (undopath r)"
    and m: "metapath r \<noteq> undopath r"
    and res: "handle_client_etirw now ss fd = (ss', out)"
  shows "dk_files (ss_disk ss') (filepath r) =
      Some (take (sentence_start x) t @ sentence_working x @ drop (sentence_end x) t)"
    "dk_files (ss_disk ss') (undopath r) = Some t"
    "\<exists>r'. get_record ss' (rec_addr r) = Some r' \<and> undo_available r' = 1 \<and> filepath r' = filepath r"
    "ss_find_session ss' fd = None"
    "a \<noteq> sess_file x \<Longrightarrow> file_text ss' a = file_text ss a"
    "hd out = (To_client fd, ''OK_WRITE_DONE'' @ [newline])"
proof -
  obtain d1 d2 where w1: "ss_write_file_content (ss_disk ss) (undopath r) t = (d1, True)"
    and w2: "ss_write_file_content d1 (filepath r)
       (splice_text t (sentence_start x) (sentence_end x) (sentence_working x)) = (d2, True)"
    and h: "handle_client_etirw now ss fd = (commit_state now ss fd x r t d2,
       send_fields (To_client fd) [''OK_WRITE_DONE''] @
       ss_sync_metadata_to_ns (commit_state now ss fd x r t d2) (r\<lparr>undo_available := 1\<rparr>))"
    using etirw_success [OF inv x r t w] by metis
  have ss': "ss' = commit_state now ss fd x r t d2"
    using res h by simp
  have xs: "x \<in> set (sessions ss)" "client_fd x = fd"
    using ss_find_session_Some [OF x] by simp_all
  note C = commit_state_inv [OF inv xs r t w1 w2, of now]
  have rin: "r \<in> set (ss_files ss)" and ra: "rec_addr r = sess_file x"
    using get_record_Some [OF r] by simp_all
  have up: "undopath r \<noteq> filepath r"
    using sidecar_not_content [OF inv_parts(1) [OF inv] rin rin, of "undopath r"] by (auto simp: sidecars_def)
  let ?r1 = "touch_record now (Some (username x)) True (r\<lparr>undo_available := 1\<rparr>)"
  have g: "get_record ss' (rec_addr r) = Some ?r1"
    using get_put_record [of ?r1 ss "rec_addr r"] r ra get_record_cong [OF commit_state_files(1)]
    by (simp add: ss')
  show "\<exists>r'. get_record ss' (rec_addr r) = Some r' \<and> undo_available r' = 1 \<and> filepath r' = filepath r"
    using g by simp
  show "dk_files (ss_disk ss') (filepath r) =
      Some (take (sentence_start x) t @ sentence_working x @ drop (sentence_end x) t)"
    using C(2) [of "rec_addr r"] g ra by (simp add: ss' file_text_def splice_text_def)
  have "dk_files d2 (undopath r) = Some t"
    by (rule bs.save_then_write(1) [OF w1 w2 up])
  then show "dk_files (ss_disk ss') (undopath r) = Some t"
    using m by (simp add: ss' commit_state_files write_metadata_frame)
  show "file_text ss' a = file_text ss a" if "a \<noteq> sess_file x"
    using C(2) [of a] that by (simp add: ss')
  show "ss_find_session ss' fd = None"
    using commit_state_sessions [OF inv_parts(2) [OF inv] xs ra, of now t d2] xs(2)
    by (auto simp: ss' ss_find_session_def find_None_iff commit_sessions_def)
  show "hd out = (To_client fd, ''OK_WRITE_DONE'' @ [newline])"
    using res h by (auto simp: send_fields_def emit_def protocol_build_message_def)
qed

lemma demo_facts:
  "ss_find_session demo_edit 10 = Some (the (ss_find_session demo_edit 10))"
  "lock_of (the (ss_find_session demo_edit 10)) = (0, 0, 6)"
  "sess_file (the (ss_find_session demo_edit 10)) = 0"
  "sentence_working (the (ss_find_session demo_edit 10)) = ''Hi you. Oh yo.''"
  "get_record demo_edit 0 = Some demo_record"
  "dk_files (ss_disk demo_edit) ''s/a'' = Some ''Hi yo. So be it.''"
  "may_write (ss_disk demo_edit) ''s/a''" "may_write (ss_disk demo_edit) ''s/a.undo''"
  by code_simp+

lemma demo_record_paths [simp]:
  "filepath demo_record = ''s/a''" "undopath demo_record = ''s/a.undo''" "metapath demo_record = ''s/a.meta''"
  "rec_addr demo_record = 0"
  by (simp_all add: demo_record_def empty_record_def)

text \<open>C4. Exactness of a commit: when the content file and the undo file can be written,
  the commit of a session replaces exactly the locked span of the current text by
  the working copy, saves the previous text as the undo snapshot and marks it available, ends
  the session, leaves the text of every other file alone and acknowledges with
  \<open>OK_WRITE_DONE\<close>.\<close>

theorem etirw_commit_exact:
  assumes "ss_inv ss" "ss_find_session ss fd = Some x"
    "get_record ss (sess_file x) = Some r" "dk_files (ss_disk ss) (filepath r) = Some t"
    "may_write (ss_disk ss) (filepath r)" "may_write (ss_disk ss) (undopath r)"
    "metapath r \<noteq> undopath r" "handle_client_etirw now ss fd = (ss', out)"
  shows "dk_files (ss_disk ss') (filepath r) =
      Some (take (sentence_start x) t @ sentence_working x @ drop (sentence_end x) t) \<and>
    dk_files (ss_disk ss') (undopath r) = Some t \<and>
    (\<exists>r'. get_record ss' (rec_addr r) = Some r' \<and> undo_available r' = 1 \<and> filepath r' = filepath r) \<and>
    ss_find_session ss' fd = None \<and>
    (\<forall>a. a \<noteq> sess_file x \<longrightarrow> file_text ss' a = file_text ss a) \<and>
    hd out = (To_client fd, ''OK_WRITE_DONE'' @ [newline])"
  using etirw_commit_facts [OF assms] by blast

theorem etirw_commit_exact_witness:
  "dk_files (ss_disk (fst (handle_client_etirw 9 demo_edit 10))) ''s/a'' = Some ''Hi you. Oh yo. So be it.''"
proof -
  let ?x = "the (ss_find_session demo_edit 10)"
  have l: "sentence_start ?x = 0" "sentence_end ?x = 6"
    using demo_facts(2) by (simp_all add: lock_of_def)
  have "dk_files (ss_disk (fst (handle_client_etirw 9 demo_edit 10))) (filepath demo_record) =
      Some (take (sentence_start ?x) ''Hi yo. So be it.'' @ sentence_working ?x @
        drop (sentence_end ?x) ''Hi yo. So be it.'')"
    by (rule etirw_commit_exact [OF demo_edit_inv demo_facts(1) _ _ _ _ _ prod.collapse [symmetric], THEN conjunct1])
      (use demo_facts in simp_all)
  then show ?thesis
    by (simp add: l demo_facts(4))
qed

text \<open>C11. A commit never disturbs the other writers of the document: every other session of
  the same file is still there, holds the current bounds of its (renumbered) sentence in
  the new text, and that sentence is the same text it locked; its working copy is untouched.\<close>

theorem etirw_keeps_other_locks:
  assumes "ss_inv ss" "ss_find_session ss fd = Some x"
    "get_record ss (sess_file x) = Some r" "dk_files (ss_disk ss) (filepath r) = Some t"
    "may_write (ss_disk ss) (filepath r)" "may_write (ss_disk ss) (undopath r)"
    "y \<in> set (sessions ss)" "sess_file y = sess_file x" "client_fd y \<noteq> fd"
  shows "\<exists>y'\<in>set (sessions (fst (handle_client_etirw now ss fd))).
    client_fd y' = client_fd y \<and> sess_file y' = sess_file y \<and> sentence_working y' = sentence_working y \<and>
    (\<exists>t'. file_text (fst (handle_client_etirw now ss fd)) (sess_file x) = Some t' \<and>
       ss_get_sentence_bounds t' (sentence_index y') = Some (sentence_start y', sentence_end y') \<and>
       span_text t' (sentence_start y') (sentence_end y') = span_text t (sentence_start y) (sentence_end y))"
proof -
  have xs: "x \<in> set (sessions ss)" "client_fd x = fd"
    using ss_find_session_Some [OF assms(2)] by simp_all
  obtain d1 d2 where w: "ss_write_file_content (ss_disk ss) (undopath r) t = (d1, True)"
      "ss_write_file_content d1 (filepath r)
         (splice_text t (sentence_start x) (sentence_end x) (sentence_working x)) = (d2, True)"
    and h: "fst (handle_client_etirw now ss fd) = commit_state now ss fd x r t d2"
    using etirw_success [OF assms(1-6)] by (metis fst_conv)
  let ?t' = "splice_text t (sentence_start x) (sentence_end x) (sentence_working x)"
  let ?y' = "shift_session (sentence_start x) (sentence_end x - sentence_start x) (length (sentence_working x))
     (sentence_delta t (sentence_start x) (sentence_end x) (sentence_working x)) y"
  have ra: "rec_addr r = sess_file x"
    using get_record_Some [OF assms(3)] by simp
  have "?y' \<in> set (sessions (commit_state now ss fd x r t d2))"
    unfolding commit_state_sessions [OF inv_parts(2) [OF assms(1)] xs ra] commit_sessions_def
    using assms(7-9) xs(2) by (auto intro!: image_eqI [of _ _ y])
  moreover have ft: "file_text ss (sess_file x) = Some t"
    using assms(3,4) by (simp add: file_text_def)
  then have ok: "session_ok (Some t) x" "session_ok (Some t) y"
    using assms(1,7,8) xs by (auto simp: ss_inv_def sessions_wf_def list_all_iff)
  have ne: "sentence_index y \<noteq> sentence_index x"
    using assms(1,7,8,9) xs by (auto simp: ss_inv_def sessions_wf_def distinct_map inj_on_def locked_def)
  have "session_ok (Some ?t') ?y'"
    by (rule shift_session_ok [OF ok ne refl refl refl])
  moreover have "span_text ?t' (sentence_start ?y') (sentence_end ?y') = span_text t (sentence_start y) (sentence_end y)"
    by (rule shift_session_span [OF ok ne refl refl refl])
  moreover have "file_text (commit_state now ss fd x r t d2) (sess_file x) = Some ?t'"
    using commit_state_inv(2) [OF assms(1) xs assms(3,4) w] by simp
  ultimately show ?thesis
    unfolding h by (intro bexI [of _ ?y']) (auto simp: session_ok_def)
qed

theorem etirw_keeps_other_locks_witness:
  "\<exists>y'\<in>set (sessions (fst (handle_client_etirw 9 demo_edit 10))). client_fd y' = 11 \<and>
     sentence_working y' = ''So be it.''"
proof -
  let ?y = "hd (sessions demo_edit)"
  have y: "?y \<in> set (sessions demo_edit)" "sess_file ?y = 0" "client_fd ?y = 11"
      "sentence_working ?y = ''So be it.''"
    using demo_edit_sessions by (cases "sessions demo_edit"; simp)+
  show ?thesis
    using etirw_keeps_other_locks [OF demo_edit_inv demo_facts(1), of demo_record _ ?y 9] demo_facts y
    by auto
qed

section \<open>Locks and edits\<close>

text \<open>C10. A sentence held by one connection is refused to every other one: the request of a user with write access
  for a sentence that another session holds is answered with error 423, and
  changes nothing except that a lock the requester held before is released.\<close>

theorem write_lock_refused:
  assumes "s \<in> set (sessions ss)" "client_fd s \<noteq> fd" "ss_find_file ss fname = Some r"
    "rec_addr r = sess_file s" "ss_check_write_access r user"
    "0 \<le> sentence_index s" "sentence_index s \<le> INT_MAX_I"
  shows "handle_client_write_lock ss fd [cmd, user, fname, show_int (sentence_index s)] =
    (ss_abort_session ss fd, [(To_client fd, ''ERR|423|Sentence already locked'' @ [newline])])"
proof -
  have keep: "s \<in> set (detach fd xs)" if "s \<in> set xs" for xs
    using that assms(2) by (induction xs) auto
  have "ss_find_session_by_sentence (ss_abort_session ss fd) r (sentence_index s) \<noteq> None"
    using keep [OF assms(1)] assms(4)
    by (auto simp: ss_find_session_by_sentence_def ss_abort_session_def find_None_iff)
  moreover have "parse_int (show_int (sentence_index s)) = Some (sentence_index s)"
    using assms(6,7) by (intro parse_int_show_int) (auto simp: INT_MIN_I_def)
  moreover have "send_error_response fd ERR_SENTENCE_LOCKED ''Sentence already locked'' =
      [(To_client fd, ''ERR|423|Sentence already locked'' @ [newline])]"
    by code_simp
  ultimately show ?thesis
    using assms by (simp add: handle_client_write_lock_def Let_def numeral_3_eq_3)
qed

theorem write_lock_refused_witness:
  "snd (handle_client_write_lock demo_lock1 11 [''REQ_WRITE_LOCK'', ''bob'', ''a'', show_int 0]) =
    [(To_client 11, ''ERR|423|Sentence already locked'' @ [newline])]"
proof -
  let ?s = "hd (sessions demo_lock1)"
  have s: "?s \<in> set (sessions demo_lock1)" "client_fd ?s \<noteq> 11" "sess_file ?s = 0" "sentence_index ?s = 0"
      "ss_find_file demo_lock1 ''a'' = Some demo_record" "ss_check_write_access demo_record ''bob''"
    by code_simp+
  show ?thesis
    using write_lock_refused [OF s(1,2,5) _ s(6)] s(3,4) by (simp add: INT_MAX_I_def)
qed



section \<open>Undo\<close>

text \<open>What the undo handler does when it is allowed to run.\<close>

lemma undo_success:
  assumes inv: "ss_inv ss" and f: "ss_find_file ss fname = Some r" and a: "ss_check_write_access r user"
    and q: "\<not> ss_file_has_active_writers ss r" and u: "undo_available r \<noteq> 0"
    and t: "dk_files (ss_disk ss) (undopath r) = Some t" "\<not> dk_denied (ss_disk ss) (undopath r)"
    and w: "may_write (ss_disk ss) (filepath r)"
  shows "handle_client_undo now ss fd [cmd, user, fname] =
    (ss_touch_file_metadata now
       (ss\<lparr>ss_disk := (ss_disk ss)\<lparr>dk_files := (dk_files (ss_disk ss))(filepath r \<mapsto> t)\<rparr>\<rparr>)
       (r\<lparr>undo_available := 0\<rparr>) (Some user) True,
     send_fields (To_client fd) [''OK_UNDO''])"
proof -
  have "dk_limit (ss_disk ss) (filepath r) = None"
    using inv by (simp add: ss_inv_def roomy_def)
  then show ?thesis
    using assms
    by (simp add: handle_client_undo_def locate_def Let_def file_exists_def ss_read_file_content_def
        fopen_read_def write_content_succeeds numeral_2_eq_2)
qed

lemma touch_disk_frame:
  "p \<noteq> metapath r \<Longrightarrow> dk_files (ss_disk (ss_touch_file_metadata n ss r u b)) p = dk_files (ss_disk ss) p"
  by (simp add: write_metadata_frame)

lemma find_file_touch:
  assumes "distinct (map rec_addr (ss_files ss))" "ss_find_file ss f = Some r"
    "rec_addr r' = rec_addr r" "filename r' = filename r"
  shows "ss_find_file (ss_touch_file_metadata n ss r' u b) f = Some (touch_record n u b r')"
  using find_file_put [OF assms(1,2), of "touch_record n u b r'"] assms(3,4)
    find_file_cong [of "ss_touch_file_metadata n ss r' u b" "put_record (touch_record n u b r') ss"]
  by simp

lemma access_touch [simp]:
  "ss_check_write_access (touch_record n u b r) = ss_check_write_access r"
  "ss_check_read_access (touch_record n u b r) = ss_check_read_access r"
  "ss_check_write_access (r\<lparr>undo_available := k\<rparr>) = ss_check_write_access r"
  by (simp_all add: fun_eq_iff ss_check_write_access_def ss_check_read_access_def)

text \<open>Two undos in a row: the first brings the saved text back, the second finds no history.\<close>

lemma undo_twice:
  assumes inv: "ss_inv ss" and f: "ss_find_file ss fname = Some r" and a: "ss_check_write_access r user"
    and q: "\<not> ss_file_has_active_writers ss r" and u: "undo_available r \<noteq> 0"
    and t: "dk_files (ss_disk ss) (undopath r) = Some t" "\<not> dk_denied (ss_disk ss) (undopath r)"
    and w: "may_write (ss_disk ss) (filepath r)"
    and run: "handle_client_undo now2 ss fd2 [cmd, user, fname] = (ss2, out2)"
      "handle_client_undo now3 ss2 fd3 [cmd, user, fname] = (ss3, out3)"
  shows "dk_files (ss_disk ss2) (filepath r) = Some t \<and> out2 = send_fields (To_client fd2) [''OK_UNDO''] \<and>
    out3 = send_error_response fd3 ERR_NO_UNDO_HISTORY ''No undo available'' \<and> ss3 = ss2"
proof -
  let ?m = "ss\<lparr>ss_disk := (ss_disk ss)\<lparr>dk_files := (dk_files (ss_disk ss))(filepath r \<mapsto> t)\<rparr>\<rparr>"
  have ss2: "ss2 = ss_touch_file_metadata now2 ?m (r\<lparr>undo_available := 0\<rparr>) (Some user) True"
    and out2: "out2 = send_fields (To_client fd2) [''OK_UNDO'']"
    using undo_success [OF inv f a q u t w] run(1) by simp_all
  have "r \<in> set (ss_files ss)"
    using ss_find_file_Some [OF f] by simp
  then have "filepath r \<noteq> metapath r"
    using sidecar_not_content [OF inv_parts(1) [OF inv]] by (auto simp: sidecars_def)
  then have restored: "dk_files (ss_disk ss2) (filepath r) = Some t"
    using touch_disk_frame [of "filepath r" "r\<lparr>undo_available := 0\<rparr>" now2 ?m] by (simp add: ss2 del: touch_simps)
  have f2: "ss_find_file ss2 fname = Some (touch_record now2 (Some user) True (r\<lparr>undo_available := 0\<rparr>))"
    unfolding ss2 using inv f find_file_cong [of ?m ss]
    by (intro find_file_touch [of _ _ r]) (simp_all add: ss_inv_def records_wf_def)
  have "\<not> ss_file_has_active_writers ss2 (touch_record now2 (Some user) True (r\<lparr>undo_available := 0\<rparr>))"
    using q by (simp add: ss2 ss_file_has_active_writers_def)
  then have "handle_client_undo now3 ss2 fd3 [cmd, user, fname] =
      (ss2, send_error_response fd3 ERR_NO_UNDO_HISTORY ''No undo available'')"
    using f2 a by (simp add: handle_client_undo_def locate_def Let_def numeral_2_eq_2)
  then show ?thesis
    using restored out2 run(2) by simp
qed

text \<open>C20. Undo after commit: when the committed session was the only one on the document, a
  following \<open>REQ_UNDO\<close> of any user with write access brings back exactly the text
  before the commit and is acknowledged with \<open>OK_UNDO\<close>; a second undo finds no history (error 502) and
  the text stays.\<close>

theorem undo_after_commit:
  assumes "ss_inv ss" "ss_find_session ss fd = Some x"
    "get_record ss (sess_file x) = Some r" "dk_files (ss_disk ss) (filepath r) = Some t"
    "may_write (ss_disk ss) (filepath r)" "may_write (ss_disk ss) (undopath r)" "metapath r \<noteq> undopath r"
    "ss_find_file ss fname = Some r" "ss_check_write_access r user"
    "\<forall>y\<in>set (sessions ss). sess_file y = sess_file x \<longrightarrow> client_fd y = fd"
    "handle_client_etirw now ss fd = (ss1, out1)"
    "handle_client_undo now2 ss1 fd2 [cmd, user, fname] = (ss2, out2)"
    "handle_client_undo now3 ss2 fd3 [cmd, user, fname] = (ss3, out3)"
  shows "dk_files (ss_disk ss2) (filepath r) = Some t \<and> out2 = send_fields (To_client fd2) [''OK_UNDO''] \<and>
    out3 = send_error_response fd3 ERR_NO_UNDO_HISTORY ''No undo available'' \<and> ss3 = ss2"
proof -
  note inv = assms(1)
  obtain d1 d2 where w: "ss_write_file_content (ss_disk ss) (undopath r) t = (d1, True)"
      "ss_write_file_content d1 (filepath r)
         (splice_text t (sentence_start x) (sentence_end x) (sentence_working x)) = (d2, True)"
    and h: "fst (handle_client_etirw now ss fd) = commit_state now ss fd x r t d2"
    using etirw_success [OF assms(1-6)] by (metis fst_conv)
  let ?r1 = "touch_record now (Some (username x)) True (r\<lparr>undo_available := 1\<rparr>)"
  have ss1: "ss1 = commit_state now ss fd x r t d2"
    using h assms(11) by simp
  have xs: "x \<in> set (sessions ss)" "client_fd x = fd"
    using ss_find_session_Some [OF assms(2)] by simp_all
  have ra: "rec_addr r = sess_file x" and rin: "r \<in> set (ss_files ss)"
    using get_record_Some [OF assms(3)] by simp_all
  have dist: "distinct (map rec_addr (ss_files ss))"
    using inv by (simp add: ss_inv_def records_wf_def)
  have inv1: "ss_inv ss1"
    using commit_state_inv(1) [OF inv xs assms(3,4) w] ss1 by simp
  have f1: "ss_find_file ss1 fname = Some ?r1"
    using find_file_put [OF dist assms(8), of ?r1] find_file_cong [OF commit_state_files(1)] ss1 by simp
  have quiet1: "\<not> ss_file_has_active_writers ss1 ?r1"
    using commit_state_sessions [OF inv_parts(2) [OF inv] xs ra, of now t d2] assms(10) ra xs(2)
    by (auto simp: ss1 ss_file_has_active_writers_def list_ex_iff commit_sessions_def)
  have undo1: "dk_files (ss_disk ss1) (undopath r) = Some t"
    by (rule etirw_commit_facts(2) [OF assms(1-7,11)])
  have rest: "dk_dirs (ss_disk ss1) = dk_dirs (ss_disk ss)" "dk_denied (ss_disk ss1) = dk_denied (ss_disk ss)"
    using write_content_rest [OF w(1)] write_content_rest [OF w(2)]
    by (simp_all add: ss1 commit_state_files write_metadata_rest)
  have "dk_files (ss_disk ss2) (filepath ?r1) = Some t \<and> out2 = send_fields (To_client fd2) [''OK_UNDO''] \<and>
      out3 = send_error_response fd3 ERR_NO_UNDO_HISTORY ''No undo available'' \<and> ss3 = ss2"
    using assms(5,6,9) undo1 rest
    by (intro undo_twice [OF inv1 f1 _ quiet1 _ _ _ _ assms(12,13)]) (simp_all add: may_write_def)
  then show ?thesis
    by simp
qed

definition demo_solo :: storage_server where
  "demo_solo = ss_abort_session demo_edit 11"

theorem undo_after_commit_witness:
  "dk_files (ss_disk (fst (handle_client_undo 12 (fst (handle_client_etirw 9 demo_solo 10)) 14
     [''REQ_UNDO'', ''bob'', ''a'']))) ''s/a'' = Some ''Hi yo. So be it.''"
proof -
  let ?x = "the (ss_find_session demo_solo 10)"
  have s: "ss_find_session demo_solo 10 = Some ?x" "sess_file ?x = 0" "get_record demo_solo 0 = Some demo_record"
      "dk_files (ss_disk demo_solo) ''s/a'' = Some ''Hi yo. So be it.''"
      "may_write (ss_disk demo_solo) ''s/a''" "may_write (ss_disk demo_solo) ''s/a.undo''"
      "ss_find_file demo_solo ''a'' = Some demo_record" "ss_check_write_access demo_record ''bob''"
      "\<forall>y\<in>set (sessions demo_solo). client_fd y = 10"
    by code_simp+
  have inv: "ss_inv demo_solo"
    by (simp add: demo_solo_def ss_abort_inv demo_edit_inv)
  show ?thesis
    using undo_after_commit [OF inv s(1) _ _ _ _ _ s(7,8) _ prod.collapse [symmetric] prod.collapse [symmetric]
        prod.collapse [symmetric], where now = 9 and ?now2.0 = 12 and ?fd2.0 = 14 and cmd = "''REQ_UNDO''"] s
    by simp
qed

section \<open>Only writers change a document\<close>

text \<open>Frame lemmas of the handlers that do not write contents.\<close>

lemma file_text_touch_same:
  "ss_inv ss \<Longrightarrow> r \<in> set (ss_files ss) \<Longrightarrow> file_text (ss_touch_file_metadata n ss r u b) a = file_text ss a"
  by (rule file_text_touch [OF inv_parts(1)]) simp_all

lemma locate_text:
  assumes "\<And>r. ss_find_file ss f = Some r \<Longrightarrow> r \<in> set (ss_files ss) \<Longrightarrow> allowed r \<Longrightarrow>
    file_text (fst (body r)) a = file_text ss a"
  shows "file_text (fst (locate ss fd f allowed refusal body)) a = file_text ss a"
  using assms by (auto simp: locate_def split: option.splits dest: ss_find_file_Some)

lemma reading_text:
  assumes "ss_inv ss"
  shows "file_text (fst (handle_client_read now ss fd fs)) a = file_text ss a"
    "file_text (fst (handle_client_stream now ss fd fs)) a = file_text ss a"
    "file_text (fst (handle_client_viewcheckpoint now ss fd fs)) a = file_text ss a"
    "file_text (fst (handle_client_listcheckpoints now ss fd fs)) a = file_text ss a"
  using file_text_touch_same [OF assms]
  by (auto simp: handle_client_read_def handle_client_stream_def handle_client_viewcheckpoint_def
      handle_client_listcheckpoints_def Let_def intro!: locate_text split: option.splits)

lemma locking_text:
  "file_text (fst (handle_client_write_lock ss fd fs)) = file_text ss"
  "file_text (fst (handle_client_write_data ss fd fs)) = file_text ss"
  by (rule file_text_cong; auto simp: handle_client_write_lock_def handle_client_write_data_def
      ss_create_session_def ss_apply_word_edit_def Let_def split: option.splits)+

lemma other_text:
  assumes inv: "ss_inv ss" and r: "r \<in> set (ss_files ss)" and a: "a \<noteq> rec_addr r"
    and frame: "\<And>q. q \<in> set (ss_files ss) \<Longrightarrow> filepath q \<noteq> filepath r \<Longrightarrow>
      dk_files d (filepath q) = dk_files (ss_disk ss) (filepath q)"
  shows "file_text (ss\<lparr>ss_disk := d\<rparr>) a = file_text ss a"
proof -
  have "filepath q \<noteq> filepath r" if "q \<in> set (ss_files ss)" "q \<noteq> r" for q
    using inv that r by (auto simp: ss_inv_def records_wf_def distinct_map inj_on_def)
  then show ?thesis
    using file_text_disk [OF inv_parts(1) [OF inv] r, of d a] frame a by simp
qed

lemma touch_disk_text:
  assumes inv: "ss_inv ss" and r: "r \<in> set (ss_files ss)"
    and r': "rec_addr r' = rec_addr r" "filepath r' = filepath r" "metapath r' = metapath r"
  shows "file_text (ss_touch_file_metadata n (ss\<lparr>ss_disk := d\<rparr>) r' u b) a = file_text (ss\<lparr>ss_disk := d\<rparr>) a"
proof -
  have "records_wf (ss\<lparr>ss_disk := d\<rparr>)"
    by (rule records_wf_cong [OF _ _ inv_parts(1) [OF inv]]) simp_all
  then show ?thesis
    by (rule file_text_touch) (use r r' in simp_all)
qed

lemma undo_text:
  assumes inv: "ss_inv ss"
    and a: "\<And>r. ss_find_file ss (fs ! 2) = Some r \<Longrightarrow> ss_check_write_access r (fs ! 1) \<Longrightarrow>
      \<not> ss_file_has_active_writers ss r \<Longrightarrow> a \<noteq> rec_addr r"
  shows "file_text (fst (handle_client_undo now ss fd fs)) a = file_text ss a"
proof -
  have 1: "file_text (ss\<lparr>ss_disk := d1\<rparr>) a = file_text ss a"
      "file_text (ss_touch_file_metadata now (ss\<lparr>ss_disk := d1\<rparr>) (r\<lparr>undo_available := 0\<rparr>) u True) a = file_text ss a"
    if "r \<in> set (ss_files ss)" "a \<noteq> rec_addr r"
      "ss_write_file_content (ss_disk ss) (filepath r) t = (d1, ok)" for r t d1 ok u
    using other_text [OF inv that(1,2), of d1] write_content_frame [OF that(3)]
      touch_disk_text [OF inv that(1), of "r\<lparr>undo_available := 0\<rparr>" now d1 u True a] by simp_all
  show ?thesis
    unfolding handle_client_undo_def Let_def
    using a 1 by (auto intro!: locate_text split: option.splits prod.splits)
qed

lemma revert_text:
  assumes inv: "ss_inv ss"
    and a: "\<And>r. ss_find_file ss (fs ! 2) = Some r \<Longrightarrow> ss_check_write_access r (fs ! 1) \<Longrightarrow>
      \<not> ss_file_has_active_writers ss r \<Longrightarrow> a \<noteq> rec_addr r"
  shows "file_text (fst (handle_client_revert now ss fd fs)) a = file_text ss a"
proof -
  have und: "filepath q \<noteq> undopath r" if "q \<in> set (ss_files ss)" "r \<in> set (ss_files ss)" for q r
    using sidecar_not_content [OF inv_parts(1) [OF inv] that] by (simp add: sidecars_def)
  have 1: "file_text (ss\<lparr>ss_disk := d1\<rparr>) a = file_text ss a"
    if "r \<in> set (ss_files ss)" "a \<noteq> rec_addr r"
      "ss_copy_file (ss_disk ss) (filepath r) (undopath r) = (d1, ok)" for r d1 ok
    using copy_file_frame [OF that(3)] und that(1) by (intro other_text [OF inv that(1,2)]) simp
  have 2: "file_text (ss\<lparr>ss_disk := fst (ss_copy_file d2 p (filepath r))\<rparr>) a = file_text ss a"
      "file_text (ss\<lparr>ss_disk := d2\<rparr>) a = file_text ss a"
      "file_text (ss_touch_file_metadata now (ss\<lparr>ss_disk := d2\<rparr>) (r\<lparr>undo_available := 1\<rparr>) u True) a = file_text ss a"
    if "r \<in> set (ss_files ss)" "a \<noteq> rec_addr r"
      "ss_copy_file (ss_disk ss) (filepath r) (undopath r) = (d1, ok)"
      "ss_copy_file d1 q (filepath r) = (d2, ok2)" for r d1 ok q d2 ok2 p u
  proof -
    show 2: "file_text (ss\<lparr>ss_disk := d2\<rparr>) a = file_text ss a"
      using copy_file_frame [OF that(3)] copy_file_frame [OF that(4)] und that(1)
      by (intro other_text [OF inv that(1,2)]) simp
    show "file_text (ss\<lparr>ss_disk := fst (ss_copy_file d2 p (filepath r))\<rparr>) a = file_text ss a"
      using copy_file_frame [OF that(3)] copy_file_frame [OF that(4)] und that(1)
      by (intro other_text [OF inv that(1,2)]) (simp add: copy_frame_fst)
    show "file_text (ss_touch_file_metadata now (ss\<lparr>ss_disk := d2\<rparr>) (r\<lparr>undo_available := 1\<rparr>) u True) a = file_text ss a"
      using touch_disk_text [OF inv that(1), of "r\<lparr>undo_available := 1\<rparr>" now d2 u True a] 2 by simp
  qed
  show ?thesis
    unfolding handle_client_revert_def Let_def safe_strcpy_tag option.case
    using a 1 2 by (auto intro!: locate_text split: option.splits prod.splits)
qed

lemma content_frame_text:
  assumes "\<And>q. q \<in> set (ss_files ss) \<Longrightarrow> dk_files d (filepath q) = dk_files (ss_disk ss) (filepath q)"
  shows "file_text (ss\<lparr>ss_disk := d\<rparr>) a = file_text ss a"
  using assms get_record_cong [of "ss\<lparr>ss_disk := d\<rparr>" ss]
  by (auto simp: file_text_def split: option.splits dest: get_record_Some)

lemma checkpoint_text:
  assumes inv: "ss_inv ss" and ok: "checkpoint_ok now ss fs"
  shows "file_text (fst (handle_client_checkpoint now ss fd fs)) a = file_text ss a"
  unfolding handle_client_checkpoint_def Let_def safe_strcpy_tag option.case
proof (simp, intro impI, rule locate_text, goal_cases)
  case (1 r)
  let ?tag = "trim_string (bounded_copy MAX_TAG_LENGTH (fs ! 3))"
  let ?p = "storage_path ss @ ''/'' @ checkpoint_name now r ?tag"
  obtain d1 c where c: "ss_copy_file (ss_disk ss) (filepath r) ?p = (d1, c)"
    by (cases "ss_copy_file (ss_disk ss) (filepath r) ?p")
  have np: "filepath q \<noteq> ?p" if "q \<in> set (ss_files ss)" for q
    using ok 1 in_content_paths [OF that] by (auto simp: checkpoint_ok_def)
  have fr: "dk_files d1 (filepath q) = dk_files (ss_disk ss) (filepath q)" if "q \<in> set (ss_files ss)" for q
    using copy_file_frame [OF c np [OF that]] .
  have un: "file_text (ss\<lparr>ss_disk := fst (disk_unlink d1 ?p)\<rparr>) a = file_text ss a"
    using fr np by (intro content_frame_text) (simp add: unlink_frame)
  let ?b = "length (checkpoints r) \<ge> SS_MAX_CHECKPOINTS"
  obtain r1 d2 where pr: "(r1, d2) = (if ?b then ss_prune_oldest_checkpoint r d1 else (r, d1))"
    by (metis surj_pair)
  have same: "rec_addr r1 = rec_addr r" "filepath r1 = filepath r" "metapath r1 = metapath r"
    using prune_simps [of r d1 r1 d2] pr
    by (auto simp: ss_prune_oldest_checkpoint_def split: if_splits list.splits)
  have "dk_files d2 (filepath q) = dk_files (ss_disk ss) (filepath q)" if "q \<in> set (ss_files ss)" for q
    using prune_frame [of r d1 r1 d2 "filepath q"] own_sidecars [OF inv 1(4)] that pr fr [OF that]
    by (auto split: if_splits)
  then have "file_text (ss\<lparr>ss_disk := d2\<rparr>) a = file_text ss a"
    by (rule content_frame_text)
  then have "file_text (ss_touch_file_metadata now (ss\<lparr>ss_disk := d2\<rparr>) (r1\<lparr>checkpoints := cs\<rparr>) u b) a = file_text ss a"
    for cs u b
    using touch_disk_text [OF inv 1(4), of "r1\<lparr>checkpoints := cs\<rparr>" now d2 u b a] same by simp
  then show ?case
    using un c pr [symmetric] by (auto simp: build_path_def Let_def)
qed

lemma etirw_text:
  assumes inv: "ss_inv ss" and a: "\<And>x. ss_find_session ss fd = Some x \<Longrightarrow> sess_file x \<noteq> a"
  shows "file_text (fst (handle_client_etirw now ss fd)) a = file_text ss a"
proof (cases "ss_find_session ss fd")
  case None
  then show ?thesis
    by (simp add: handle_client_etirw_def etirw_begin_def)
next
  case (Some x)
  have xs: "x \<in> set (sessions ss)" "client_fd x = fd"
    using ss_find_session_Some [OF Some] by simp_all
  obtain r t where r: "get_record ss (sess_file x) = Some r" "r \<in> set (ss_files ss)"
      "dk_files (ss_disk ss) (filepath r) = Some t" "session_ok (Some t) x"
    using session_record [OF inv xs(1)] .
  have ra: "a \<noteq> rec_addr r"
    using a [OF Some] get_record_Some [OF r(1)] by simp
  let ?n = "splice_text t (sentence_start x) (sentence_end x) (sentence_working x)"
  obtain d1 ok1 where w1: "ss_write_file_content (ss_disk ss) (undopath r) t = (d1, ok1)"
    by (cases "ss_write_file_content (ss_disk ss) (undopath r) t")
  obtain d2 ok2 where w2: "ss_write_file_content d1 (filepath r) ?n = (d2, ok2)"
    by (cases "ss_write_file_content d1 (filepath r) ?n")
  have und: "filepath q \<noteq> undopath r" if "q \<in> set (ss_files ss)" for q
    using sidecar_not_content [OF inv_parts(1) [OF inv] that r(2)] by (simp add: sidecars_def)
  have "file_text (ss\<lparr>ss_disk := d1\<rparr>) a = file_text ss a" "file_text (ss\<lparr>ss_disk := d2\<rparr>) a = file_text ss a"
    using write_content_frame [OF w1] write_content_frame [OF w2] und
    by (intro other_text [OF inv r(2) ra]; simp)+
  moreover have "file_text (commit_state now ss fd x r t d2) a = file_text ss a" if "ok1" "ok2"
    using commit_state_inv(2) [OF inv xs r(1,3), of d1 d2 now a] w1 w2 that a [OF Some] by simp
  ultimately show ?thesis
    using Some r w1 w2
    by (cases "dk_denied (ss_disk ss) (filepath r)")
      (simp_all add: handle_client_etirw_def etirw_begin_def etirw_commit_eq [OF r(1,3,4)],
       simp_all add: etirw_commit_def ss_read_file_content_def fopen_read_def)
qed

text \<open>C21. Only writers change a document: if a client request changes the text of a file, then
  it is an \<open>ETIRW\<close> on a connection that holds a lock on that file, or an undo or a revert
  by a user with write access to it while nobody is writing it.\<close>

theorem only_writers_change_text:
  assumes "ss_inv ss" "client_ok now ss fs"
    "file_text (fst (client_dispatch now ss fd fs)) a \<noteq> file_text ss a"
  shows "fs ! 0 = ''ETIRW'' \<and> (\<exists>x. ss_find_session ss fd = Some x \<and> sess_file x = a) \<or>
    fs ! 0 \<in> {''REQ_UNDO'', ''REQ_REVERT''} \<and>
      (\<exists>r. ss_find_file ss (fs ! 2) = Some r \<and> rec_addr r = a \<and> ss_check_write_access r (fs ! 1) \<and>
           \<not> ss_file_has_active_writers ss r)"
proof (rule ccontr)
  assume no: "\<not> ?thesis"
  have "file_text (fst (handle_client_undo now ss fd fs)) a = file_text ss a" if "fs ! 0 = ''REQ_UNDO''"
    using no that by (intro undo_text [OF assms(1)]) auto
  moreover have "file_text (fst (handle_client_revert now ss fd fs)) a = file_text ss a"
    if "fs ! 0 = ''REQ_REVERT''"
    using no that by (intro revert_text [OF assms(1)]) auto
  moreover have "file_text (fst (handle_client_etirw now ss fd)) a = file_text ss a" if "fs ! 0 = ''ETIRW''"
    using no that by (intro etirw_text [OF assms(1)]) auto
  ultimately have "file_text (fst (client_dispatch now ss fd fs)) a = file_text ss a"
    using assms(2) reading_text [OF assms(1)] locking_text [of ss] checkpoint_text [OF assms(1)]
    by (simp add: client_dispatch_def client_ok_def Let_def)
  then show False
    using assms(3) by simp
qed

theorem only_writers_change_text_witness:
  "\<exists>x. ss_find_session demo_edit 10 = Some x \<and> sess_file x = 0"
proof -
  have "file_text (fst (client_dispatch 9 demo_edit 10 [''ETIRW''])) 0 = Some ''Hi you. Oh yo. So be it.''"
      "file_text demo_edit 0 = Some ''Hi yo. So be it.''"
    by code_simp+
  then have "file_text (fst (client_dispatch 9 demo_edit 10 [''ETIRW''])) 0 \<noteq> file_text demo_edit 0"
    by simp
  from only_writers_change_text [OF demo_edit_inv _ this] show ?thesis
    by (auto simp: client_ok_def)
qed

section \<open>Checkpoints\<close>

lemma find_append_None: "find P xs = None \<Longrightarrow> find P (xs @ ys) = find P ys"
  by (induction xs) (auto split: if_splits)

text \<open>C22. A revert restores the checkpoint and can be undone: when a checkpoint with the requested tag exists
  and its snapshot holds \<open>c\<close>, the revert of an idle document by a user with write access makes
  \<open>c\<close> the text, keeps the snapshot, saves the previous text as the undo snapshot, marks it available and
  answers \<open>OK_REVERT\<close>.\<close>

theorem revert_restores:
  assumes "ss_inv ss" "ss_find_file ss fname = Some r" "ss_check_write_access r user"
    "\<not> ss_file_has_active_writers ss r" "tag = trim_string (bounded_copy MAX_TAG_LENGTH raw)"
    "ss_find_checkpoint r tag = Some ck" "dk_files (ss_disk ss) (ck_path ck) = Some c"
    "dk_files (ss_disk ss) (filepath r) = Some t" "ck_path ck \<noteq> undopath r" "metapath r \<noteq> undopath r"
    "ck_path ck \<noteq> metapath r"
    "may_write (ss_disk ss) (filepath r)" "may_write (ss_disk ss) (undopath r)" "may_write (ss_disk ss) (ck_path ck)"
    "handle_client_revert now ss fd [cmd, user, fname, raw] = (ss', out)"
  shows "dk_files (ss_disk ss') (filepath r) = Some c \<and> dk_files (ss_disk ss') (ck_path ck) = Some c \<and>
    dk_files (ss_disk ss') (undopath r) = Some t \<and>
    (\<exists>r'. ss_find_file ss' fname = Some r' \<and> undo_available r' = 1) \<and>
    out = send_fields (To_client fd) [''OK_REVERT'', bounded_copy 256 (''File reverted to '' @ quoted tag @ ''.'')]"
proof -
  note inv = assms(1)
  have r: "r \<in> set (ss_files ss)"
    using ss_find_file_Some [OF assms(2)] by simp
  have ckin: "ck_path ck \<in> set (sidecars r)" and tag: "tag \<noteq> []"
    using assms(6) by (auto simp: ss_find_checkpoint_def sidecars_def split: if_splits dest: find_SomeD)
  have nf: "filepath r \<notin> set (sidecars r)"
    using own_sidecars [OF inv r] r by blast
  then have ne: "ck_path ck \<noteq> filepath r" "filepath r \<noteq> undopath r" "filepath r \<noteq> metapath r"
    using ckin by metis (use nf in \<open>simp_all add: sidecars_def\<close>)
  have lim: "dk_limit (ss_disk ss) = (\<lambda>_. None)"
    using inv by (simp add: ss_inv_def roomy_def)
  let ?d1 = "(ss_disk ss)\<lparr>dk_files := (dk_files (ss_disk ss))(undopath r \<mapsto> t)\<rparr>"
  let ?d2 = "?d1\<lparr>dk_files := (dk_files ?d1)(filepath r \<mapsto> c)\<rparr>"
  have c1: "ss_copy_file (ss_disk ss) (filepath r) (undopath r) = (?d1, True)"
    using assms(8,12,13) lim ne
    by (simp add: ss_copy_file_def fopen_read_def ss_open_truncating_binary_def fopen_trunc_def fwrite_def fits_def
        may_write_def Let_def)
  have c2: "ss_copy_file ?d1 (ck_path ck) (filepath r) = (?d2, True)"
    using assms(7,9,12,14) lim ne
    by (simp add: ss_copy_file_def fopen_read_def ss_open_truncating_binary_def fopen_trunc_def fwrite_def fits_def
        may_write_def Let_def)
  let ?r1 = "r\<lparr>undo_available := 1\<rparr>"
  have ex: "ss_file_exists (ss_disk ss) (ck_path ck)"
    using assms(7,14) by (auto simp: ss_file_exists_def may_write_def)
  have res: "(ss', out) = (ss_touch_file_metadata now (ss\<lparr>ss_disk := ?d2\<rparr>) ?r1 (Some user) True,
      send_fields (To_client fd) [''OK_REVERT'', bounded_copy 256 (''File reverted to '' @ quoted tag @ ''.'')])"
    using assms(2-6,15) tag ex c1 c2
    by (simp add: handle_client_revert_def locate_def Let_def numeral_2_eq_2 numeral_3_eq_3)
  have "ss_find_file ss' fname = Some (touch_record now (Some user) True ?r1)"
    using res inv assms(2) find_file_cong [of "ss\<lparr>ss_disk := ?d2\<rparr>" ss]
    by (auto intro!: find_file_touch [of _ _ r] simp: ss_inv_def records_wf_def)
  then show ?thesis
    using res ne assms(7,9-11) by (simp add: write_metadata_frame)
qed

definition demo_ck_record :: file_record where
  "demo_ck_record = demo_record\<lparr>checkpoints := [\<lparr>ck_tag = ''v1'', ck_path = ''s/a.ckpt_5_v1''\<rparr>]\<rparr>"

definition demo_ck :: storage_server where
  "demo_ck = demo_ss\<lparr>ss_files := [demo_ck_record], ss_disk := demo_disk\<lparr>dk_files :=
     [''s/a'' \<mapsto> ''Oh Hi yo. So be it.'', ''s/a.ckpt_5_v1'' \<mapsto> ''Hi yo. So be it.'']\<rparr>\<rparr>"

lemma demo_ck_inv: "ss_inv demo_ck"
  by (simp add: ss_inv_def demo_ck_def demo_ss_def records_wf_def sessions_wf_def roomy_def demo_ck_record_def
      demo_record_def demo_disk_def sidecars_def empty_record_def)

theorem revert_restores_witness:
  "dk_files (ss_disk (fst (handle_client_revert 9 demo_ck 12 [''REQ_REVERT'', ''bob'', ''a'', ''v1'']))) ''s/a'' =
    Some ''Hi yo. So be it.''"
proof -
  let ?ck = "\<lparr>ck_tag = ''v1'', ck_path = ''s/a.ckpt_5_v1''\<rparr>"
  have s: "ss_find_file demo_ck ''a'' = Some demo_ck_record" "ss_check_write_access demo_ck_record ''bob''"
      "\<not> ss_file_has_active_writers demo_ck demo_ck_record" "''v1'' = trim_string (bounded_copy MAX_TAG_LENGTH ''v1'')"
      "ss_find_checkpoint demo_ck_record ''v1'' = Some ?ck"
      "dk_files (ss_disk demo_ck) (ck_path ?ck) = Some ''Hi yo. So be it.''"
      "dk_files (ss_disk demo_ck) (filepath demo_ck_record) = Some ''Oh Hi yo. So be it.''"
      "ck_path ?ck \<noteq> undopath demo_ck_record" "metapath demo_ck_record \<noteq> undopath demo_ck_record"
      "ck_path ?ck \<noteq> metapath demo_ck_record"
      "may_write (ss_disk demo_ck) (filepath demo_ck_record)" "may_write (ss_disk demo_ck) (undopath demo_ck_record)"
      "may_write (ss_disk demo_ck) (ck_path ?ck)" "filepath demo_ck_record = ''s/a''"
    by code_simp+
  show ?thesis
    using revert_restores [OF demo_ck_inv s(1-13) prod.collapse [symmetric]] s(14) by simp
qed

lemma tag_length: "length (trim_string (bounded_copy MAX_TAG_LENGTH raw)) < MAX_FILENAME_LENGTH"
proof -
  have "length (trim_string (bounded_copy MAX_TAG_LENGTH raw)) \<le> length (bounded_copy MAX_TAG_LENGTH raw)"
    unfolding trim_string_ref using length_dropWhile_le by (metis length_rev order_trans)
  then show ?thesis
    using length_bounded_copy [of MAX_TAG_LENGTH raw] by (simp add: max_defs)
qed

lemma copy_succeeds:
  assumes "dk_files d q = Some t" "may_write d p" "\<not> dk_denied d q" "dk_limit d = (\<lambda>_. None)" "q \<noteq> p"
  shows "ss_copy_file d q p = (d\<lparr>dk_files := (dk_files d)(p \<mapsto> t)\<rparr>, True)"
  using assms
  by (simp add: ss_copy_file_def fopen_read_def ss_open_truncating_binary_def fopen_trunc_def fwrite_def fits_def may_write_def Let_def)

text \<open>Dropping the oldest checkpoint of a record whose array is full.\<close>

lemma prune_if_full:
  assumes "(if length (checkpoints r) \<ge> SS_MAX_CHECKPOINTS then ss_prune_oldest_checkpoint r d else (r, d)) = (r1, d1)"
    "length (checkpoints r) \<le> SS_MAX_CHECKPOINTS"
  shows "rec_addr r1 = rec_addr r" "filename r1 = filename r" "filepath r1 = filepath r" "metapath r1 = metapath r"
    "length (checkpoints r1) < SS_MAX_CHECKPOINTS" "set (checkpoints r1) \<subseteq> set (checkpoints r)"
  using assms by (auto simp: ss_prune_oldest_checkpoint_def SS_MAX_CHECKPOINTS_def split: if_splits list.splits)

text \<open>C26. Taking a checkpoint: for an idle document and a new tag, when the snapshot path is fresh and can be written,
  the snapshot holds the text of the document, the tag is found afterwards, at most
  32 checkpoints remain (the oldest goes when there were 32) and the document is unchanged.\<close>

theorem checkpoint_saves:
  assumes "ss_inv ss" "ss_find_file ss fname = Some r" "ss_check_write_access r user"
    "\<not> ss_file_has_active_writers ss r" "tag = trim_string (bounded_copy MAX_TAG_LENGTH raw)" "tag \<noteq> []"
    "ss_find_checkpoint r tag = None"
    "build_path MAX_PATH_LENGTH (storage_path ss) (checkpoint_name now r tag) = Some p"
    "p \<notin> set (content_paths ss)" "p \<notin> set (sidecars r)"
    "dk_files (ss_disk ss) (filepath r) = Some t" "may_write (ss_disk ss) p" "\<not> dk_denied (ss_disk ss) (filepath r)"
    "length (checkpoints r) \<le> SS_MAX_CHECKPOINTS"
    "handle_client_checkpoint now ss fd [cmd, user, fname, raw] = (ss', out)"
  shows "\<exists>r'. ss_find_file ss' fname = Some r' \<and>
    ss_find_checkpoint r' tag = Some \<lparr>ck_tag = tag, ck_path = p\<rparr> \<and> dk_files (ss_disk ss') p = Some t \<and>
    length (checkpoints r') \<le> SS_MAX_CHECKPOINTS \<and> dk_files (ss_disk ss') (filepath r) = Some t \<and>
    out = send_fields (To_client fd) [''OK_CHECKPOINT'', bounded_copy 256 (''Checkpoint '' @ quoted tag @ '' created.'')]"
proof -
  note inv = assms(1)
  have r: "r \<in> set (ss_files ss)"
    using ss_find_file_Some [OF assms(2)] by simp
  have nf: "filepath r \<noteq> p"
    using assms(9) in_content_paths [OF r] by auto
  let ?d1 = "(ss_disk ss)\<lparr>dk_files := (dk_files (ss_disk ss))(p \<mapsto> t)\<rparr>"
  have c: "ss_copy_file (ss_disk ss) (filepath r) p = (?d1, True)"
    using inv by (intro copy_succeeds [OF assms(11-13) _ nf]) (simp add: ss_inv_def roomy_def)
  let ?b = "length (checkpoints r) \<ge> SS_MAX_CHECKPOINTS"
  obtain r1 d2 where pr: "(if ?b then ss_prune_oldest_checkpoint r ?d1 else (r, ?d1)) = (r1, d2)"
    by (metis surj_pair)
  have tagl: "length tag < MAX_FILENAME_LENGTH"
    unfolding assms(5) by (rule tag_length)
  have pl: "bounded_copy MAX_PATH_LENGTH p = p" "bounded_copy MAX_FILENAME_LENGTH tag = tag"
    using build_path_some [OF assms(8)] tagl by (auto intro!: bounded_copy_id)
  let ?r2 = "r1\<lparr>checkpoints := checkpoints r1 @ [\<lparr>ck_tag = tag, ck_path = p\<rparr>]\<rparr>"
  have res: "(ss', out) = (ss_touch_file_metadata now (ss\<lparr>ss_disk := d2\<rparr>) ?r2 (Some user) False,
      send_fields (To_client fd) [''OK_CHECKPOINT'', bounded_copy 256 (''Checkpoint '' @ quoted tag @ '' created.'')])"
    using assms(2-8,15) c pr pl
    by (simp add: handle_client_checkpoint_def locate_def Let_def numeral_2_eq_2 numeral_3_eq_3)
  note same = prune_if_full [OF pr assms(14)]
  have keep: "dk_files d2 p = Some t" "dk_files d2 (filepath r) = Some t"
    using pr prune_frame [of r ?d1 r1 d2] assms(10,11) own_sidecars [OF inv r] r nf by (auto split: if_splits)
  have "find (\<lambda>c. strncmp_eq MAX_FILENAME_LENGTH (ck_tag c) tag) (checkpoints r) = None"
    using assms(6,7) by (simp add: ss_find_checkpoint_def)
  then have "find (\<lambda>c. strncmp_eq MAX_FILENAME_LENGTH (ck_tag c) tag) (checkpoints r1) = None"
    using same(6) by (auto simp: find_None_iff)
  then have found: "ss_find_checkpoint (touch_record now (Some user) False ?r2) tag = Some \<lparr>ck_tag = tag, ck_path = p\<rparr>"
    using assms(6) by (simp add: ss_find_checkpoint_def find_append_None)
  have "ss_find_file ss' fname = Some (touch_record now (Some user) False ?r2)"
    using res inv assms(2) same find_file_cong [of "ss\<lparr>ss_disk := d2\<rparr>" ss]
    by (auto intro!: find_file_touch [of _ _ r] simp: ss_inv_def records_wf_def)
  moreover have "filepath r \<noteq> metapath r" "p \<noteq> metapath r"
    using own_sidecars [OF inv r] r assms(10) by (auto simp: sidecars_def)
  then have "dk_files (ss_disk ss') p = Some t" "dk_files (ss_disk ss') (filepath r) = Some t"
    using res keep same by (simp_all add: write_metadata_frame)
  ultimately show ?thesis
    using found res same(5) by auto
qed

theorem checkpoint_saves_witness:
  "dk_files (ss_disk (fst (handle_client_checkpoint 5 demo_ss 10 [''REQ_CHECKPOINT'', ''ann'', ''a'', '' v1 ''])))
    ''s/a.ckpt_5_v1'' = Some ''Hi yo. So be it.''"
proof -
  have s: "ss_find_file demo_ss ''a'' = Some demo_record" "ss_check_write_access demo_record ''ann''"
      "\<not> ss_file_has_active_writers demo_ss demo_record" "''v1'' = trim_string (bounded_copy MAX_TAG_LENGTH '' v1 '')"
      "''v1'' \<noteq> []" "ss_find_checkpoint demo_record ''v1'' = None"
      "build_path MAX_PATH_LENGTH (storage_path demo_ss) (checkpoint_name 5 demo_record ''v1'') = Some ''s/a.ckpt_5_v1''"
      "''s/a.ckpt_5_v1'' \<notin> set (content_paths demo_ss)" "''s/a.ckpt_5_v1'' \<notin> set (sidecars demo_record)"
      "dk_files (ss_disk demo_ss) (filepath demo_record) = Some ''Hi yo. So be it.''"
      "may_write (ss_disk demo_ss) ''s/a.ckpt_5_v1''" "\<not> dk_denied (ss_disk demo_ss) (filepath demo_record)"
      "length (checkpoints demo_record) \<le> SS_MAX_CHECKPOINTS"
    by code_simp+
  show ?thesis
    using checkpoint_saves [OF demo_inv s prod.collapse [symmetric], of 10 "''REQ_CHECKPOINT''"] by blast
qed

section \<open>Where the code falls short\<close>


end
