(* ===== verification/Metadata_Sidecar.thy ===== *)
theory Metadata_Sidecar
  imports Storage_Records
begin

text \<open>
  What a restart recovers from the \<open>.meta\<close> sidecar of a file:
  \<open>ss_load_metadata\<close> after \<open>ss_write_metadata\<close> gives back the record, provided no line of the sidecar
  is longer than the buffer of the reader and the names hold no separators.
\<close>

section \<open>Lines\<close>

abbreviation is_line :: "cstring \<Rightarrow> bool" where
  "is_line \<equiv> file_line 1024"

lemma is_line_def:
  "is_line l \<longleftrightarrow> l \<noteq> [] \<and> \<not> is_space (hd l) \<and> \<not> is_space (last l) \<and> newline \<notin> set l \<and> length l \<le> 1022"
  by (auto simp: file_line_def)

section \<open>Users and checkpoints\<close>

lemma load_users_id:
  assumes "\<forall>u\<in>set us. plain_name (CHR '','') MAX_USERNAME_LENGTH u" "length vs + length us \<le> SS_MAX_USERS_PER_FILE"
  shows "load_users vs us = vs @ us"
  using assms
proof (induction us arbitrary: vs)
  case (Cons u us)
  have "trim_string u = u" "u \<noteq> []" "bounded_copy MAX_USERNAME_LENGTH u = u"
    using Cons.prems(1) by (auto simp: plain_name_trim) (auto simp: plain_name_def bounded_copy_id)
  then show ?case
    using Cons by (simp add: Let_def)
qed simp

definition plain_checkpoint :: "checkpoint_record \<Rightarrow> bool" where
  "plain_checkpoint c \<longleftrightarrow> plain_name (CHR '':'') MAX_FILENAME_LENGTH (ck_tag c) \<and>
     plain_name newline MAX_PATH_LENGTH (ck_path c)"

lemma load_checkpoint_id:
  assumes "plain_checkpoint c" "length (checkpoints r) < SS_MAX_CHECKPOINTS"
  shows "load_checkpoint r (ck_tag c @ '':'' @ ck_path c) = r\<lparr>checkpoints := checkpoints r @ [c]\<rparr>"
proof -
  have t: "\<forall>x\<in>set (ck_tag c). x \<noteq> CHR '':''"
    using assms(1) by (auto simp: plain_checkpoint_def plain_name_def)
  then have "takeWhile (\<lambda>x. x \<noteq> CHR '':'') (ck_tag c @ '':'' @ ck_path c) = ck_tag c"
    "dropWhile (\<lambda>x. x \<noteq> CHR '':'') (ck_tag c @ '':'' @ ck_path c) = '':'' @ ck_path c"
    by (simp_all add: takeWhile_append2 dropWhile_append2)
  moreover have "trim_string (ck_tag c) = ck_tag c" "trim_string (ck_path c) = ck_path c"
    using assms(1) plain_name_trim by (auto simp: plain_checkpoint_def)
  moreover have "bounded_copy MAX_FILENAME_LENGTH (ck_tag c) = ck_tag c" "bounded_copy MAX_PATH_LENGTH (ck_path c) = ck_path c"
    using assms(1) by (auto simp: plain_checkpoint_def plain_name_def bounded_copy_id)
  ultimately show ?thesis
    using assms(2) by (simp add: load_checkpoint_def strchr_tail_def)
qed

section \<open>Reading back\<close>

definition savable :: "cstring \<Rightarrow> file_record \<Rightarrow> bool" where
  "savable spath r \<longleftrightarrow>
     ss_set_record_paths spath r (filename r) = r \<and> validate_filename (filename r) \<and>
     list_all is_line (meta_lines r) \<and>
     length (owner r) < MAX_USERNAME_LENGTH \<and> length (last_access_user r) < MAX_USERNAME_LENGTH \<and>
     list_all (plain_name (CHR '','') MAX_USERNAME_LENGTH) (read_users r) \<and> length (read_users r) \<le> SS_MAX_USERS_PER_FILE \<and>
     list_all (plain_name (CHR '','') MAX_USERNAME_LENGTH) (write_users r) \<and> length (write_users r) \<le> SS_MAX_USERS_PER_FILE \<and>
     list_all plain_checkpoint (checkpoints r) \<and> length (checkpoints r) \<le> SS_MAX_CHECKPOINTS \<and>
     list_all (\<lambda>t. LONG_MIN_I \<le> t \<and> t \<le> LONG_MAX_I) [created r, modified r, last_access r] \<and>
     INT_MIN_I \<le> undo_available r \<and> undo_available r \<le> INT_MAX_I"

lemma load_meta_line_cases:
  assumes "is_line l"
  shows "load_meta_line (r, n) (l @ [newline]) = load_meta_line (r, n) l"
  using assms trim_string_idem [of "l @ [newline]"] by (simp add: load_meta_line_def trim_line)

lemma load_lines:
  "is_line (''LOGICAL='' @ x) \<Longrightarrow>
     load_meta_line (r, n) (''LOGICAL='' @ x @ [newline]) = (r, bounded_copy MAX_FILENAME_LENGTH x)"
  "is_line (''OWNER='' @ x) \<Longrightarrow>
     load_meta_line (r, n) (''OWNER='' @ x @ [newline]) = (r\<lparr>owner := bounded_copy MAX_USERNAME_LENGTH x\<rparr>, n)"
  "is_line (''READ='' @ x) \<Longrightarrow>
     load_meta_line (r, n) (''READ='' @ x @ [newline]) = (r\<lparr>read_users := load_users [] (strtok_commas x)\<rparr>, n)"
  "is_line (''WRITE='' @ x) \<Longrightarrow>
     load_meta_line (r, n) (''WRITE='' @ x @ [newline]) = (r\<lparr>write_users := load_users [] (strtok_commas x)\<rparr>, n)"
  "is_line (''CREATED='' @ x) \<Longrightarrow> load_meta_line (r, n) (''CREATED='' @ x @ [newline]) = (r\<lparr>created := atoll x\<rparr>, n)"
  "is_line (''MODIFIED='' @ x) \<Longrightarrow> load_meta_line (r, n) (''MODIFIED='' @ x @ [newline]) = (r\<lparr>modified := atoll x\<rparr>, n)"
  "is_line (''LAST_ACCESS='' @ x) \<Longrightarrow>
     load_meta_line (r, n) (''LAST_ACCESS='' @ x @ [newline]) = (r\<lparr>last_access := atoll x\<rparr>, n)"
  "is_line (''LAST_USER='' @ x) \<Longrightarrow> load_meta_line (r, n) (''LAST_USER='' @ x @ [newline]) =
     (r\<lparr>last_access_user := bounded_copy MAX_USERNAME_LENGTH x\<rparr>, n)"
  "is_line (''UNDO='' @ x) \<Longrightarrow> load_meta_line (r, n) (''UNDO='' @ x @ [newline]) = (r\<lparr>undo_available := atoi x\<rparr>, n)"
  "is_line (''CHECKPOINT='' @ x) \<Longrightarrow>
     load_meta_line (r, n) (''CHECKPOINT='' @ x @ [newline]) = (load_checkpoint r x, n)"
  using trim_line [of 1024 "''LOGICAL='' @ x"] trim_line [of 1024 "''OWNER='' @ x"] trim_line [of 1024 "''READ='' @ x"]
    trim_line [of 1024 "''WRITE='' @ x"] trim_line [of 1024 "''CREATED='' @ x"] trim_line [of 1024 "''MODIFIED='' @ x"]
    trim_line [of 1024 "''LAST_ACCESS='' @ x"] trim_line [of 1024 "''LAST_USER='' @ x"] trim_line [of 1024 "''UNDO='' @ x"]
    trim_line [of 1024 "''CHECKPOINT='' @ x"]
  by (simp_all add: load_meta_line_def strncmp_eq_def)

lemma load_checkpoints:
  assumes "\<forall>c\<in>set cs. plain_checkpoint c" "\<forall>c\<in>set cs. is_line (''CHECKPOINT='' @ ck_tag c @ '':'' @ ck_path c)"
    "length (checkpoints r) + length cs \<le> SS_MAX_CHECKPOINTS"
  shows "foldl load_meta_line (r, n)
    (map (\<lambda>l. l @ [newline]) (map (\<lambda>c. ''CHECKPOINT='' @ ck_tag c @ '':'' @ ck_path c) cs)) =
    (r\<lparr>checkpoints := checkpoints r @ cs\<rparr>, n)"
  using assms
proof (induction cs arbitrary: r)
  case (Cons c cs)
  have "load_meta_line (r, n) ((''CHECKPOINT='' @ ck_tag c @ '':'' @ ck_path c) @ [newline]) =
      (r\<lparr>checkpoints := checkpoints r @ [c]\<rparr>, n)"
    using Cons.prems load_lines(10) [of "ck_tag c @ '':'' @ ck_path c" r n] load_checkpoint_id [of c r] by simp
  then show ?case
    using Cons by simp
qed simp

lemma init_metapath:
  assumes "ss_set_record_paths spath r (filename r) = r" "validate_filename (filename r)"
  shows "metapath (ss_init_file_record spath a (physical_name r)) = metapath r"
proof -
  note flat = validate_filename_flattens [OF assms(2)]
  have len: "length (filename r) < MAX_FILENAME_LENGTH"
    using assms(2) by (simp add: validate_filename_def split: if_splits)
  have "physical_name (ss_set_record_paths spath r (filename r)) = map flat_char (filename r)"
    by (simp add: ss_set_record_paths_def Let_def flat)
  then have p: "physical_name r = map flat_char (filename r)"
    using assms(1) by simp
  have "map flat_char (map flat_char s) = map flat_char s" for s
    by (simp add: flat_char_def)
  then have "flatten_logical_path MAX_FILENAME_LENGTH (physical_name r) = Some (physical_name r)"
    using len p by (simp add: flatten_logical_path_eq)
  then have "metapath (ss_init_file_record spath a (physical_name r)) =
      metapath (ss_set_record_paths spath r (filename r))"
    using flat p by (simp add: ss_init_file_record_def ss_set_record_paths_def Let_def)
  then show ?thesis
    using assms(1) by simp
qed

lemma load_saved:
  assumes "savable spath r" "fopen_read d (metapath r) = Some (meta_text r)" "\<not> migrating r"
  shows "ss_load_metadata spath d (ss_init_file_record spath a (physical_name r)) = Some (r\<lparr>rec_addr := a\<rparr>)"
proof -
  let ?r0 = "ss_init_file_record spath a (physical_name r)"
  have sv: "ss_set_record_paths spath r (filename r) = r" "validate_filename (filename r)"
      "\<forall>l\<in>set (meta_lines r). is_line l"
    using assms(1) by (simp_all add: savable_def list_all_iff)
  have m: "metapath ?r0 = metapath r"
    by (rule init_metapath [OF sv(1,2)])
  have lines: "fgets_lines 1024 (meta_text r) = map (\<lambda>l. l @ [newline]) (meta_lines r)"
    unfolding meta_text_def using sv(3) by (intro fgets_lines_concat) (simp add: is_line_def)
  let ?r = "?r0\<lparr>read_users := [], write_users := [], undo_available := 0, checkpoints := []\<rparr>"
  let ?head = "?r\<lparr>owner := owner r, created := created r, modified := modified r, last_access := last_access r,
      last_access_user := last_access_user r, undo_available := undo_available r,
      read_users := read_users r, write_users := write_users r\<rparr>"
  have names: "bounded_copy MAX_FILENAME_LENGTH (filename r) = filename r"
      "bounded_copy MAX_USERNAME_LENGTH (owner r) = owner r"
      "bounded_copy MAX_USERNAME_LENGTH (last_access_user r) = last_access_user r"
    using assms(1) sv(2) by (auto simp: savable_def validate_filename_def bounded_copy_id split: if_splits)
  have users: "load_users [] (strtok_commas (join_commas (read_users r))) = read_users r"
      "load_users [] (strtok_commas (join_commas (write_users r))) = write_users r"
    using assms(1) strtok_join [of "read_users r" MAX_USERNAME_LENGTH] strtok_join [of "write_users r" MAX_USERNAME_LENGTH]
      load_users_id [of "read_users r" "[]"] load_users_id [of "write_users r" "[]"]
    by (simp_all add: savable_def list_all_iff)
  have nums: "atoll (show_int (created r)) = created r" "atoll (show_int (modified r)) = modified r"
      "atoll (show_int (last_access r)) = last_access r" "atoi (show_int (undo_available r)) = undo_available r"
    using assms(1) by (simp_all add: savable_def atoll_show_int atoi_show_int)
  have cps: "take SS_MAX_CHECKPOINTS (checkpoints r) = checkpoints r" "\<forall>c\<in>set (checkpoints r). plain_checkpoint c"
      "length (checkpoints r) \<le> SS_MAX_CHECKPOINTS"
    using assms(1) by (simp_all add: savable_def list_all_iff)
  have "foldl load_meta_line (?r, []) (fgets_lines 1024 (meta_text r)) =
      (?head\<lparr>checkpoints := checkpoints r\<rparr>, filename r)"
    using load_checkpoints [of "checkpoints r" ?head "filename r"] sv(3) cps
    unfolding lines meta_lines_def map_append foldl_append
    by (simp add: load_lines [simplified] names users nums)
  moreover have "ss_set_record_paths spath (?head\<lparr>checkpoints := checkpoints r\<rparr>) (filename r) = r\<lparr>rec_addr := a\<rparr>"
    using sv(1) assms(3)
    by (cases r) (simp add: ss_init_file_record_def ss_set_record_paths_def empty_record_def Let_def)
  moreover have "filename r \<noteq> []"
    using sv(2) by (auto simp: validate_filename_def)
  ultimately show ?thesis
    by (simp add: ss_load_metadata_def m assms(2) Let_def)
qed

section \<open>How much a line can hold\<close>

definition names_weight :: "cstring list \<Rightarrow> nat" where
  "names_weight us = sum_list (map (\<lambda>u. Suc (length u)) us)"

lemma length_join_commas: "length (join_commas us) = names_weight us - 1"
proof -
  have eq: "Suc (length (join_with d us)) = names_weight us" if "us \<noteq> []" for d
    using that by (induction d us rule: join_with.induct) (auto simp: names_weight_def)
  show ?thesis
    using eq [of "CHR '',''"] by (cases "us = []") (simp_all add: join_commas_def names_weight_def)
qed

lemma split_weight: "names_weight (split_on d s) = Suc (length s)"
  by (induction s) (auto simp: names_weight_def split: list.splits)

lemma strtok_weight: "names_weight (strtok_commas s) \<le> Suc (length s)"
proof -
  have "names_weight (filter P us) \<le> names_weight us" for P us
    by (induction us) (auto simp: names_weight_def)
  then show ?thesis
    by (metis split_weight strtok_commas_def)
qed

lemma trim_shorter: "length (trim_string s) \<le> length s"
  unfolding trim_string_ref using length_dropWhile_le by (metis length_rev order_trans)

lemma load_users_weight: "names_weight (load_users vs us) \<le> names_weight vs + names_weight us"
proof (induction vs us rule: load_users.induct)
  case (2 users token tokens)
  have "length (bounded_copy MAX_USERNAME_LENGTH (trim_string token)) \<le> length token"
    using trim_shorter [of token] by (simp add: bounded_copy_def)
  then show ?case
    using 2 by (auto simp: names_weight_def Let_def split: if_splits)
qed (simp add: names_weight_def)

lemma fgets_lines_short: "l \<in> set (fgets_lines n s) \<Longrightarrow> length l \<le> n - 1"
proof (induction n s rule: fgets_lines.induct)
  case (1 n s)
  then show ?case
    by (subst (asm) (2) fgets_lines.simps) (auto simp: Let_def split: if_splits)
qed

lemma load_meta_line_readers:
  assumes "length l \<le> 1023" "names_weight (read_users r) \<le> 1019"
  shows "names_weight (read_users (fst (load_meta_line (r, n) l))) \<le> 1019"
proof -
  have "length (drop 5 (trim_string l)) \<le> 1018"
    using trim_shorter [of l] assms(1) by simp
  then have "names_weight (load_users [] (strtok_commas (drop 5 (trim_string l)))) \<le> 1019"
    using load_users_weight [of "[]" "strtok_commas (drop 5 (trim_string l))"]
      strtok_weight [of "drop 5 (trim_string l)"]
    by (simp add: names_weight_def)
  then show ?thesis
    using assms(2) by (simp add: load_meta_line_def load_checkpoint_def Let_def split: option.split)
qed

lemma loaded_readers_short:
  assumes "ss_load_metadata spath d r = Some r'"
  shows "length (join_commas (read_users r')) \<le> 1018"
proof -
  have fold: "names_weight (read_users (fst (foldl load_meta_line x ls))) \<le> 1019"
    if "\<forall>l\<in>set ls. length l \<le> 1023" "names_weight (read_users (fst x)) \<le> 1019" for ls x
    using that
  proof (induction ls arbitrary: x)
    case (Cons l ls)
    then show ?case
      using load_meta_line_readers [of l "fst x" "snd x"] by simp
  qed simp
  obtain contents where "fopen_read d (metapath r) = Some contents"
    using assms by (cases "fopen_read d (metapath r)") (simp_all add: ss_load_metadata_def)
  moreover have "read_users (ss_set_record_paths spath q m) = read_users q" for q m
    by (simp add: ss_set_record_paths_def Let_def)
  ultimately have "read_users r' = read_users (fst (foldl load_meta_line
      (r\<lparr>read_users := [], write_users := [], undo_available := 0, checkpoints := []\<rparr>, []) (fgets_lines 1024 contents)))"
    using assms by (simp add: ss_load_metadata_def Let_def case_prod_beta split: if_splits) (metis (no_types))+
  moreover have "\<forall>l\<in>set (fgets_lines 1024 contents). length l \<le> 1023"
    using fgets_lines_short [of _ 1024 contents] by auto
  ultimately show ?thesis
    using fold [of "fgets_lines 1024 contents"
      "(r\<lparr>read_users := [], write_users := [], undo_available := 0, checkpoints := []\<rparr>, [])"]
    by (simp add: length_join_commas names_weight_def)
qed

section \<open>Restart\<close>

definition same_record :: "file_record \<Rightarrow> file_record \<Rightarrow> bool" where
  "same_record r r' \<longleftrightarrow> r' = r\<lparr>rec_addr := rec_addr r'\<rparr>"

lemma load_entries_saved:
  assumes "map fst (filter (\<lambda>e. \<not> skip_entry (ss_disk ss) (storage_path ss) e) entries) = map physical_name rs"
    "\<forall>r\<in>set rs. savable (storage_path ss) r \<and> \<not> migrating r \<and>
       fopen_read (ss_disk ss) (metapath r) = Some (meta_text r)"
  shows "\<exists>rs'. ss_files (load_entries now ss entries) = rs' @ ss_files ss \<and> list_all2 same_record (rev rs) rs' \<and>
    ss_disk (load_entries now ss entries) = ss_disk ss"
  using assms
proof (induction entries arbitrary: ss rs)
  case (Cons e es)
  show ?case
  proof (cases "skip_entry (ss_disk ss) (storage_path ss) e")
    case True
    then show ?thesis
      using Cons by simp
  next
    case False
    then obtain r rs1 where rs: "rs = r # rs1" and e: "fst e = physical_name r"
        and es: "map fst (filter (\<lambda>e. \<not> skip_entry (ss_disk ss) (storage_path ss) e) es) = map physical_name rs1"
      using Cons.prems(1) by (cases rs) auto
    let ?r = "r\<lparr>rec_addr := next_addr ss\<rparr>"
    let ?ss = "ss\<lparr>ss_files := ?r # ss_files ss, next_addr := next_addr ss + 1\<rparr>"
    have add: "ss_add_file_record now ss (fst e) = ?ss"
      using load_saved [of "storage_path ss" r "ss_disk ss" "next_addr ss"] Cons.prems(2) rs e
      by (simp add: ss_add_file_record_def Let_def)
    obtain rs' where "ss_files (load_entries now ?ss es) = rs' @ ss_files ?ss"
        "list_all2 same_record (rev rs1) rs'" "ss_disk (load_entries now ?ss es) = ss_disk ss"
      using Cons.IH [of ?ss rs1] es Cons.prems(2) rs by auto
    moreover have "same_record r ?r"
      by (simp add: same_record_def)
    ultimately show ?thesis
      using False add rs by (intro exI [of _ "rs' @ [?r]"]) (simp add: list_all2_appendI)
  qed
qed simp

end
