(* ===== verification/Storage_Durability.thy ===== *)
theory Storage_Durability
  imports Storage_Properties Metadata_Sidecar
begin

text \<open>
  More properties of a storage server: access lists follow the grants and
  revocations of the name server, a restart recovers the records from their sidecars, and the
  inputs on which names collide, a sidecar is truncated or the disk is full.
\<close>

section \<open>Access lists\<close>

text \<open>C30. The access lists are sets: any script of grants and revocations that has room for its grants leaves exactly
  the members that the set operations give.\<close>

theorem acl_follows_script:
  assumes "acl_wf l" "\<forall>op\<in>set ops. length (acl_subject op) < MAX_USERNAME_LENGTH"
    "length (filter is_grant ops) \<le> SS_MAX_USERS_PER_FILE - length l" "length v < MAX_USERNAME_LENGTH"
  shows "(ss_acl_contains (run_acl ss_acl_add ss_acl_remove ops l) v \<longleftrightarrow> v \<in> fold acl_set_op ops (set l)) \<and>
    acl_wf (run_acl ss_acl_add ss_acl_remove ops l)"
proof -
  have "{u. length u < MAX_USERNAME_LENGTH \<and> ss_acl_contains l u} = set l"
    using assms(1) acl_contains_set [OF assms(1)] by (auto simp: acl_wf_def list_all_iff)
  then show ?thesis
    using ss_acl.mem_run [OF assms] ss_acl.wf_run [OF assms(1,2)] by simp
qed

theorem acl_follows_script_witness:
  "ss_acl_contains (run_acl ss_acl_add ss_acl_remove [Grant ''bob'', Grant ''eve'', Revoke ''ann''] [''ann'']) ''eve'' \<and>
   \<not> ss_acl_contains (run_acl ss_acl_add ss_acl_remove [Grant ''bob'', Grant ''eve'', Revoke ''ann''] [''ann'']) ''ann''"
proof -
  let ?ops = "[Grant ''bob'', Grant ''eve'', Revoke ''ann'']"
  have h: "acl_wf [''ann'']" "\<forall>op\<in>set ?ops. length (acl_subject op) < MAX_USERNAME_LENGTH"
      "length (filter is_grant ?ops) \<le> SS_MAX_USERS_PER_FILE - length [''ann'']"
      "length ''eve'' < MAX_USERNAME_LENGTH" "length ''ann'' < MAX_USERNAME_LENGTH"
    by (simp_all add: acl_wf_def SS_MAX_USERS_PER_FILE_def max_defs)
  show ?thesis
    using acl_follows_script [OF h(1-4)] acl_follows_script [OF h(1-3,5)] by simp
qed

lemma rem_access_success:
  assumes "ss_find_file ss f = Some r" "acl_wf (read_users r)" "acl_wf (write_users r)"
    "length u < MAX_USERNAME_LENGTH" "may_write (ss_disk ss) (metapath r)"
    "ss_acl_contains (read_users r) u \<or> ss_acl_contains (write_users r) u"
  defines "r1 \<equiv> r\<lparr>read_users := fst (ss_acl_remove (read_users r) u), write_users := fst (ss_acl_remove (write_users r) u)\<rparr>"
  shows "ns_rem_access ss [c, f, u] =
    (put_record r1 (ss\<lparr>ss_disk := fst (ss_write_metadata (ss_disk ss) r1)\<rparr>), send_ns ss [''OK_ACCESS_CHANGED'', f])"
proof -
  have ok: "snd (ss_write_metadata (ss_disk ss) r1)"
    using assms(5) by (simp add: ss_write_metadata_def fopen_trunc_def r1_def)
  have "\<not> (snd (ss_acl_remove (read_users r) u) = 0 \<and> snd (ss_acl_remove (write_users r) u) = 0)"
    using assms(2-4,6) by (auto simp: ss_acl.remove_code)
  then have "(snd (ss_acl_remove (read_users r) u) = 0 \<and> snd (ss_acl_remove (write_users r) u) = 0) = False"
    by blast
  then show ?thesis
    using assms(1) ok
    by (simp add: ns_rem_access_def Let_def case_prod_beta numeral_2_eq_2 r1_def [symmetric] del: de_Morgan_conj)
qed

lemma find_file_after_acl:
  assumes "ss_inv ss" "ss_find_file ss f = Some r"
  shows "ss_find_file (put_record (r\<lparr>read_users := a, write_users := b\<rparr>) (ss\<lparr>ss_disk := d\<rparr>)) f =
    Some (r\<lparr>read_users := a, write_users := b\<rparr>)"
  using assms find_file_cong [of "ss\<lparr>ss_disk := d\<rparr>" ss]
  by (intro find_file_put [of _ _ r]) (simp_all add: ss_inv_def records_wf_def)

lemma access_simps:
  "ss_check_read_access (r\<lparr>read_users := a, write_users := b\<rparr>) v \<longleftrightarrow>
     (owner r \<noteq> [] \<and> strncmp_eq MAX_USERNAME_LENGTH (owner r) v) \<or> ss_acl_contains a v \<or> ss_acl_contains b v"
  "ss_check_write_access (r\<lparr>read_users := a, write_users := b\<rparr>) v \<longleftrightarrow>
     (owner r \<noteq> [] \<and> strncmp_eq MAX_USERNAME_LENGTH (owner r) v) \<or> ss_acl_contains b v"
  by (simp_all add: ss_check_read_access_def ss_check_write_access_def)

text \<open>After a successful \<open>SS_REMACCESS\<close> a user who is not the owner can neither
  read nor write the file, and the rights of every other user are as before.\<close>

lemma access_revoked:
  assumes "ss_inv ss" "ss_find_file ss f = Some r" "acl_wf (read_users r)" "acl_wf (write_users r)"
    "length u < MAX_USERNAME_LENGTH" "may_write (ss_disk ss) (metapath r)"
    "ss_acl_contains (read_users r) u \<or> ss_acl_contains (write_users r) u"
    "\<not> strncmp_eq MAX_USERNAME_LENGTH (owner r) u"
  obtains r' where "ss_find_file (fst (ns_rem_access ss [c, f, u])) f = Some r'"
    "snd (ns_rem_access ss [c, f, u]) = send_ns ss [''OK_ACCESS_CHANGED'', f]"
    "\<And>v. length v < MAX_USERNAME_LENGTH \<Longrightarrow> ss_check_read_access r' v \<longleftrightarrow> ss_check_read_access r v \<and> v \<noteq> u"
    "\<And>v. length v < MAX_USERNAME_LENGTH \<Longrightarrow> ss_check_write_access r' v \<longleftrightarrow> ss_check_write_access r v \<and> v \<noteq> u"
proof -
  let ?r = "r\<lparr>read_users := fst (ss_acl_remove (read_users r) u), write_users := fst (ss_acl_remove (write_users r) u)\<rparr>"
  note rem = rem_access_success [OF assms(2-7), of c]
  have mem: "ss_acl_contains (fst (ss_acl_remove l u)) w \<longleftrightarrow> ss_acl_contains l w \<and> w \<noteq> u"
    if "acl_wf l" "length w < MAX_USERNAME_LENGTH" for l w
    using that assms(5) by (simp add: ss_acl.mem_remove)
  have "ss_find_file (fst (ns_rem_access ss [c, f, u])) f = Some ?r"
    unfolding rem fst_conv by (rule find_file_after_acl [OF assms(1,2)])
  moreover have "ss_check_read_access ?r v \<longleftrightarrow> ss_check_read_access r v \<and> v \<noteq> u"
    "ss_check_write_access ?r v \<longleftrightarrow> ss_check_write_access r v \<and> v \<noteq> u" if "length v < MAX_USERNAME_LENGTH" for v
    using assms(3,4,8) that by (auto simp: access_simps mem ss_check_read_access_def ss_check_write_access_def)
  ultimately show ?thesis
    using that [of ?r] rem by simp
qed

text \<open>When both lists have room and the sidecar can be written, \<open>SS_ADDACCESS\<close> with a token of
  letters R and W gives the user the rights asked for, and leaves those of every other user.\<close>

lemma access_granted:
  assumes "ss_inv ss" "ss_find_file ss f = Some r" "acl_wf (read_users r)" "acl_wf (write_users r)"
    "length u < MAX_USERNAME_LENGTH" "may_write (ss_disk ss) (metapath r)"
    "length (read_users r) < SS_MAX_USERS_PER_FILE" "length (write_users r) < SS_MAX_USERS_PER_FILE"
    "wr = wants (CHR ''R'') (CHR ''r'') p" "ww = wants (CHR ''W'') (CHR ''w'') p" "wr \<or> ww"
  obtains r' where "ss_find_file (fst (ns_add_access ss [c, f, u, p])) f = Some r'"
    "snd (ns_add_access ss [c, f, u, p]) = send_ns ss [''OK_ACCESS_CHANGED'', f]"
    "\<And>v. length v < MAX_USERNAME_LENGTH \<Longrightarrow> ss_check_read_access r' v \<longleftrightarrow> ss_check_read_access r v \<or> v = u"
    "\<And>v. length v < MAX_USERNAME_LENGTH \<Longrightarrow> ss_check_write_access r' v \<longleftrightarrow> ss_check_write_access r v \<or> (v = u \<and> ww)"
proof -
  define a where "a = (if wr \<and> \<not> ss_acl_contains (read_users r) u then fst (ss_acl_add (read_users r) u) else read_users r)"
  define b where "b = (if ww \<and> \<not> ss_acl_contains (write_users r) u then fst (ss_acl_add (write_users r) u) else write_users r)"
  define r1 where "r1 = r\<lparr>read_users := a, write_users := b\<rparr>"
  have code: "0 \<le> snd (ss_acl_add (read_users r) u)" "0 \<le> snd (ss_acl_add (write_users r) u)"
    using ss_acl.add_fails [OF assms(3,5)] ss_acl.add_fails [OF assms(4,5)] assms(7,8) by auto
  have "\<exists>p q. add_access r u wr ww = (r1, p, q, True)"
    using code by (auto simp: add_access_def Let_def case_prod_beta r1_def a_def b_def)
  then obtain p1 q1 where add: "add_access r u wr ww = (r1, p1, q1, True)"
    by blast
  have ok: "snd (ss_write_metadata (ss_disk ss) r1)"
    using assms(6) by (simp add: ss_write_metadata_def fopen_trunc_def r1_def)
  let ?d = "if p1 \<or> q1 then fst (ss_write_metadata (ss_disk ss) r1) else ss_disk ss"
  have res: "ns_add_access ss [c, f, u, p] = (put_record r1 (ss\<lparr>ss_disk := ?d\<rparr>), send_ns ss [''OK_ACCESS_CHANGED'', f])"
    using assms(2,11) add ok
    by (auto simp: ns_add_access_def assms(9,10) [symmetric] Let_def case_prod_beta numeral_2_eq_2 numeral_3_eq_3)
  have mem: "ss_acl_contains a w \<longleftrightarrow> ss_acl_contains (read_users r) w \<or> (w = u \<and> wr)"
      "ss_acl_contains b w \<longleftrightarrow> ss_acl_contains (write_users r) w \<or> (w = u \<and> ww)"
    if "length w < MAX_USERNAME_LENGTH" for w
    using ss_acl.mem_add [OF assms(3,5) that] ss_acl.mem_add [OF assms(4,5) that] assms(7,8) by (auto simp: a_def b_def)
  have "ss_find_file (fst (ns_add_access ss [c, f, u, p])) f = Some r1"
    unfolding res r1_def fst_conv by (rule find_file_after_acl [OF assms(1,2)])
  moreover have "ss_check_read_access r1 v \<longleftrightarrow> ss_check_read_access r v \<or> v = u"
    "ss_check_write_access r1 v \<longleftrightarrow> ss_check_write_access r v \<or> (v = u \<and> ww)" if "length v < MAX_USERNAME_LENGTH" for v
    using assms(11) mem [OF that] unfolding r1_def
    by (auto simp: access_simps) (auto simp: ss_check_read_access_def ss_check_write_access_def)
  ultimately show ?thesis
    using that [of r1] res by simp
qed

section \<open>Restart\<close>


definition saved_record :: file_record where
  "saved_record = (ss_init_file_record ''s'' 0 ''d/a'')\<lparr>owner := ''ann'', read_users := [''bob'', ''eve''],
     write_users := [''bob''], created := 5, modified := 7, last_access := 9, last_access_user := ''bob'',
     undo_available := 1, checkpoints := [\<lparr>ck_tag = ''v1'', ck_path = ''s/a.ckpt_5_v1''\<rparr>]\<rparr>"

definition saved_ss :: storage_server where
  "saved_ss = demo_ss\<lparr>ss_files := [], ss_disk := fst (ss_write_metadata (ss_disk demo_ss) saved_record)\<rparr>"


section \<open>Truncated sidecars, colliding names, full disks\<close>

definition long_names :: "cstring list" where
  "long_names = map (replicate 250) ''abcde''"

text \<open>C40. An access list whose line is longer than the buffer of the reader is never recovered: whatever the disk holds,
  the readers of a loaded record fit in 1018 characters together with their commas, since \<open>fgets\<close> cuts
  every line after 1023 characters; five names of 250 characters do not.\<close>

theorem long_acl_not_recovered:
  assumes "ss_load_metadata spath d r = Some r'" "1018 < length (join_commas us)"
  shows "read_users r' \<noteq> us"
  using loaded_readers_short [OF assms(1)] assms(2) by auto

theorem long_acl_not_recovered_witness:
  "\<exists>r'. ss_load_metadata ''s'' (fst (ss_write_metadata demo_disk (saved_record\<lparr>read_users := long_names\<rparr>)))
      (ss_init_file_record ''s'' 0 ''d_a'') = Some r' \<and> read_users r' \<noteq> long_names"
proof -
  let ?d = "fst (ss_write_metadata demo_disk (saved_record\<lparr>read_users := long_names\<rparr>))"
  have m: "metapath (ss_init_file_record ''s'' 0 ''d_a'') = ''s/d_a.meta''" "metapath saved_record = ''s/d_a.meta''"
      "may_write demo_disk ''s/d_a.meta''" "\<not> dk_denied demo_disk ''s/d_a.meta''"
    by code_simp+
  then have "fopen_read ?d (metapath (ss_init_file_record ''s'' 0 ''d_a'')) \<noteq> None"
    by (simp add: fopen_read_def ss_write_metadata_def fopen_trunc_def fwrite_def)
  then obtain r' where "ss_load_metadata ''s'' ?d (ss_init_file_record ''s'' 0 ''d_a'') = Some r'"
    by (auto simp: ss_load_metadata_def Let_def case_prod_beta)
  moreover have "1018 < length (join_commas long_names)"
    by (simp add: long_names_def join_commas_def)
  ultimately show ?thesis
    using long_acl_not_recovered by blast
qed

text \<open>C39. Colliding names: creating a file whose flattened name is that of another file succeeds and
  empties the other file.\<close>

theorem create_empties_colliding_file:
  assumes "ss_find_file ss f = None" "r \<in> set (ss_files ss)"
    "filepath r = filepath (ss_init_file_record (storage_path ss) (next_addr ss) f)"
    "filepath r \<noteq> metapath (ss_init_file_record (storage_path ss) (next_addr ss) f)"
    "may_write (ss_disk ss) (filepath r)"
  shows "snd (ss_create_file now ss f u) \<and>
    dk_files (ss_disk (fst (ss_create_file now ss f u))) (filepath r) = Some []"
  using assms
  by (simp add: ss_create_file_def Let_def fopen_trunc_def write_metadata_frame)

definition folder_record :: file_record where
  "folder_record = (ss_init_file_record ''s'' 1 ''d/a'')\<lparr>owner := ''ann''\<rparr>"

definition folder_ss :: storage_server where
  "folder_ss = demo_ss\<lparr>ss_files := [folder_record], ss_disk := demo_disk\<lparr>dk_files := [''s/d_a'' \<mapsto> ''Top.'']\<rparr>\<rparr>"

theorem create_empties_colliding_file_witness:
  "snd (ss_create_file 6 folder_ss ''d_a'' ''eve'') \<and>
   dk_files (ss_disk (fst (ss_create_file 6 folder_ss ''d_a'' ''eve''))) ''s/d_a'' = Some []"
proof -
  have h: "ss_find_file folder_ss ''d_a'' = None" "filepath folder_record = ''s/d_a''"
      "filepath folder_record = filepath (ss_init_file_record (storage_path folder_ss) (next_addr folder_ss) ''d_a'')"
      "filepath folder_record \<noteq> metapath (ss_init_file_record (storage_path folder_ss) (next_addr folder_ss) ''d_a'')"
      "may_write (ss_disk folder_ss) (filepath folder_record)"
    by code_simp+
  have "folder_record \<in> set (ss_files folder_ss)"
    by (simp add: folder_ss_def)
  then show ?thesis
    using create_empties_colliding_file [OF h(1) _ h(3-5), of 6 "''eve''"] h(2) by simp
qed

text \<open>No checkpoint of a file in a folder can be taken: the snapshot is named after the logical name, with its slash, so
  the path lies in a subdirectory of the storage directory that nothing creates.  The request
  fails although the flat content file exists and the directory can be written.\<close>

lemma checkpoint_in_folder_fails:
  "snd (client_dispatch 5 folder_ss 10 [''REQ_CHECKPOINT'', ''ann'', ''d/a'', ''v1'']) =
     send_fields (To_client 10) [''ERR'', ''500'', ''Failed to persist checkpoint''] \<and>
   may_write (ss_disk folder_ss) ''s/d_a.ckpt_5_v1'' \<and> dk_files (ss_disk folder_ss) ''s/d_a'' = Some ''Top.''"
  by code_simp

definition full_ss :: storage_server where
  "full_ss = demo_edit\<lparr>ss_disk := (ss_disk demo_edit)\<lparr>dk_limit := (\<lambda>p. if p = ''s/a'' then Some 3 else None)\<rparr>\<rparr>"


end
