(* ===== verification/NS_State.thy ===== *)
theory NS_State
  imports Protocol Disk Access_Contract "HOL-Library.Word"
begin

text \<open>
  The state of the name server (\<open>src/name_server/name_server.h\<close>).  Arrays with their counts are
  lists.  A \<open>StorageServerInfo *\<close> is the address of a heap object; the registry holds the
  objects in the order of the array \<open>storage_servers\<close>.  \<open>unsigned long\<close> is
  \<open>64 word\<close>, so the access counter of the cache wraps.  \<open>nm_disk\<close> is the file system
  on which the server keeps its database.
\<close>

section \<open>Limits\<close>

definition NS_MAX_STORAGE_SERVERS :: nat where "NS_MAX_STORAGE_SERVERS = 100"
definition NS_MAX_CLIENTS :: nat where "NS_MAX_CLIENTS = 1000"
definition NS_MAX_FILES :: nat where "NS_MAX_FILES = 10000"
definition NS_MAX_ACCESS_REQUESTS :: nat where "NS_MAX_ACCESS_REQUESTS = 1024"
definition FILE_INDEX_SIZE :: nat where "FILE_INDEX_SIZE = 1024"
definition FILE_CACHE_SIZE :: nat where "FILE_CACHE_SIZE = 64"

section \<open>Records\<close>

record file_metadata =
  fm_name :: cstring
  fm_owner :: cstring
  fm_ss_ip :: cstring
  fm_ss_port :: int
  fm_size :: int
  fm_word_count :: int
  fm_char_count :: int
  fm_is_directory :: bool
  fm_created :: int
  fm_modified :: int
  fm_last_access :: int
  fm_last_access_user :: cstring
  fm_last_modified_user :: cstring
  fm_read_users :: "cstring list"
  fm_write_users :: "cstring list"

definition zero_metadata :: file_metadata where
  "zero_metadata = \<lparr>fm_name = [], fm_owner = [], fm_ss_ip = [], fm_ss_port = 0, fm_size = 0,
     fm_word_count = 0, fm_char_count = 0, fm_is_directory = False, fm_created = 0, fm_modified = 0,
     fm_last_access = 0, fm_last_access_user = [], fm_last_modified_user = [], fm_read_users = [],
     fm_write_users = []\<rparr>"

record ss_info =
  si_addr :: nat
  si_ns_ip :: cstring
  si_ns_port :: int
  si_client_ip :: cstring
  si_client_port :: int
  si_sockfd :: int
  si_alive :: bool
  si_heartbeat :: int
  si_total_bytes :: int
  si_total_files :: int
  si_awaiting :: bool
  si_ready :: bool
  si_status :: int
  si_raw :: "cstring option"
  si_refcount :: int

record client_info =
  ci_username :: cstring
  ci_ip :: cstring
  ci_port :: int
  ci_sockfd :: int
  ci_connected :: bool

type_synonym index_node = "cstring \<times> int"
type_synonym file_index = "index_node list list"

record cache_entry =
  ce_name :: cstring
  ce_index :: int
  ce_valid :: bool
  ce_last_used :: "64 word"

record access_request =
  ar_id :: int
  ar_file :: cstring
  ar_from :: cstring
  ar_to :: cstring
  ar_read :: bool
  ar_write :: bool
  ar_pending :: bool

record name_server =
  nm_port :: int
  nm_sockfd :: int
  nm_servers :: "ss_info list"
  nm_next_addr :: nat
  nm_clients :: "client_info list"
  nm_files :: "file_metadata list"
  nm_requests :: "access_request list"
  nm_next_request :: int
  nm_index :: file_index
  nm_cache :: "cache_entry list"
  nm_tick :: "64 word"
  nm_round_robin :: nat
  nm_disk :: disk

definition empty_cache_entry :: cache_entry where
  "empty_cache_entry = \<lparr>ce_name = [], ce_index = 0, ce_valid = False, ce_last_used = 0\<rparr>"

definition empty_name_server :: "int \<Rightarrow> disk \<Rightarrow> name_server" where
  "empty_name_server port d = \<lparr>nm_port = port, nm_sockfd = -1, nm_servers = [], nm_next_addr = 0, nm_clients = [], nm_files = [],
     nm_requests = [], nm_next_request = 1, nm_index = replicate FILE_INDEX_SIZE [],
     nm_cache = replicate FILE_CACHE_SIZE empty_cache_entry, nm_tick = 0, nm_round_robin = 0, nm_disk = d\<rparr>"

end
