(* ===== verification/File_Index.thy ===== *)
theory File_Index
  imports NS_State
begin

text \<open>
  The file table of the name server (\<open>name_server.c\<close>): the hash of a name, the
  chained hash index, the cache in front of it with least-recently-used replacement, the lookup through
  both, and the removal of an entry, which moves the last entry of the table
  into the hole and repairs index and cache.

  The locale \<open>name_table\<close> is the contract of the index.  Its client lemmas say
  that the index stays the inverse of the table when an entry is appended, renamed or
  removed by moving the last one.
\<close>

unbundle bit_operations_syntax

section \<open>Hash index\<close>

text \<open>\<open>int c = *str++\<close> reads a signed character, which the conversion to
  \<open>unsigned long\<close> extends with its sign.\<close>

definition signed_char :: "char \<Rightarrow> int" where
  "signed_char ch = (let n = of_char ch :: int in if n \<ge> 128 then n - 256 else n)"

definition hash_filename :: "cstring \<Rightarrow> 64 word" where
  "hash_filename str = foldl (\<lambda>hash c. (push_bit 5 hash + hash) + word_of_int (signed_char c)) 5381 str"

definition bucket_of :: "cstring \<Rightarrow> nat" where
  "bucket_of fname = unat (hash_filename fname) mod FILE_INDEX_SIZE"

definition index_find :: "file_index \<Rightarrow> cstring \<Rightarrow> int option" where
  "index_find idx fname = map_of (idx ! bucket_of fname) fname"

definition file_index_find :: "name_server \<Rightarrow> cstring \<Rightarrow> int option" where
  "file_index_find ns fname = index_find (nm_index ns) fname"

text \<open>The chain walk that overwrites the index of the first node with the name.\<close>

fun chain_update :: "cstring \<Rightarrow> int \<Rightarrow> index_node list \<Rightarrow> index_node list option" where
  "chain_update fname i [] = None"
| "chain_update fname i ((n, j) # nodes) =
     (if n = fname then Some ((n, i) # nodes) else map_option ((#) (n, j)) (chain_update fname i nodes))"

fun chain_remove :: "cstring \<Rightarrow> index_node list \<Rightarrow> index_node list" where
  "chain_remove fname [] = []"
| "chain_remove fname ((n, j) # nodes) = (if n = fname then nodes else (n, j) # chain_remove fname nodes)"

definition index_insert :: "file_index \<Rightarrow> cstring \<Rightarrow> int \<Rightarrow> file_index" where
  "index_insert idx fname i =
     (let b = bucket_of fname in
      case chain_update fname i (idx ! b) of
        Some chain \<Rightarrow> idx[b := chain]
      | None \<Rightarrow> idx[b := (bounded_copy MAX_FILENAME_LENGTH fname, i) # idx ! b])"

definition file_index_insert :: "name_server \<Rightarrow> cstring \<Rightarrow> int \<Rightarrow> name_server \<times> bool" where
  "file_index_insert ns fname i =
     (if i < 0 then (ns, False) else (ns\<lparr>nm_index := index_insert (nm_index ns) fname i\<rparr>, True))"

definition index_remove :: "file_index \<Rightarrow> cstring \<Rightarrow> file_index" where
  "index_remove idx fname = (let b = bucket_of fname in idx[b := chain_remove fname (idx ! b)])"

definition file_index_remove_entry :: "name_server \<Rightarrow> cstring \<Rightarrow> name_server \<times> bool" where
  "file_index_remove_entry ns fname =
     (ns\<lparr>nm_index := index_remove (nm_index ns) fname\<rparr>, file_index_find ns fname \<noteq> None)"

definition ns_clear_file_index :: "name_server \<Rightarrow> name_server" where
  "ns_clear_file_index ns = ns\<lparr>nm_index := replicate FILE_INDEX_SIZE []\<rparr>"

section \<open>Cache\<close>

definition file_cache_invalidate :: "name_server \<Rightarrow> cstring \<Rightarrow> name_server" where
  "file_cache_invalidate ns fname =
     ns\<lparr>nm_cache := map (\<lambda>e. if ce_valid e \<and> ce_name e = fname then e\<lparr>ce_valid := False\<rparr> else e) (nm_cache ns)\<rparr>"

fun rename_entries :: "cstring \<Rightarrow> cstring \<Rightarrow> int \<Rightarrow> 64 word \<Rightarrow> cache_entry list \<Rightarrow> cache_entry list \<times> 64 word" where
  "rename_entries old_name new_name i tick [] = ([], tick)"
| "rename_entries old_name new_name i tick (e # es) =
     (if ce_valid e \<and> ce_name e = old_name then
        let (es', tick') = rename_entries old_name new_name i (tick + 1) es in
        (e\<lparr>ce_name := bounded_copy MAX_FILENAME_LENGTH new_name, ce_index := i, ce_last_used := tick + 1\<rparr> # es', tick')
      else let (es', tick') = rename_entries old_name new_name i tick es in (e # es', tick'))"

definition file_cache_rename :: "name_server \<Rightarrow> cstring \<Rightarrow> cstring \<Rightarrow> int \<Rightarrow> name_server" where
  "file_cache_rename ns old_name new_name i =
     (let (es, tick) = rename_entries old_name new_name i (nm_tick ns) (nm_cache ns) in
      ns\<lparr>nm_cache := es, nm_tick := tick\<rparr>)"

text \<open>The scan of \<open>file_cache_lookup\<close>: an entry whose index is out of range is
  invalidated on the way; the first good one is stamped with the next tick.\<close>

fun cache_scan :: "cstring \<Rightarrow> int \<Rightarrow> 64 word \<Rightarrow> cache_entry list \<Rightarrow> cache_entry list \<times> int option" where
  "cache_scan fname file_count tick [] = ([], None)"
| "cache_scan fname file_count tick (e # es) =
     (if \<not> ce_valid e \<or> ce_name e \<noteq> fname then
        let (es', r) = cache_scan fname file_count tick es in (e # es', r)
      else if ce_index e < 0 \<or> ce_index e \<ge> file_count then
        let (es', r) = cache_scan fname file_count tick es in (e\<lparr>ce_valid := False\<rparr> # es', r)
      else (e\<lparr>ce_last_used := tick + 1\<rparr> # es, Some (ce_index e)))"

definition file_cache_lookup :: "name_server \<Rightarrow> cstring \<Rightarrow> name_server \<times> int option" where
  "file_cache_lookup ns fname =
     (let (es, r) = cache_scan fname (int (length (nm_files ns))) (nm_tick ns) (nm_cache ns) in
      (ns\<lparr>nm_cache := es, nm_tick := (if r = None then nm_tick ns else nm_tick ns + 1)\<rparr>, r))"

text \<open>The entry to overwrite: the one with the name, else the first free one, else the
  first with the least \<open>last_used\<close> (below \<open>ULONG_MAX\<close>).\<close>

fun first_index :: "('a \<Rightarrow> bool) \<Rightarrow> 'a list \<Rightarrow> nat option" where
  "first_index P [] = None"
| "first_index P (x # xs) = (if P x then Some 0 else map_option Suc (first_index P xs))"

fun lru_scan :: "cache_entry list \<Rightarrow> nat \<Rightarrow> 64 word \<Rightarrow> nat option \<Rightarrow> nat option" where
  "lru_scan [] i oldest oldest_entry = oldest_entry"
| "lru_scan (e # es) i oldest oldest_entry =
     (if \<not> ce_valid e then Some i
      else if ce_last_used e < oldest then lru_scan es (i + 1) (ce_last_used e) (Some i)
      else lru_scan es (i + 1) oldest oldest_entry)"

definition cache_target :: "cache_entry list \<Rightarrow> cstring \<Rightarrow> nat option" where
  "cache_target es fname =
     (case first_index (\<lambda>e. ce_valid e \<and> ce_name e = fname) es of
        Some i \<Rightarrow> Some i
      | None \<Rightarrow> (case first_index (\<lambda>e. \<not> ce_valid e) es of
          Some i \<Rightarrow> Some i
        | None \<Rightarrow> lru_scan es 0 (- 1) None))"

definition file_cache_store :: "name_server \<Rightarrow> cstring \<Rightarrow> int \<Rightarrow> name_server" where
  "file_cache_store ns fname i =
     (if i < 0 \<or> i \<ge> int (length (nm_files ns)) then ns
      else case cache_target (nm_cache ns) fname of
        None \<Rightarrow> ns
      | Some t \<Rightarrow> ns\<lparr>nm_cache := (nm_cache ns)[t := \<lparr>ce_name = bounded_copy MAX_FILENAME_LENGTH fname,
            ce_index = i, ce_valid = True, ce_last_used = nm_tick ns + 1\<rparr>], nm_tick := nm_tick ns + 1\<rparr>)"

section \<open>Lookup and removal\<close>

text \<open>The result is the index of the entry, from which the callers take the address
  \<open>&ns->files[index]\<close>.\<close>

definition file_lookup_locked :: "name_server \<Rightarrow> cstring \<Rightarrow> name_server \<times> nat option" where
  "file_lookup_locked ns fname =
     (let (ns1, cached) = file_cache_lookup ns fname in
      case cached of
        Some i \<Rightarrow> (ns1, Some (nat i))
      | None \<Rightarrow> (case file_index_find ns1 fname of
          None \<Rightarrow> (ns1, None)
        | Some i \<Rightarrow>
            if i < 0 \<or> i \<ge> int (length (nm_files ns1)) then (ns1, None)
            else (file_cache_store ns1 fname i, Some (nat i))))"

text \<open>\<open>moved\<close> is the name of the entry that was moved into the hole, if one was.\<close>

definition repair_entry :: "cstring \<Rightarrow> cstring option \<Rightarrow> nat \<Rightarrow> nat \<Rightarrow> cache_entry \<Rightarrow> cache_entry" where
  "repair_entry fname moved removed_index file_count e =
     (if \<not> ce_valid e then e
      else if ce_name e = fname then e\<lparr>ce_valid := False\<rparr>
      else
        let e1 = (if moved = Some (ce_name e) then e\<lparr>ce_index := int removed_index\<rparr> else e) in
        if ce_index e1 \<ge> int file_count then e1\<lparr>ce_valid := False\<rparr> else e1)"

definition remove_file_metadata_locked :: "name_server \<Rightarrow> cstring \<Rightarrow> name_server \<times> bool" where
  "remove_file_metadata_locked ns fname =
     (case file_index_find ns fname of
        None \<Rightarrow> (ns, False)
      | Some node_index \<Rightarrow>
          let files = nm_files ns; original_count = length files; last_index = original_count - 1;
              removed_index = (if 0 \<le> node_index \<and> node_index < int original_count
                               then nat node_index else last_index);
              idx1 = index_remove (nm_index ns) fname;
              moved = (if original_count > 0 \<and> removed_index \<noteq> last_index \<and> fm_name (last files) \<noteq> []
                       then Some (fm_name (last files)) else None);
              files1 = (if original_count > 0 then swap_remove removed_index files else files);
              idx2 = (case moved of None \<Rightarrow> idx1
                      | Some g \<Rightarrow> if index_find idx1 g \<noteq> None then index_insert idx1 g (int removed_index) else idx1) in
          (ns\<lparr>nm_files := files1, nm_index := idx2,
              nm_cache := map (repair_entry fname moved removed_index (length files1)) (nm_cache ns)\<rparr>, True))"

section \<open>Contract of the index\<close>

locale name_table =
  fixes inv :: "'t \<Rightarrow> bool" and ok :: "cstring \<Rightarrow> bool" and find :: "'t \<Rightarrow> cstring \<Rightarrow> int option"
    and ins :: "'t \<Rightarrow> cstring \<Rightarrow> int \<Rightarrow> 't" and del :: "'t \<Rightarrow> cstring \<Rightarrow> 't" and empty :: 't
  assumes inv_empty: "inv empty"
    and find_empty: "find empty f = None"
    and inv_ins: "inv t \<Longrightarrow> ok f \<Longrightarrow> inv (ins t f i)"
    and find_ins: "inv t \<Longrightarrow> ok f \<Longrightarrow> find (ins t f i) = (find t)(f := Some i)"
    and inv_del: "inv t \<Longrightarrow> inv (del t f)"
    and find_del: "inv t \<Longrightarrow> find (del t f) = (find t)(f := None)"
begin

text \<open>The index holds exactly the positions of the names of a table.\<close>

definition indexes :: "'t \<Rightarrow> cstring list \<Rightarrow> bool" where
  "indexes t names \<longleftrightarrow> inv t \<and> distinct names \<and>
     (\<forall>f i. find t f = Some i \<longleftrightarrow> (\<exists>k<length names. i = int k \<and> names ! k = f))"

lemma indexesD:
  assumes "indexes t names"
  shows "inv t" "distinct names" "find t f = Some i \<longleftrightarrow> (\<exists>k<length names. i = int k \<and> names ! k = f)"
  using assms by (simp_all add: indexes_def)

lemma indexes_None: "indexes t names \<Longrightarrow> find t f = None \<longleftrightarrow> f \<notin> set names"
  using indexesD(3) [of t names f] by (cases "find t f") (auto simp: in_set_conv_nth)

lemma indexes_nth: "indexes t names \<Longrightarrow> k < length names \<Longrightarrow> find t (names ! k) = Some (int k)"
  using indexesD(3) by blast

lemma indexes_empty: "indexes empty []"
  by (simp add: indexes_def inv_empty find_empty)

lemma indexes_append:
  assumes "indexes t names" "ok f" "f \<notin> set names"
  shows "indexes (ins t f (int (length names))) (names @ [f])"
proof -
  have "find (ins t f (int (length names))) g = Some i \<longleftrightarrow> (\<exists>k<length (names @ [f]). i = int k \<and> (names @ [f]) ! k = g)" for g i
  proof (cases "g = f")
    case True
    have "names ! k \<noteq> f" if "k < length names" for k
      using that assms(3) nth_mem by blast
    then show ?thesis
      using True assms(2) indexesD [OF assms(1)] by (auto simp: find_ins nth_append less_Suc_eq)
  next
    case False
    then show ?thesis
      using assms(2) indexesD [OF assms(1)] by (auto simp: find_ins nth_append less_Suc_eq)
  qed
  then show ?thesis
    using assms by (simp add: indexes_def inv_ins)
qed

lemma indexes_rename:
  assumes "indexes t names" "k < length names" "ok g" "g \<notin> set names"
  shows "indexes (ins (del t (names ! k)) g (int k)) (names[k := g])"
proof -
  note I = indexesD [OF assms(1)]
  have find: "find (ins (del t (names ! k)) g (int k)) f =
      (if f = g then Some (int k) else if f = names ! k then None else find t f)" for f
    using I(1) assms(3) by (simp add: find_ins find_del inv_del)
  have other: "j = k" if "j < length names" "names ! j = names ! k" for j
    using that assms(2) I(2) by (simp add: nth_eq_iff_index_eq)
  have "find (ins (del t (names ! k)) g (int k)) f = Some i \<longleftrightarrow>
      (\<exists>j<length names. i = int j \<and> names[k := g] ! j = f)" for f i
  proof (cases "f = g")
    case True
    have "names ! j \<noteq> g" if "j < length names" for j
      using that assms(4) nth_mem by blast
    then show ?thesis
      using True assms(2) by (auto simp: find nth_list_update)
  next
    case False
    have "(\<exists>j<length names. i = int j \<and> names[k := g] ! j = f) \<longleftrightarrow> (\<exists>j<length names. j \<noteq> k \<and> i = int j \<and> names ! j = f)"
      using False assms(2) by (metis nth_list_update_eq nth_list_update_neq)
    also have "\<dots> \<longleftrightarrow> f \<noteq> names ! k \<and> find t f = Some i"
      unfolding I(3) using other by blast
    finally show ?thesis
      using False by (auto simp: find)
  qed
  then show ?thesis
    using I(1,2) assms by (simp add: indexes_def inv_ins inv_del distinct_list_update)
qed

lemma indexes_swap_remove:
  assumes "indexes t names" "i < length names" "\<forall>f\<in>set names. ok f"
  shows "indexes (if i = length names - 1 then del t (names ! i)
    else ins (del t (names ! i)) (last names) (int i)) (swap_remove i names)"
proof -
  note I = indexesD [OF assms(1)]
  define n where "n = length names - 1"
  have ne: "names \<noteq> []"
    using assms(2) by auto
  then have n: "length names = Suc n" "i \<le> n" "last names = names ! n" "ok (last names)"
    using assms(2,3) last_in_set [OF ne] by (auto simp: n_def last_conv_nth)
  have inj: "a = b" if "names ! a = names ! b" "a \<le> n" "b \<le> n" for a b
    using that I(2) n(1) by (simp add: nth_eq_iff_index_eq)
  have nth: "swap_remove i names ! k = (if k = i then names ! n else names ! k)" if "k < n" for k
    using that n by (auto simp: swap_remove_def nth_butlast nth_list_update)
  let ?t = "if i = n then del t (names ! i) else ins (del t (names ! i)) (last names) (int i)"
  have find: "find ?t f = (if i \<noteq> n \<and> f = names ! n then Some (int i)
      else if f = names ! i then None else find t f)" for f
    using I(1) n by (simp add: find_del find_ins inv_del)
  have "find ?t f = Some j \<longleftrightarrow> (\<exists>k<n. j = int k \<and> swap_remove i names ! k = f)" for f j
  proof
    assume "find ?t f = Some j"
    then consider "i \<noteq> n" "f = names ! n" "j = int i" | "f \<noteq> names ! i" "i = n \<or> f \<noteq> names ! n" "find t f = Some j"
      unfolding find by (auto split: if_splits)
    then show "\<exists>k<n. j = int k \<and> swap_remove i names ! k = f"
    proof cases
      case 1
      then show ?thesis
        using nth [of i] n(2) by (intro exI [of _ i]) simp
    next
      case 2
      then obtain k where "k \<le> n" "j = int k" "names ! k = f"
        using I(3) n(1) by (auto simp: less_Suc_eq_le)
      then show ?thesis
        using 2 nth [of k] by (intro exI [of _ k]) (auto simp: order.order_iff_strict)
    qed
  next
    assume "\<exists>k<n. j = int k \<and> swap_remove i names ! k = f"
    then obtain k where k: "k < n" "j = int k" "(if k = i then names ! n else names ! k) = f"
      using nth by auto
    then have t: "find t (names ! k) = Some j"
      using indexes_nth [OF assms(1)] n(1) by simp
    show "find ?t f = Some j"
    proof (cases "k = i")
      case True
      then show ?thesis
        unfolding find using k by simp
    next
      case False
      then have "f = names ! k" "f \<noteq> names ! n" "f \<noteq> names ! i"
        using k n(2) inj [of k n] inj [of k i] by auto
      then show ?thesis
        unfolding find using t by simp
    qed
  qed
  then show ?thesis
    using I(1,2) n swap_remove_set(2) [OF assms(2) I(2)] by (simp add: indexes_def inv_del inv_ins)
qed

end

section \<open>The hash index fulfils the contract\<close>

definition index_wf :: "file_index \<Rightarrow> bool" where
  "index_wf idx \<longleftrightarrow> length idx = FILE_INDEX_SIZE \<and> list_all (\<lambda>chain. distinct (map fst chain)) idx"

definition name_ok :: "cstring \<Rightarrow> bool" where
  "name_ok f \<longleftrightarrow> f \<noteq> [] \<and> length f < MAX_FILENAME_LENGTH"

lemma bucket_less [simp]: "bucket_of f < FILE_INDEX_SIZE"
  by (simp add: bucket_of_def FILE_INDEX_SIZE_def)

lemma bucket_bound [simp]: "index_wf idx \<Longrightarrow> bucket_of f < length idx"
  by (simp add: index_wf_def bucket_of_def FILE_INDEX_SIZE_def)

lemma chain_update_None: "chain_update f i c = None \<longleftrightarrow> f \<notin> fst ` set c"
  by (induction f i c rule: chain_update.induct) auto

lemma chain_update_Some:
  "chain_update f i c = Some c' \<Longrightarrow> map fst c' = map fst c \<and> (\<forall>g. map_of c' g = (if g = f then Some i else map_of c g))"
proof (induction f i c arbitrary: c' rule: chain_update.induct)
  case (2 f i n j c)
  then show ?case
    by (fastforce split: if_splits)
qed simp

lemma chain_remove_props:
  "distinct (map fst c) \<Longrightarrow> distinct (map fst (chain_remove f c)) \<and> fst ` set (chain_remove f c) \<subseteq> fst ` set c \<and>
     map_of (chain_remove f c) g = (if g = f then None else map_of c g)"
proof (induction f c rule: chain_remove.induct)
  case (2 f n j c)
  then show ?case
    by (cases "n = f") (auto simp: map_of_eq_None_iff [THEN iffD2])
qed simp

interpretation fi: name_table index_wf name_ok index_find index_insert index_remove "replicate FILE_INDEX_SIZE []"
proof
  fix idx :: file_index and f g :: cstring and i :: int
  show "index_wf (replicate FILE_INDEX_SIZE [])"
    by (simp add: index_wf_def list_all_length)
  show "index_find (replicate FILE_INDEX_SIZE []) f = None"
    by (simp add: index_find_def bucket_of_def FILE_INDEX_SIZE_def)
  assume wf: "index_wf idx"
  let ?b = "bucket_of f"
  have dist: "distinct (map fst (idx ! ?b))"
    using wf bucket_bound [OF wf, of f] by (simp add: index_wf_def list_all_length)
  show "index_wf (index_remove idx f)"
    using wf dist chain_remove_props by (auto simp: index_wf_def index_remove_def Let_def list_all_length nth_list_update)
  show "index_find (index_remove idx f) = (index_find idx)(f := None)"
  proof
    fix g
    show "index_find (index_remove idx f) g = ((index_find idx)(f := None)) g"
    proof (cases "bucket_of g = ?b")
      case True
      then show ?thesis
        using chain_remove_props [OF dist, of f g] bucket_bound [OF wf, of f]
        by (simp add: index_find_def index_remove_def Let_def del: bucket_bound)
    next
      case False
      then have "g \<noteq> f"
        by blast
      then show ?thesis
        using False by (simp add: index_find_def index_remove_def Let_def)
    qed
  qed
  assume ok: "name_ok f"
  have copy: "bounded_copy MAX_FILENAME_LENGTH f = f"
    using ok by (simp add: name_ok_def bounded_copy_id)
  define c where "c = (case chain_update f i (idx ! ?b) of Some c \<Rightarrow> c | None \<Rightarrow> (f, i) # idx ! ?b)"
  have ins: "index_insert idx f i = idx[?b := c]"
    by (simp add: index_insert_def c_def copy Let_def split: option.split)
  have c: "distinct (map fst c)" "map_of c g = (if g = f then Some i else map_of (idx ! ?b) g)" for g
  proof -
    have "distinct (map fst c) \<and> map_of c g = (if g = f then Some i else map_of (idx ! ?b) g)"
    proof (cases "chain_update f i (idx ! ?b)")
      case None
      then show ?thesis
        using dist chain_update_None [of f i "idx ! ?b"] by (simp add: c_def)
    next
      case (Some c')
      then show ?thesis
        using dist chain_update_Some [OF Some] by (simp add: c_def)
    qed
    then show "distinct (map fst c)" "map_of c g = (if g = f then Some i else map_of (idx ! ?b) g)"
      by blast+
  qed
  show "index_wf (index_insert idx f i)"
    using wf c(1) by (auto simp: ins index_wf_def list_all_length nth_list_update)
  show "index_find (index_insert idx f i) = (index_find idx)(f := Some i)"
  proof
    fix g
    show "index_find (index_insert idx f i) g = ((index_find idx)(f := Some i)) g"
    proof (cases "bucket_of g = ?b")
      case True
      then show ?thesis
        using c(2) [of g] bucket_bound [OF wf, of f] by (simp add: index_find_def ins del: bucket_bound)
    next
      case False
      then have "g \<noteq> f"
        by blast
      then show ?thesis
        using False by (simp add: index_find_def ins)
    qed
  qed
qed

section \<open>Soundness of the table\<close>

definition file_names :: "name_server \<Rightarrow> cstring list" where
  "file_names ns = map fm_name (nm_files ns)"

definition entry_ok :: "file_metadata list \<Rightarrow> cache_entry \<Rightarrow> bool" where
  "entry_ok files e \<longleftrightarrow> (ce_valid e \<longrightarrow> 0 \<le> ce_index e \<and> nat (ce_index e) < length files \<and>
     fm_name (files ! nat (ce_index e)) = ce_name e)"

definition table_ok :: "name_server \<Rightarrow> bool" where
  "table_ok ns \<longleftrightarrow> fi.indexes (nm_index ns) (file_names ns) \<and> list_all name_ok (file_names ns) \<and>
     list_all (entry_ok (nm_files ns)) (nm_cache ns)"

lemma table_okD:
  assumes "table_ok ns"
  shows "fi.indexes (nm_index ns) (file_names ns)" "f \<in> set (file_names ns) \<Longrightarrow> name_ok f"
    "e \<in> set (nm_cache ns) \<Longrightarrow> entry_ok (nm_files ns) e" "distinct (file_names ns)"
  using assms by (auto simp: table_ok_def list_all_iff dest: fi.indexesD(2))

lemma file_names_nth [simp]: "k < length (nm_files ns) \<Longrightarrow> file_names ns ! k = fm_name (nm_files ns ! k)"
  "length (file_names ns) = length (nm_files ns)"
  by (simp_all add: file_names_def)

lemma cache_scan_props:
  assumes "cache_scan f n tick es = (es', r)" "list_all (entry_ok files) es" "n = int (length files)"
  shows "list_all (entry_ok files) es' \<and> length es' = length es \<and>
    (\<forall>i. r = Some i \<longrightarrow> 0 \<le> i \<and> nat i < length files \<and> fm_name (files ! nat i) = f)"
  using assms
proof (induction f n tick es arbitrary: es' r rule: cache_scan.induct)
  case (2 f n tick e es)
  then show ?case
    by (cases "cache_scan f n tick es") (auto simp: entry_ok_def split: if_splits)
qed simp

lemma lru_scan_bound: "lru_scan es i old p = Some t \<Longrightarrow> (\<And>q. p = Some q \<Longrightarrow> q < i) \<Longrightarrow> t < i + length es"
  by (induction es i old p rule: lru_scan.induct) (auto split: if_splits, fastforce+)

lemma first_index_bound: "first_index P xs = Some i \<Longrightarrow> i < length xs \<and> P (xs ! i)"
  by (induction xs arbitrary: i) (auto split: if_splits)

lemma cache_target_bound: "cache_target es f = Some t \<Longrightarrow> t < length es"
  using first_index_bound lru_scan_bound [of es 0 "- 1" None t]
  by (auto simp: cache_target_def split: option.splits)

lemma cache_store_ok:
  assumes "table_ok ns" "k < length (nm_files ns)" "fm_name (nm_files ns ! k) = f"
  shows "table_ok (file_cache_store ns f (int k)) \<and> nm_files (file_cache_store ns f (int k)) = nm_files ns"
proof -
  have "name_ok f"
    using table_okD(2) [OF assms(1), of f] assms(2,3) by (force simp: file_names_def)
  then have copy: "bounded_copy MAX_FILENAME_LENGTH f = f"
    by (simp add: name_ok_def bounded_copy_id)
  show ?thesis
    using assms by (auto simp: file_cache_store_def table_ok_def file_names_def copy entry_ok_def
        split: option.split intro!: list_all_update)
qed

lemma first_index_distinct:
  assumes "distinct (map g xs)" "k < length xs"
  shows "first_index (\<lambda>x. g x = g (xs ! k)) xs = Some k"
  using assms
proof (induction xs arbitrary: k)
  case (Cons x xs)
  show ?case
  proof (cases k)
    case (Suc j)
    then have "g (xs ! j) \<in> g ` set xs"
      using Cons.prems(2) by simp
    then have "g x \<noteq> g (xs ! j)"
      using Cons.prems(1) by auto
    then show ?thesis
      using Cons Suc by simp
  qed simp
qed simp

lemma first_index_None: "first_index P xs = None \<longleftrightarrow> (\<forall>x\<in>set xs. \<not> P x)"
  by (induction xs) auto

text \<open>The lookup returns the position of the name in the table, whether or not the cache knows it.\<close>

lemma file_lookup_spec:
  assumes "table_ok ns"
  shows "table_ok (fst (file_lookup_locked ns f)) \<and> nm_files (fst (file_lookup_locked ns f)) = nm_files ns \<and>
    snd (file_lookup_locked ns f) = first_index (\<lambda>m. fm_name m = f) (nm_files ns)"
proof -
  note T = table_okD [OF assms]
  have pos: "first_index (\<lambda>m. fm_name m = f) (nm_files ns) = Some k"
    if "k < length (nm_files ns)" "fm_name (nm_files ns ! k) = f" for k
    using first_index_distinct [of fm_name "nm_files ns" k] T(4) that by (simp add: file_names_def)
  obtain es r where scan: "cache_scan f (int (length (nm_files ns))) (nm_tick ns) (nm_cache ns) = (es, r)"
    by fastforce
  let ?ns = "ns\<lparr>nm_cache := es, nm_tick := (if r = None then nm_tick ns else nm_tick ns + 1)\<rparr>"
  have scan': "list_all (entry_ok (nm_files ns)) es"
      "\<And>i. r = Some i \<Longrightarrow> 0 \<le> i \<and> nat i < length (nm_files ns) \<and> fm_name (nm_files ns ! nat i) = f"
    using cache_scan_props [OF scan, of "nm_files ns"] assms by (simp_all add: table_ok_def)
  then have ok: "table_ok ?ns"
    using assms by (simp add: table_ok_def file_names_def)
  have look: "file_cache_lookup ns f = (?ns, r)"
    by (simp add: file_cache_lookup_def scan)
  show ?thesis
  proof (cases r)
    case (Some i)
    then show ?thesis
      using ok look scan'(2) pos [of "nat i"] by (simp add: file_lookup_locked_def)
  next
    case None
    show ?thesis
    proof (cases "index_find (nm_index ns) f")
      case None
      then have "f \<notin> set (file_names ns)"
        using fi.indexes_None [OF T(1)] by simp
      then have "first_index (\<lambda>m. fm_name m = f) (nm_files ns) = None"
        by (auto simp: first_index_None file_names_def)
      then show ?thesis
        using ok look \<open>r = None\<close> None by (simp add: file_lookup_locked_def file_index_find_def)
    next
      case (Some i)
      then obtain k where k: "i = int k" "k < length (nm_files ns)" "fm_name (nm_files ns ! k) = f"
        using fi.indexesD(3) [OF T(1), of f i] by auto
      then show ?thesis
        using ok look \<open>r = None\<close> Some cache_store_ok [OF ok, of k f] pos [of k]
        by (simp add: file_lookup_locked_def file_index_find_def)
    qed
  qed
qed

text \<open>Changing the metadata of an entry, but not its name, and appending an entry.\<close>

lemma table_ok_update:
  assumes "table_ok ns" "k < length (nm_files ns)" "fm_name m = fm_name (nm_files ns ! k)"
  shows "table_ok (ns\<lparr>nm_files := (nm_files ns)[k := m]\<rparr>)"
proof -
  have names: "map fm_name ((nm_files ns)[k := m]) = map fm_name (nm_files ns)"
    using assms(2,3) by (simp add: map_update list_update_same_conv)
  have "entry_ok ((nm_files ns)[k := m]) e" if "entry_ok (nm_files ns) e" for e
    using that assms(2,3) by (auto simp: entry_ok_def nth_list_update)
  then show ?thesis
    using assms(1) by (auto simp: table_ok_def file_names_def names list_all_iff)
qed

lemma table_ok_append:
  assumes "table_ok ns" "fm_name m \<notin> set (file_names ns)" "name_ok (fm_name m)"
  shows "table_ok (ns\<lparr>nm_files := nm_files ns @ [m],
    nm_index := index_insert (nm_index ns) (fm_name m) (int (length (nm_files ns)))\<rparr>)"
proof -
  have "entry_ok (nm_files ns @ [m]) e" if "entry_ok (nm_files ns) e" for e
    using that by (auto simp: entry_ok_def nth_append)
  then show ?thesis
    using assms fi.indexes_append [of "nm_index ns" "file_names ns" "fm_name m"]
    by (auto simp: table_ok_def file_names_def list_all_iff)
qed

text \<open>The repair of one entry of the cache after the entry at \<open>k\<close> was replaced by the last one.\<close>

lemma entry_ok_repair:
  assumes "entry_ok files e" "distinct (map fm_name files)" "k < length files" "fm_name (files ! k) = f"
    "moved = (if k = length files - 1 then None else Some (fm_name (last files)))"
  shows "entry_ok (swap_remove k files) (repair_entry f moved k (length files - 1) e)"
proof (cases "ce_valid e \<and> ce_name e \<noteq> f")
  case True
  define n where "n = length files - 1"
  have ne: "files \<noteq> []" and len: "length files = Suc n" and kn: "k \<le> n"
    using assms(3) by (auto simp: n_def)
  have lastn: "last files = files ! n"
    using ne by (simp add: n_def last_conv_nth)
  define j where "j = nat (ce_index e)"
  then have j: "ce_index e = int j" "j \<le> n" "fm_name (files ! j) = ce_name e" "j \<noteq> k"
    using assms(1,4) True len by (auto simp: entry_ok_def less_Suc_eq_le)
  have "fm_name (files ! n) = fm_name (files ! j) \<longleftrightarrow> j = n"
    using assms(2) j(2) len nth_eq_iff_index_eq [of "map fm_name files" n j] by auto
  then have "moved = Some (ce_name e) \<longleftrightarrow> j = n \<and> k \<noteq> n"
    using assms(5) j(3) by (auto simp: lastn len)
  then show ?thesis
    using True j kn len lastn nth_swap_remove [of _ files k]
    by (auto simp: repair_entry_def entry_ok_def Let_def)
qed (auto simp: repair_entry_def entry_ok_def)

lemma remove_spec:
  assumes "table_ok ns"
  shows "table_ok (fst (remove_file_metadata_locked ns f)) \<and>
    (case first_index (\<lambda>m. fm_name m = f) (nm_files ns) of
       None \<Rightarrow> remove_file_metadata_locked ns f = (ns, False)
     | Some k \<Rightarrow> snd (remove_file_metadata_locked ns f) \<and>
         nm_files (fst (remove_file_metadata_locked ns f)) = swap_remove k (nm_files ns))"
proof (cases "first_index (\<lambda>m. fm_name m = f) (nm_files ns)")
  case None
  then have "f \<notin> set (file_names ns)"
    by (auto simp: first_index_None file_names_def)
  then have "index_find (nm_index ns) f = None"
    using fi.indexes_None [OF table_okD(1) [OF assms]] by simp
  then show ?thesis
    using assms None by (simp add: remove_file_metadata_locked_def file_index_find_def)
next
  case (Some k)
  note T = table_okD [OF assms]
  let ?files = "nm_files ns"
  define n where "n = length ?files - 1"
  have k: "k < length ?files" "fm_name (?files ! k) = f"
    using first_index_bound [OF Some] by simp_all
  have ne: "?files \<noteq> []" and len: "length ?files = Suc n" and kn: "k \<le> n"
    using k by (auto simp: n_def)
  have lastn: "last ?files = ?files ! n" "last (file_names ns) = fm_name (last ?files)"
    using ne by (simp_all add: n_def last_conv_nth file_names_def last_map)
  have lastok: "name_ok (fm_name (last ?files))" "fm_name (last ?files) \<in> set (file_names ns)"
    using T(2) ne by (simp_all add: file_names_def)
  have find: "index_find (nm_index ns) f = Some (int k)"
    using fi.indexes_nth [OF T(1), of k] k by simp
  have inj: "a = b" if "fm_name (?files ! a) = fm_name (?files ! b)" "a \<le> n" "b \<le> n" for a b
    using that T(4) len nth_eq_iff_index_eq [of "file_names ns" a b] by simp
  define moved where "moved = (if k = n then None else Some (fm_name (last ?files)))"
  have other: "fm_name (last ?files) \<noteq> f" if "k \<noteq> n"
    using that inj [of n k] kn k(2) by (auto simp: lastn)
  have found: "index_find (index_remove (nm_index ns) f) (fm_name (last ?files)) \<noteq> None" if "k \<noteq> n"
    using other [OF that] lastok fi.indexesD(1) [OF T(1)] fi.indexes_None [OF T(1)] by (simp add: fi.find_del)
  let ?idx = "if k = n then index_remove (nm_index ns) f
    else index_insert (index_remove (nm_index ns) f) (fm_name (last ?files)) (int k)"
  have rem: "remove_file_metadata_locked ns f =
      (ns\<lparr>nm_files := swap_remove k ?files, nm_index := ?idx,
          nm_cache := map (repair_entry f moved k n) (nm_cache ns)\<rparr>, True)"
    using find found lastok k(1) len ne
    by (cases "k = n") (auto simp: remove_file_metadata_locked_def file_index_find_def moved_def Let_def name_ok_def)
  have idx: "fi.indexes ?idx (swap_remove k (file_names ns))"
  proof -
    have "file_names ns ! k = f" "length (file_names ns) - 1 = n" "k < length (file_names ns)"
      using k by (simp_all add: n_def)
    then show ?thesis
      using fi.indexes_swap_remove [OF T(1), of k] T(2) lastn(2) by (cases "k = n") simp_all
  qed
  have names: "map fm_name (swap_remove k ?files) = swap_remove k (file_names ns)"
    using k(1) by (simp add: map_swap_remove file_names_def)
  have cache: "entry_ok (swap_remove k ?files) (repair_entry f moved k n e)" if e: "entry_ok ?files e" for e
    using entry_ok_repair [OF e _ k, of moved] T(4) by (simp add: moved_def n_def file_names_def)
  have "list_all name_ok (swap_remove k (file_names ns))"
    using T(2,4) k(1) swap_remove_set(1) [of k "file_names ns"] by (auto simp: list_all_iff)
  then show ?thesis
    using assms idx cache Some names by (auto simp: rem table_ok_def file_names_def list_all_iff)
qed

text \<open>Renaming an entry in the table, the index and the cache.\<close>

lemma rename_entries_ok:
  assumes "rename_entries f g (int k) tick es = (es', tick')" "list_all (entry_ok files) es" "k < length files"
    "fm_name (files ! k) = f" "distinct (map fm_name files)" "fm_name m = g" "length g < MAX_FILENAME_LENGTH"
  shows "list_all (entry_ok (files[k := m])) es'"
  using assms(1,2)
proof (induction es arbitrary: es' tick tick')
  case (Cons e es)
  have keep: "entry_ok (files[k := m]) e" if "entry_ok files e" "\<not> (ce_valid e \<and> ce_name e = f)"
    using that assms(3,4) by (auto simp: entry_ok_def nth_list_update)
  obtain es1 t1 where rest: "rename_entries f g (int k) (if ce_valid e \<and> ce_name e = f then tick + 1 else tick) es = (es1, t1)"
    by fastforce
  have es1: "list_all (entry_ok (files[k := m])) es1"
    using Cons.IH [OF rest] Cons.prems(2) by simp
  show ?case
  proof (cases "ce_valid e \<and> ce_name e = f")
    case True
    then have "es' = e\<lparr>ce_name := bounded_copy MAX_FILENAME_LENGTH g, ce_index := int k, ce_last_used := tick + 1\<rparr> # es1"
      using Cons.prems(1) rest by simp
    moreover have "entry_ok (files[k := m]) (e\<lparr>ce_name := bounded_copy MAX_FILENAME_LENGTH g, ce_index := int k, ce_last_used := tick + 1\<rparr>)"
      using assms(3,6,7) by (simp add: entry_ok_def bounded_copy_id)
    ultimately show ?thesis
      using es1 by simp
  next
    case False
    then have "es' = e # es1"
      using Cons.prems(1) rest by (simp split: if_splits)
    then show ?thesis
      using es1 keep False Cons.prems(2) by simp
  qed
qed simp

lemma table_ok_rename:
  assumes "table_ok ns" "k < length (nm_files ns)" "fm_name (nm_files ns ! k) = f" "fm_name m = g"
    "g \<notin> set (file_names ns)" "name_ok g" "rename_entries f g (int k) t (nm_cache ns) = (es, t')"
  shows "table_ok (ns\<lparr>nm_files := (nm_files ns)[k := m],
    nm_index := index_insert (index_remove (nm_index ns) f) g (int k), nm_cache := es\<rparr>)"
proof -
  note T = table_okD [OF assms(1)]
  have names: "map fm_name ((nm_files ns)[k := m]) = (file_names ns)[k := g]" "file_names ns ! k = f"
    using assms(2-4) by (simp_all add: file_names_def map_update)
  have "fi.indexes (index_insert (index_remove (nm_index ns) f) g (int k)) ((file_names ns)[k := g])"
    using fi.indexes_rename [OF T(1), of k g] assms(2,5,6) names(2) by simp
  moreover have "list_all name_ok ((file_names ns)[k := g])"
    using assms(1,6) by (simp add: table_ok_def list_all_update)
  moreover have "list_all (entry_ok ((nm_files ns)[k := m])) es"
    using assms T(4) by (intro rename_entries_ok [OF assms(7)]) (simp_all add: table_ok_def file_names_def name_ok_def)
  ultimately show ?thesis
    by (simp add: table_ok_def file_names_def names)
qed

end
