(* ===== verification/NS_Access.thy ===== *)
theory NS_Access
  imports File_Index Text_Files
begin

text \<open>
  The access rights that the name server keeps with each file (\<open>name_server.c\<close>): the arrays
  of readers and writers, the rights they give, and the parsing of permission
  arguments.  The arrays meet the contract \<open>access_list\<close>.
\<close>

section \<open>Arrays of users\<close>

definition file_acl_contains :: "cstring list \<Rightarrow> cstring \<Rightarrow> bool" where
  "file_acl_contains entries user \<longleftrightarrow> list_ex (\<lambda>e. strncmp_eq MAX_USERNAME_LENGTH e user) entries"

definition file_acl_add :: "cstring list \<Rightarrow> cstring \<Rightarrow> cstring list \<times> int" where
  "file_acl_add entries user =
     (if file_acl_contains entries user then (entries, 0)
      else if length entries \<ge> NS_MAX_CLIENTS then (entries, -1)
      else case safe_strcpy MAX_USERNAME_LENGTH user of
        None \<Rightarrow> (entries, -1)
      | Some u \<Rightarrow> (entries @ [u], 0))"

definition file_acl_remove :: "cstring list \<Rightarrow> cstring \<Rightarrow> cstring list \<times> int" where
  "file_acl_remove entries user = (case acl_index MAX_USERNAME_LENGTH entries user of
       None \<Rightarrow> (entries, 0)
     | Some i \<Rightarrow> let last_index = length entries - 1 in
         (butlast (if i \<noteq> last_index then entries[i := entries ! last_index] else entries), 1))"

fun csv_loop :: "cstring list \<Rightarrow> cstring list \<Rightarrow> cstring list" where
  "csv_loop entries [] = entries"
| "csv_loop entries (token # tokens) =
     (let token = trim_string token in
      if token \<noteq> [] \<and> validate_username token then
        let (entries', rc) = file_acl_add entries token in
        if rc \<noteq> 0 then entries' else csv_loop entries' tokens
      else csv_loop entries tokens)"

definition file_acl_parse_csv :: "cstring \<Rightarrow> cstring list" where
  "file_acl_parse_csv csv = csv_loop [] (strtok_commas (bounded_copy MAX_FIELD_SIZE csv))"

text \<open>The loops of \<open>INFO\<close> write the users into a buffer; the flag is \<open>is_first\<close>.  A
  token that no longer fits is cut, one that has no room at all is dropped.\<close>

definition acl_append_token :: "nat \<Rightarrow> cstring \<times> bool \<Rightarrow> cstring \<Rightarrow> cstring \<times> bool" where
  "acl_append_token sz st token = (case st of (buffer, is_first) \<Rightarrow>
     if sz = 0 \<or> token = [] then (buffer, is_first)
     else if is_first then (bounded_copy sz token, False)
     else (strcat_ignore sz (strcat_ignore sz buffer '', '') token, False))"

section \<open>Rights of a file\<close>

definition file_add_access :: "file_metadata \<Rightarrow> cstring \<Rightarrow> bool \<Rightarrow> bool \<Rightarrow> file_metadata \<times> int" where
  "file_add_access m user grant_read grant_write =
     (let grant_read = (grant_read \<or> grant_write);
          (readers, rc) = (if grant_read then file_acl_add (fm_read_users m) user else (fm_read_users m, 0));
          m1 = m\<lparr>fm_read_users := readers\<rparr> in
      if rc \<noteq> 0 then (m1, -1)
      else
        let (writers, rc) = (if grant_write then file_acl_add (fm_write_users m1) user else (fm_write_users m1, 0));
            m2 = m1\<lparr>fm_write_users := writers\<rparr> in
        if rc \<noteq> 0 then (m2, -1) else (m2, 0))"

definition file_remove_access :: "file_metadata \<Rightarrow> cstring \<Rightarrow> file_metadata \<times> bool" where
  "file_remove_access m user =
     (let (readers, removed_read) = file_acl_remove (fm_read_users m) user;
          (writers, removed_write) = file_acl_remove (fm_write_users m) user in
      (m\<lparr>fm_read_users := readers, fm_write_users := writers\<rparr>, removed_read \<noteq> 0 \<or> removed_write \<noteq> 0))"

definition file_has_read_access :: "file_metadata \<Rightarrow> cstring \<Rightarrow> bool" where
  "file_has_read_access m user \<longleftrightarrow>
     (if strncmp_eq MAX_USERNAME_LENGTH (fm_owner m) user then True
      else if file_acl_contains (fm_read_users m) user then True
      else file_acl_contains (fm_write_users m) user)"

definition file_has_write_access :: "file_metadata \<Rightarrow> cstring \<Rightarrow> bool" where
  "file_has_write_access m user \<longleftrightarrow>
     (if strncmp_eq MAX_USERNAME_LENGTH (fm_owner m) user then True
      else file_acl_contains (fm_write_users m) user)"

definition parse_permission_flags :: "cstring \<Rightarrow> (bool \<times> bool) option" where
  "parse_permission_flags perm =
     (if strcasecmp_eq perm ''R'' \<or> strcasecmp_eq perm ''READ'' then Some (True, False)
      else if strcasecmp_eq perm ''W'' \<or> strcasecmp_eq perm ''WRITE'' then Some (False, True)
      else if strcasecmp_eq perm ''RW'' \<or> strcasecmp_eq perm ''WR'' \<or>
              strcasecmp_eq perm ''READWRITE'' \<or> strcasecmp_eq perm ''WRITEREAD'' then Some (True, True)
      else None)"

section \<open>The contract\<close>

definition ns_acl_wf :: "cstring list \<Rightarrow> bool" where
  "ns_acl_wf = names_wf MAX_USERNAME_LENGTH NS_MAX_CLIENTS"

abbreviation user_ok :: "cstring \<Rightarrow> bool" where
  "user_ok u \<equiv> length u < MAX_USERNAME_LENGTH"

interpretation fa: access_list ns_acl_wf user_ok file_acl_contains "\<lambda>l. NS_MAX_CLIENTS - length l"
    file_acl_add file_acl_remove
  unfolding ns_acl_wf_def
  by (rule array_access_list [where ok_code = 0])
    (auto simp: file_acl_contains_def file_acl_add_def file_acl_remove_def swap_remove_def safe_strcpy_def
      MAX_USERNAME_LENGTH_def split: option.split)

lemma ns_acl_wf_Nil [simp]: "ns_acl_wf []"
  by (simp add: ns_acl_wf_def names_wf_def)

lemma acl_contains_Nil [simp]: "\<not> file_acl_contains [] u"
  by (simp add: file_acl_contains_def)

lemma file_acl_contains_set: "ns_acl_wf es \<Longrightarrow> user_ok u \<Longrightarrow> file_acl_contains es u \<longleftrightarrow> u \<in> set es"
  by (simp add: ns_acl_wf_def file_acl_contains_def names_contains)

text \<open>The rights of a file are well formed: its two arrays are.\<close>

definition rights_ok :: "file_metadata \<Rightarrow> bool" where
  "rights_ok m \<longleftrightarrow> ns_acl_wf (fm_read_users m) \<and> ns_acl_wf (fm_write_users m)"

lemma file_acl_add_code: "snd (file_acl_add l u) = 0 \<or> snd (file_acl_add l u) = -1"
  by (simp add: file_acl_add_def split: option.split)

lemma add_access_shape:
  "\<exists>R\<in>{fm_read_users m, fst (file_acl_add (fm_read_users m) u)}.
   \<exists>W\<in>{fm_write_users m, fst (file_acl_add (fm_write_users m) u)}.
     fst (file_add_access m u r w) = m\<lparr>fm_read_users := R, fm_write_users := W\<rparr>"
  by (cases m; cases r; cases w) (auto simp: file_add_access_def Let_def case_prod_beta)

lemma add_access_same [simp]:
  "fm_name (fst (file_add_access m u r w)) = fm_name m" "fm_owner (fst (file_add_access m u r w)) = fm_owner m"
  using add_access_shape [of m u r w] by auto

lemma add_access_rights:
  assumes "rights_ok m" "user_ok u"
  shows "rights_ok (fst (file_add_access m u r w))"
proof -
  obtain R W where RW: "R \<in> {fm_read_users m, fst (file_acl_add (fm_read_users m) u)}"
      "W \<in> {fm_write_users m, fst (file_acl_add (fm_write_users m) u)}"
    and eq: "fst (file_add_access m u r w) = m\<lparr>fm_read_users := R, fm_write_users := W\<rparr>"
    using add_access_shape [of m u r w] by blast
  have "ns_acl_wf R" "ns_acl_wf W"
    using RW assms fa.wf_add [OF _ assms(2)] by (auto simp only: rights_ok_def insert_iff empty_iff)
  then show ?thesis
    by (simp add: eq rights_ok_def)
qed

lemma remove_access_shape:
  "fst (file_remove_access m u) = m\<lparr>fm_read_users := fst (file_acl_remove (fm_read_users m) u),
     fm_write_users := fst (file_acl_remove (fm_write_users m) u)\<rparr>"
  by (simp add: file_remove_access_def case_prod_beta)

lemma remove_access_same [simp]:
  "fm_name (fst (file_remove_access m u)) = fm_name m" "fm_owner (fst (file_remove_access m u)) = fm_owner m"
  by (simp_all add: remove_access_shape)

lemma remove_access_rights:
  assumes "rights_ok m" "user_ok u"
  shows "rights_ok (fst (file_remove_access m u))"
  using assms fa.wf_remove [OF _ assms(2)] by (simp add: remove_access_shape rights_ok_def)

text \<open>After a grant that succeeded exactly the rights asked for are added.\<close>

lemma granted:
  assumes "rights_ok m" "user_ok u" "user_ok v" "snd (file_add_access m u r w) = 0"
  shows "file_has_write_access (fst (file_add_access m u r w)) v \<longleftrightarrow>
      file_has_write_access m v \<or> (v = u \<and> w)"
    and "file_has_read_access (fst (file_add_access m u r w)) v \<longleftrightarrow>
      file_has_read_access m v \<or> (v = u \<and> (r \<or> w))"
proof -
  have mem: "file_acl_contains (fst (file_acl_add l u)) v \<longleftrightarrow> file_acl_contains l v \<or> v = u"
    if "ns_acl_wf l" "snd (file_acl_add l u) = 0" for l
  proof -
    have "file_acl_contains l u \<or> 0 < NS_MAX_CLIENTS - length l"
      using fa.add_fails [OF that(1) assms(2)] that(2) by auto
    then show ?thesis
      using fa.mem_add [OF that(1) assms(2,3)] by auto
  qed
  have wf: "ns_acl_wf (fm_read_users m)" "ns_acl_wf (fm_write_users m)"
    using assms(1) by (simp_all add: rights_ok_def)
  have codes: "r \<or> w \<Longrightarrow> snd (file_acl_add (fm_read_users m) u) = 0" "w \<Longrightarrow> snd (file_acl_add (fm_write_users m) u) = 0"
    using assms(4) by (auto simp: file_add_access_def Let_def case_prod_beta split: if_splits)
  have add: "fst (file_add_access m u r w) =
      m\<lparr>fm_read_users := (if r \<or> w then fst (file_acl_add (fm_read_users m) u) else fm_read_users m),
        fm_write_users := (if w then fst (file_acl_add (fm_write_users m) u) else fm_write_users m)\<rparr>"
    using codes by (cases m; cases r; cases w) (simp_all add: file_add_access_def Let_def case_prod_beta)
  show "file_has_write_access (fst (file_add_access m u r w)) v \<longleftrightarrow> file_has_write_access m v \<or> (v = u \<and> w)"
    using mem [OF wf(2)] codes(2) by (auto simp: add file_has_write_access_def)
  show "file_has_read_access (fst (file_add_access m u r w)) v \<longleftrightarrow> file_has_read_access m v \<or> (v = u \<and> (r \<or> w))"
    using mem [OF wf(1)] mem [OF wf(2)] codes by (auto simp: add file_has_read_access_def)
qed

lemma revoked:
  assumes "rights_ok m" "user_ok u" "user_ok v"
  shows "file_has_write_access (fst (file_remove_access m u)) v \<longleftrightarrow>
      file_has_write_access m v \<and> (v \<noteq> u \<or> strncmp_eq MAX_USERNAME_LENGTH (fm_owner m) u)"
    and "file_has_read_access (fst (file_remove_access m u)) v \<longleftrightarrow>
      file_has_read_access m v \<and> (v \<noteq> u \<or> strncmp_eq MAX_USERNAME_LENGTH (fm_owner m) u)"
proof -
  have wf: "ns_acl_wf (fm_read_users m)" "ns_acl_wf (fm_write_users m)"
    using assms(1) by (simp_all add: rights_ok_def)
  show "file_has_write_access (fst (file_remove_access m u)) v \<longleftrightarrow>
      file_has_write_access m v \<and> (v \<noteq> u \<or> strncmp_eq MAX_USERNAME_LENGTH (fm_owner m) u)"
    using fa.mem_remove [OF wf(2) assms(2,3)] by (auto simp: remove_access_shape file_has_write_access_def)
  show "file_has_read_access (fst (file_remove_access m u)) v \<longleftrightarrow>
      file_has_read_access m v \<and> (v \<noteq> u \<or> strncmp_eq MAX_USERNAME_LENGTH (fm_owner m) u)"
    using fa.mem_remove [OF wf(1) assms(2,3)] fa.mem_remove [OF wf(2) assms(2,3)]
    by (auto simp: remove_access_shape file_has_read_access_def)
qed

text \<open>A line of users is read back in order.\<close>

lemma csv_loop_id:
  assumes "\<forall>u\<in>set us. validate_username u" "ns_acl_wf (vs @ us)"
  shows "csv_loop vs us = vs @ us"
  using assms
proof (induction us arbitrary: vs)
  case (Cons u us)
  have u: "u \<noteq> []" "user_ok u" "trim_string u = u"
    using Cons.prems(1) by (auto simp: validate_username_def trim_username split: if_splits)
  have "ns_acl_wf vs" "u \<notin> set vs" "\<not> NS_MAX_CLIENTS \<le> length vs"
    using Cons.prems(2) by (auto simp: ns_acl_wf_def names_wf_def)
  then have "file_acl_add vs u = (vs @ [u], 0)"
    using u by (simp add: file_acl_add_def file_acl_contains_set safe_strcpy_def bounded_copy_id MAX_USERNAME_LENGTH_def)
  then show ?case
    using Cons.IH [of "vs @ [u]"] Cons.prems u by simp
qed simp

end
