(* ===== verification/NS_Registry.thy ===== *)
theory NS_Registry
  imports NS_Access "HOL-Library.Product_Lexorder"
begin

text \<open>
  Connections of the name server (\<open>name_server.c\<close>): replies, the registry of storage servers
  and clients, the balanced choice of a storage server, and the life of a
  connection in \<open>connection_thread\<close> from the handshake to the clean-up.

  A \<open>StorageServerInfo *\<close> is an address; \<open>update_server\<close> writes through it.  The lines a
  thread sends are the list of the descriptor and the text of each.
\<close>

section \<open>Replies\<close>

type_synonym ns_outputs = "(int \<times> cstring) list"

definition ns_reply :: "int \<Rightarrow> cstring option \<Rightarrow> ns_outputs" where
  "ns_reply fd m = (case m of None \<Rightarrow> [] | Some t \<Rightarrow> if fd < 0 then [] else [(fd, t)])"

definition ns_send :: "int \<Rightarrow> cstring list \<Rightarrow> ns_outputs" where
  "ns_send fd flds = ns_reply fd (protocol_build_message (map Some flds))"

definition send_error_and_log :: "int \<Rightarrow> int \<Rightarrow> cstring \<Rightarrow> ns_outputs" where
  "send_error_and_log fd code message = ns_reply fd (protocol_build_error code (Some message))"

definition ns_simple_ok :: "int \<Rightarrow> cstring \<Rightarrow> ns_outputs" where
  "ns_simple_ok fd detail = ns_reply fd (protocol_build_ok (Some (if detail \<noteq> [] then detail else ''OK'')))"

definition send_info_line :: "int \<Rightarrow> cstring \<Rightarrow> ns_outputs" where
  "send_info_line fd line_text = ns_send fd [''INFO_LINE'', if line_text \<noteq> [] then line_text else ''N/A'']"

section \<open>Storage server entries\<close>

definition storage_server_comm_init :: "ss_info \<Rightarrow> ss_info" where
  "storage_server_comm_init s = s\<lparr>si_awaiting := False, si_ready := False, si_status := 0, si_raw := None, si_refcount := 0\<rparr>"

definition storage_server_comm_destroy :: "ss_info \<Rightarrow> ss_info" where
  "storage_server_comm_destroy s = s\<lparr>si_raw := None, si_awaiting := False, si_ready := False, si_status := 0\<rparr>"

definition storage_server_acquire :: "ss_info \<Rightarrow> ss_info" where
  "storage_server_acquire s = s\<lparr>si_refcount := si_refcount s + 1\<rparr>"

definition storage_server_release :: "ss_info \<Rightarrow> ss_info" where
  "storage_server_release s = (if si_refcount s > 0 then s\<lparr>si_refcount := si_refcount s - 1\<rparr> else s)"

definition storage_server_signal_failure :: "ss_info \<Rightarrow> ss_info" where
  "storage_server_signal_failure s =
     (let s1 = s\<lparr>si_alive := False, si_sockfd := -1\<rparr> in
      if si_awaiting s1 \<and> \<not> si_ready s1
      then s1\<lparr>si_raw := None, si_status := -1, si_ready := True, si_awaiting := False\<rparr> else s1)"

definition server_at :: "name_server \<Rightarrow> nat \<Rightarrow> ss_info option" where
  "server_at ns a = find (\<lambda>s. si_addr s = a) (nm_servers ns)"

definition update_server :: "nat \<Rightarrow> (ss_info \<Rightarrow> ss_info) \<Rightarrow> name_server \<Rightarrow> name_server" where
  "update_server a f ns = ns\<lparr>nm_servers := map (\<lambda>s. if si_addr s = a then f s else s) (nm_servers ns)\<rparr>"

definition find_storage_server_by_sockfd :: "name_server \<Rightarrow> int \<Rightarrow> nat option" where
  "find_storage_server_by_sockfd ns sockfd = map_option si_addr (find (\<lambda>s. si_sockfd s = sockfd) (nm_servers ns))"

section \<open>Load and placement\<close>

definition on_server :: "ss_info \<Rightarrow> file_metadata \<Rightarrow> bool" where
  "on_server s m \<longleftrightarrow> strncmp_eq MAX_IP_LENGTH (fm_ss_ip m) (si_client_ip s) \<and> fm_ss_port m = si_client_port s"

fun load_loop :: "ss_info \<Rightarrow> int \<times> int \<Rightarrow> file_metadata list \<Rightarrow> int \<times> int" where
  "load_loop s (bytes, files) [] = (bytes, files)"
| "load_loop s (bytes, files) (m # ms) =
     (if fm_is_directory m then load_loop s (bytes, files) ms
      else if on_server s m then load_loop s (if fm_size m > 0 then bytes + fm_size m else bytes, files + 1) ms
      else load_loop s (bytes, files) ms)"

definition ns_recalculate_server_load_locked :: "name_server \<Rightarrow> ss_info \<Rightarrow> ss_info" where
  "ns_recalculate_server_load_locked ns s =
     (let (bytes, files) = load_loop s (0, 0) (nm_files ns) in
      s\<lparr>si_total_files := files, si_total_bytes := (if bytes < 0 then 0 else bytes)\<rparr>)"

definition recalculate_load :: "nat \<Rightarrow> name_server \<Rightarrow> name_server" where
  "recalculate_load a ns = update_server a (ns_recalculate_server_load_locked ns) ns"

definition clamp_load :: "ss_info \<Rightarrow> ss_info" where
  "clamp_load s = s\<lparr>si_total_files := max 0 (si_total_files s), si_total_bytes := max 0 (si_total_bytes s)\<rparr>"

definition lighter :: "ss_info \<Rightarrow> ss_info \<Rightarrow> bool" where
  "lighter s t \<longleftrightarrow> si_total_bytes s < si_total_bytes t \<or>
     (si_total_bytes s = si_total_bytes t \<and> si_total_files s < si_total_files t)"

fun select_loop :: "ss_info list \<Rightarrow> nat option \<Rightarrow> nat list \<Rightarrow> ss_info list \<times> nat option" where
  "select_loop servers best [] = (servers, best)"
| "select_loop servers best (idx # idxs) =
     (if \<not> si_alive (servers ! idx) then select_loop servers best idxs
      else
        let candidate = clamp_load (servers ! idx); servers' = servers[idx := candidate] in
        select_loop servers' (case best of None \<Rightarrow> Some idx
            | Some b \<Rightarrow> if lighter candidate (servers' ! b) then Some idx else best) idxs)"

definition ns_select_storage_server_balanced :: "name_server \<Rightarrow> name_server \<times> nat option" where
  "ns_select_storage_server_balanced ns =
     (if nm_servers ns = [] then (ns, None)
      else
        let n = length (nm_servers ns);
            (servers, best) = select_loop (nm_servers ns) None (map (\<lambda>offset. (nm_round_robin ns + offset) mod n) [0..<n]) in
        case best of
          None \<Rightarrow> (ns\<lparr>nm_servers := servers\<rparr>, None)
        | Some b \<Rightarrow> (ns\<lparr>nm_servers := servers, nm_round_robin := (b + 1) mod n\<rparr>, Some (si_addr (servers ! b))))"

section \<open>Registration\<close>

definition ns_register_storage_server ::
  "int \<Rightarrow> name_server \<Rightarrow> cstring \<Rightarrow> int \<Rightarrow> cstring \<Rightarrow> int \<Rightarrow> int \<Rightarrow> name_server \<times> bool" where
  "ns_register_storage_server now ns ip port client_addr client_prt sockfd =
     (if length (nm_servers ns) \<ge> NS_MAX_STORAGE_SERVERS then (ns, False)
      else if list_ex (\<lambda>s. si_alive s \<and> si_client_ip s = client_addr \<and> si_client_port s = client_prt) (nm_servers ns)
      then (ns, False)
      else (ns\<lparr>nm_servers := nm_servers ns @ [storage_server_comm_init
              \<lparr>si_addr = nm_next_addr ns, si_ns_ip = bounded_copy MAX_IP_LENGTH ip, si_ns_port = port,
               si_client_ip = bounded_copy MAX_IP_LENGTH client_addr, si_client_port = client_prt,
               si_sockfd = sockfd, si_alive = True, si_heartbeat = now, si_total_bytes = 0, si_total_files = 0,
               si_awaiting = False, si_ready = False, si_status = 0, si_raw = None, si_refcount = 0\<rparr>],
              nm_next_addr := nm_next_addr ns + 1\<rparr>, True))"

fun client_index :: "cstring \<Rightarrow> client_info list \<Rightarrow> nat option" where
  "client_index user [] = None"
| "client_index user (c # cs) = (if ci_username c = user then Some 0 else map_option Suc (client_index user cs))"

definition ns_register_client :: "name_server \<Rightarrow> cstring \<Rightarrow> int \<Rightarrow> name_server \<times> bool" where
  "ns_register_client ns user sockfd =
     (case client_index user (nm_clients ns) of
        Some i \<Rightarrow>
          if ci_connected (nm_clients ns ! i) then (ns, False)
          else (ns\<lparr>nm_clients := (nm_clients ns)[i := (nm_clients ns ! i)\<lparr>ci_sockfd := sockfd, ci_connected := True\<rparr>]\<rparr>, True)
      | None \<Rightarrow>
          if length (nm_clients ns) \<ge> NS_MAX_CLIENTS then (ns, False)
          else (ns\<lparr>nm_clients := nm_clients ns @ [\<lparr>ci_username = bounded_copy MAX_USERNAME_LENGTH user, ci_ip = [],
                  ci_port = 0, ci_sockfd = sockfd, ci_connected = True\<rparr>]\<rparr>, True))"

definition serves :: "file_metadata \<Rightarrow> ss_info \<Rightarrow> bool" where
  "serves m s \<longleftrightarrow> si_alive s \<and> strncmp_eq MAX_IP_LENGTH (si_client_ip s) (fm_ss_ip m) \<and> si_client_port s = fm_ss_port m"

definition ns_find_storage_server :: "name_server \<Rightarrow> cstring \<Rightarrow> name_server \<times> int" where
  "ns_find_storage_server ns fname =
     (let (ns1, found) = file_lookup_locked ns fname in
      case found of
        None \<Rightarrow> (ns1, -1)
      | Some k \<Rightarrow> (ns1, case first_index (serves (nm_files ns1 ! k)) (nm_servers ns1) of Some i \<Rightarrow> int i | None \<Rightarrow> -1))"

section \<open>The life of a connection\<close>

record connection =
  cx_fd :: int
  cx_peer_ip :: cstring
  cx_peer_port :: int
  cx_is_client :: bool
  cx_is_ss :: bool
  cx_username :: cstring
  cx_ss_info :: "nat option"

definition new_connection :: "int \<Rightarrow> cstring \<Rightarrow> int \<Rightarrow> connection" where
  "new_connection conn_fd ip port = \<lparr>cx_fd = conn_fd, cx_peer_ip = ip, cx_peer_port = port, cx_is_client = False,
     cx_is_ss = False, cx_username = [], cx_ss_info = None\<rparr>"

definition hello_client :: "name_server \<Rightarrow> connection \<Rightarrow> cstring list \<Rightarrow> name_server \<times> connection \<times> ns_outputs" where
  "hello_client ns cx f =
     (if length f < 2 then (ns, cx, send_error_and_log (cx_fd cx) ERR_INVALID_REQUEST ''Missing username.'')
      else if \<not> validate_username (f ! 1) then
        (ns, cx, send_error_and_log (cx_fd cx) ERR_USERNAME_INVALID ''Username invalid or already connected.'')
      else case ns_register_client ns (f ! 1) (cx_fd cx) of
          (ns1, False) \<Rightarrow> (ns1, cx, send_error_and_log (cx_fd cx) ERR_INTERNAL_ERROR ''Failed to register client.'')
        | (ns1, True) \<Rightarrow>
            (ns1, cx\<lparr>cx_is_client := True, cx_is_ss := False, cx_username := bounded_copy MAX_USERNAME_LENGTH (f ! 1)\<rparr>,
             ns_send (cx_fd cx) [''OK'', bounded_copy MAX_FIELD_SIZE (''Welcome, '' @ f ! 1 @ ''.'')]))"

definition hello_ss :: "int \<Rightarrow> name_server \<Rightarrow> connection \<Rightarrow> cstring list \<Rightarrow> name_server \<times> connection \<times> ns_outputs" where
  "hello_ss now ns cx f =
     (if length f < 5 then (ns, cx, send_error_and_log (cx_fd cx) ERR_INVALID_REQUEST ''Missing storage server parameters.'')
      else if \<not> is_valid_ip (f ! 1) \<or> \<not> is_valid_port (atoi (f ! 2)) \<or> \<not> is_valid_ip (f ! 3) \<or> \<not> is_valid_port (atoi (f ! 4)) then
        (ns, cx, send_error_and_log (cx_fd cx) ERR_INVALID_REQUEST ''Invalid storage server address info.'')
      else case ns_register_storage_server now ns (f ! 1) (atoi (f ! 2)) (f ! 3) (atoi (f ! 4)) (cx_fd cx) of
          (ns1, False) \<Rightarrow> (ns1, cx, send_error_and_log (cx_fd cx) ERR_INTERNAL_ERROR ''Failed to register storage server.'')
        | (ns1, True) \<Rightarrow>
            (ns1, cx\<lparr>cx_is_client := False, cx_is_ss := True, cx_username := [],
                     cx_ss_info := find_storage_server_by_sockfd ns1 (cx_fd cx)\<rparr>,
             ns_send (cx_fd cx) [''OK'', ''SS registered. Awaiting file list.'']))"

text \<open>The first message of a connection.  The loops run afterwards when one of the two flags is set.\<close>

definition handshake :: "int \<Rightarrow> name_server \<Rightarrow> connection \<Rightarrow> cstring \<Rightarrow> name_server \<times> connection \<times> ns_outputs" where
  "handshake now ns cx raw =
     (let f = msg_fields (protocol_parse_message raw) in
      if f ! 0 = ''HELLO_CLIENT'' then hello_client ns cx f
      else if f ! 0 = ''HELLO_SS'' then hello_ss now ns cx f
      else (ns, cx, send_error_and_log (cx_fd cx) ERR_INVALID_REQUEST ''Unknown command.''))"

definition release_client :: "name_server \<Rightarrow> connection \<Rightarrow> name_server" where
  "release_client ns cx =
     (if cx_is_client cx \<and> cx_username cx \<noteq> [] then
        case client_index (cx_username cx) (nm_clients ns) of
          None \<Rightarrow> ns
        | Some i \<Rightarrow> ns\<lparr>nm_clients := (nm_clients ns)[i := (nm_clients ns ! i)\<lparr>ci_connected := False, ci_sockfd := -1\<rparr>]\<rparr>
      else ns)"

text \<open>An entry that is found is unlinked and freed once no thread refers to it.\<close>

definition ss_cleanup_connection :: "name_server \<Rightarrow> connection \<Rightarrow> name_server" where
  "ss_cleanup_connection ns cx =
     (if cx_is_ss cx then
        case first_index (\<lambda>s. si_sockfd s = cx_fd cx) (nm_servers ns) of
          None \<Rightarrow> ns
        | Some i \<Rightarrow> ns\<lparr>nm_servers := swap_remove i (nm_servers ns)\<rparr>
      else ns)"

definition connection_cleanup :: "name_server \<Rightarrow> connection \<Rightarrow> name_server" where
  "connection_cleanup ns cx = ss_cleanup_connection (release_client ns cx) cx"

section \<open>The choice of a storage server\<close>

text \<open>Loads are compared lexicographically, bytes first.\<close>

definition server_load :: "ss_info \<Rightarrow> int \<times> int" where
  "server_load s = (max 0 (si_total_bytes s), max 0 (si_total_files s))"

lemma clamp_load_simps [simp]:
  "server_load (clamp_load s) = server_load s" "si_alive (clamp_load s) = si_alive s"
  "si_addr (clamp_load s) = si_addr s" "clamp_load (clamp_load s) = clamp_load s"
  by (simp_all add: server_load_def clamp_load_def)

lemma lighter_load: "clamp_load s = s \<Longrightarrow> clamp_load t = t \<Longrightarrow> lighter s t \<longleftrightarrow> server_load s < server_load t"
  by (cases s; cases t) (auto simp: lighter_def server_load_def clamp_load_def less_prod_def)

lemma select_loop_frame:
  "select_loop servers best idxs = (servers', best') \<Longrightarrow>
     map server_load servers' = map server_load servers \<and> map si_alive servers' = map si_alive servers \<and>
     map si_addr servers' = map si_addr servers"
proof (induction servers best idxs arbitrary: servers' best' rule: select_loop.induct)
  case (2 servers best idx idxs)
  have upd: "map g (servers[idx := clamp_load (servers ! idx)]) = map g servers"
    if "\<And>s. g (clamp_load s) = g s" for g :: "ss_info \<Rightarrow> 'b"
    using that by (cases "idx < length servers") (simp_all add: map_update list_update_same_conv list_update_beyond)
  show ?case
    using 2 upd [of server_load] upd [of si_alive] upd [of si_addr] by (auto simp: Let_def split: if_splits)
qed simp

definition best_ok :: "ss_info list \<Rightarrow> nat option \<Rightarrow> bool" where
  "best_ok servers best \<longleftrightarrow> (\<forall>b. best = Some b \<longrightarrow> b < length servers \<and> si_alive (servers ! b) \<and>
     clamp_load (servers ! b) = servers ! b)"

lemma select_loop_best:
  assumes "select_loop servers best idxs = (servers', best')" "best_ok servers best" "\<forall>i\<in>set idxs. i < length servers"
  shows "best_ok servers' best' \<and> (\<forall>b. best = Some b \<longrightarrow> (\<exists>b'. best' = Some b' \<and> server_load (servers' ! b') \<le> server_load (servers ! b))) \<and>
    (\<forall>i\<in>set idxs. si_alive (servers ! i) \<longrightarrow> (\<exists>b'. best' = Some b' \<and> server_load (servers' ! b') \<le> server_load (servers ! i)))"
  using assms
proof (induction servers best idxs arbitrary: servers' best' rule: select_loop.induct)
  case (2 servers best idx idxs)
  show ?case
  proof (cases "si_alive (servers ! idx)")
    case False
    then show ?thesis
      using 2 by auto
  next
    case True
    let ?c = "clamp_load (servers ! idx)" and ?servers = "servers[idx := clamp_load (servers ! idx)]"
    let ?best = "case best of None \<Rightarrow> Some idx | Some b \<Rightarrow> if lighter ?c (?servers ! b) then Some idx else best"
    have idx: "idx < length servers"
      using 2(5) by simp
    have ld: "server_load (?servers ! i) = server_load (servers ! i)" "si_alive (?servers ! i) = si_alive (servers ! i)"
      if "i < length servers" for i
      using that by (cases "i = idx"; simp)+
    have ok: "best_ok ?servers ?best"
      using 2(4) idx True by (auto simp: best_ok_def nth_list_update split: option.split)
    have le: "server_load (?servers ! the ?best) \<le> server_load (servers ! idx)" "\<exists>b. ?best = Some b"
      "best = Some b \<Longrightarrow> server_load (?servers ! the ?best) \<le> server_load (servers ! b)" for b
      using 2(4) idx by (auto simp: best_ok_def nth_list_update lighter_load not_less split: option.split)
    have IH: "best_ok servers' best' \<and>
        (\<forall>b. ?best = Some b \<longrightarrow> (\<exists>b'. best' = Some b' \<and> server_load (servers' ! b') \<le> server_load (?servers ! b))) \<and>
        (\<forall>i\<in>set idxs. si_alive (?servers ! i) \<longrightarrow> (\<exists>b'. best' = Some b' \<and> server_load (servers' ! b') \<le> server_load (?servers ! i)))"
      using 2(2) [OF _ refl refl, of servers' best'] 2(3,5) True ok by (simp add: Let_def)
    then obtain b' where b': "best' = Some b'" "server_load (servers' ! b') \<le> server_load (?servers ! the ?best)"
      using le(2) by auto
    show ?thesis
      using IH b' le(1,3) ld 2(5) order_trans [OF b'(2)] by auto
  qed
qed auto

text \<open>The offsets from the round-robin index reach every server.\<close>

lemma rotation_covers: "0 < n \<Longrightarrow> set (map (\<lambda>offset. (r + offset) mod n) [0..<n]) = {..<n}" for r n :: nat
proof -
  assume n: "0 < n"
  have "i \<in> (\<lambda>offset. (r + offset) mod n) ` {0..<n}" if "i < n" for i
  proof
    let ?o = "(i + (n - r mod n)) mod n"
    have "(r + ?o) mod n = (r mod n + (i + (n - r mod n))) mod n"
      by (simp add: mod_add_left_eq mod_add_right_eq)
    also have "r mod n + (i + (n - r mod n)) = i + n"
      using mod_less_divisor [OF n, of r] by linarith
    finally show "i = (r + ?o) mod n"
      using that by simp
    show "?o \<in> {0..<n}"
      using n by simp
  qed
  then show ?thesis
    using n by auto
qed

definition rotation :: "name_server \<Rightarrow> nat list" where
  "rotation ns = map (\<lambda>offset. (nm_round_robin ns + offset) mod length (nm_servers ns)) [0..<length (nm_servers ns)]"

lemma select_result:
  assumes "ns_select_storage_server_balanced ns = (ns', r)"
    "select_loop (nm_servers ns) None (rotation ns) = (servers, best)"
  shows "\<exists>i. ns' = ns\<lparr>nm_servers := servers, nm_round_robin := i\<rparr>" "nm_servers ns \<noteq> [] \<Longrightarrow> best = None \<Longrightarrow> r = None"
    "nm_servers ns \<noteq> [] \<Longrightarrow> best = Some b \<Longrightarrow> r = Some (si_addr (servers ! b))"
proof -
  have len: "length servers = length (nm_servers ns)"
    using select_loop_frame [OF assms(2)] by (metis length_map)
  show "\<exists>i. ns' = ns\<lparr>nm_servers := servers, nm_round_robin := i\<rparr>"
  proof (cases "nm_servers ns = []")
    case True
    then show ?thesis
      using assms(1) len by (intro exI [of _ "nm_round_robin ns"]) (simp add: ns_select_storage_server_balanced_def)
  next
    case False
    define i where "i = (case best of None \<Rightarrow> nm_round_robin ns | Some b \<Rightarrow> (b + 1) mod length (nm_servers ns))"
    have "ns\<lparr>nm_round_robin := nm_round_robin ns, nm_servers := servers\<rparr> = ns\<lparr>nm_servers := servers\<rparr>"
      by (cases ns) simp
    then have "ns' = ns\<lparr>nm_servers := servers, nm_round_robin := i\<rparr>"
      using assms False by (simp add: ns_select_storage_server_balanced_def rotation_def Let_def i_def split: option.splits)
    then show ?thesis
      by blast
  qed
  show "nm_servers ns \<noteq> [] \<Longrightarrow> best = None \<Longrightarrow> r = None"
    "nm_servers ns \<noteq> [] \<Longrightarrow> best = Some b \<Longrightarrow> r = Some (si_addr (servers ! b))"
    using assms by (simp_all add: ns_select_storage_server_balanced_def rotation_def Let_def)
qed

lemma select_best:
  assumes "select_loop (nm_servers ns) None (rotation ns) = (servers, best)" "nm_servers ns \<noteq> []"
  shows "case best of None \<Rightarrow> list_all (\<lambda>s. \<not> si_alive s) (nm_servers ns)
    | Some b \<Rightarrow> b < length servers \<and> si_alive (servers ! b) \<and>
        (\<forall>t\<in>set (nm_servers ns). si_alive t \<longrightarrow> server_load (servers ! b) \<le> server_load t)"
proof -
  let ?n = "length (nm_servers ns)"
  have idxs: "set (rotation ns) = {..<?n}"
    unfolding rotation_def using assms(2) by (intro rotation_covers) simp
  have pre: "best_ok (nm_servers ns) None" "\<forall>i\<in>set (rotation ns). i < ?n"
    unfolding idxs by (simp_all add: best_ok_def)
  note best = select_loop_best [OF assms(1) pre, unfolded idxs]
  have all: "si_alive (nm_servers ns ! i) \<longrightarrow> (\<exists>b. best = Some b \<and> server_load (servers ! b) \<le> server_load (nm_servers ns ! i))"
    if "i < ?n" for i
    using best that by blast
  have ok: "best_ok servers best"
    using best by blast
  show ?thesis
  proof (cases best)
    case None
    then show ?thesis
      using all by (simp add: list_all_length)
  next
    case (Some b)
    have "server_load (servers ! b) \<le> server_load t" if "t \<in> set (nm_servers ns)" "si_alive t" for t
      using that all Some by (auto simp: in_set_conv_nth)
    then show ?thesis
      using ok Some by (simp add: best_ok_def)
  qed
qed

lemma select_spec:
  assumes "ns_select_storage_server_balanced ns = (ns', r)"
  shows "case r of
      None \<Rightarrow> list_all (\<lambda>s. \<not> si_alive s) (nm_servers ns)
    | Some a \<Rightarrow> \<exists>s\<in>set (nm_servers ns'). si_addr s = a \<and> si_alive s \<and>
        (\<forall>t\<in>set (nm_servers ns). si_alive t \<longrightarrow> server_load s \<le> server_load t)"
    and "\<exists>servers i. ns' = ns\<lparr>nm_servers := servers, nm_round_robin := i\<rparr> \<and>
      map server_load servers = map server_load (nm_servers ns) \<and> map si_alive servers = map si_alive (nm_servers ns) \<and>
      map si_addr servers = map si_addr (nm_servers ns)"
proof -
  obtain servers best where loop: "select_loop (nm_servers ns) None (rotation ns) = (servers, best)"
    by fastforce
  note frame = select_loop_frame [OF loop] and result = select_result [OF assms loop]
  show "\<exists>servers i. ns' = ns\<lparr>nm_servers := servers, nm_round_robin := i\<rparr> \<and>
      map server_load servers = map server_load (nm_servers ns) \<and> map si_alive servers = map si_alive (nm_servers ns) \<and>
      map si_addr servers = map si_addr (nm_servers ns)"
    using frame result(1) by blast
  show "case r of None \<Rightarrow> list_all (\<lambda>s. \<not> si_alive s) (nm_servers ns)
    | Some a \<Rightarrow> \<exists>s\<in>set (nm_servers ns'). si_addr s = a \<and> si_alive s \<and>
        (\<forall>t\<in>set (nm_servers ns). si_alive t \<longrightarrow> server_load s \<le> server_load t)"
  proof (cases "nm_servers ns = []")
    case True
    then show ?thesis
      using assms by (simp add: ns_select_storage_server_balanced_def)
  next
    case False
    then show ?thesis
      using select_best [OF loop False] result by (cases best) auto
  qed
qed

section \<open>The registry stays sound\<close>

text \<open>Addresses and user names are unique and the arrays do not overflow.\<close>

definition registry_ok :: "name_server \<Rightarrow> bool" where
  "registry_ok ns \<longleftrightarrow> distinct (map si_addr (nm_servers ns)) \<and> list_all (\<lambda>a. a < nm_next_addr ns) (map si_addr (nm_servers ns)) \<and>
     length (nm_servers ns) \<le> NS_MAX_STORAGE_SERVERS \<and>
     distinct (map ci_username (nm_clients ns)) \<and> length (nm_clients ns) \<le> NS_MAX_CLIENTS"

lemma client_index_Some: "client_index u cs = Some i \<Longrightarrow> i < length cs \<and> ci_username (cs ! i) = u"
  by (induction cs arbitrary: i) (auto split: if_splits)

lemma client_index_None: "client_index u cs = None \<longleftrightarrow> u \<notin> ci_username ` set cs"
  by (induction cs) auto

lemma registry_ok_servers:
  assumes "registry_ok ns" "map si_addr servers = map si_addr (nm_servers ns)"
  shows "registry_ok (ns\<lparr>nm_servers := servers\<rparr>)"
proof -
  have "length servers = length (nm_servers ns)"
    using assms(2) by (metis length_map)
  then show ?thesis
    using assms by (simp add: registry_ok_def del: list.pred_map)
qed

lemma registry_ok_update_server:
  "registry_ok ns \<Longrightarrow> (\<And>s. si_addr (f s) = si_addr s) \<Longrightarrow> registry_ok (update_server a f ns)"
  unfolding update_server_def by (rule registry_ok_servers) simp_all

lemma registry_ok_register_ss:
  "registry_ok ns \<Longrightarrow> registry_ok (fst (ns_register_storage_server now ns ip port cip cport fd))"
  by (auto simp: ns_register_storage_server_def registry_ok_def list_all_iff storage_server_comm_init_def less_Suc_eq)

lemma registry_ok_client_update:
  "registry_ok ns \<Longrightarrow> i < length (nm_clients ns) \<Longrightarrow> ci_username c = ci_username (nm_clients ns ! i) \<Longrightarrow>
     registry_ok (ns\<lparr>nm_clients := (nm_clients ns)[i := c]\<rparr>)"
  using list_update_id [of "map ci_username (nm_clients ns)" i] by (simp add: registry_ok_def map_update)

lemma registry_ok_register_client:
  assumes "registry_ok ns" "user_ok u"
  shows "registry_ok (fst (ns_register_client ns u fd))"
proof (cases "client_index u (nm_clients ns)")
  case None
  then have "u \<notin> ci_username ` set (nm_clients ns)"
    by (simp add: client_index_None)
  then show ?thesis
    using assms None by (simp add: ns_register_client_def bounded_copy_id registry_ok_def)
next
  case (Some i)
  then show ?thesis
    using assms client_index_Some [OF Some] registry_ok_client_update [OF assms(1), of i]
    by (simp add: ns_register_client_def)
qed

lemma registry_ok_cleanup:
  assumes "registry_ok ns"
  shows "registry_ok (connection_cleanup ns cx)"
proof -
  have 1: "registry_ok (release_client ns cx)"
    using assms client_index_Some registry_ok_client_update [OF assms]
    by (auto simp: release_client_def split: option.split)
  have "registry_ok (ss_cleanup_connection ns' cx)" if ok: "registry_ok ns'" for ns'
  proof (cases "first_index (\<lambda>s. si_sockfd s = cx_fd cx) (nm_servers ns')")
    case (Some i)
    then have i: "i < length (nm_servers ns')"
      using first_index_bound by blast
    then have m: "mset (swap_remove i (nm_servers ns')) \<subseteq># mset (nm_servers ns')"
      by (simp add: mset_swap_remove)
    have "distinct (swap_remove i (map si_addr (nm_servers ns')))" "set (swap_remove i (nm_servers ns')) \<subseteq> set (nm_servers ns')"
      using ok i swap_remove_set(2) [of i "map si_addr (nm_servers ns')"] set_mset_mono [OF m]
      by (simp_all add: registry_ok_def)
    then show ?thesis
      using ok Some i by (auto simp: ss_cleanup_connection_def registry_ok_def list_all_iff map_swap_remove [symmetric])
  qed (use ok in \<open>simp add: ss_cleanup_connection_def\<close>)
  then show ?thesis
    using 1 by (simp add: connection_cleanup_def)
qed

lemma hello_frame:
  assumes "handshake now ns cx raw = (ns', cx', out)"
  shows "nm_files ns' = nm_files ns \<and> nm_index ns' = nm_index ns \<and> nm_cache ns' = nm_cache ns \<and> nm_requests ns' = nm_requests ns \<and>
    nm_next_request ns' = nm_next_request ns \<and> (registry_ok ns \<longrightarrow> registry_ok ns')"
proof -
  let ?f = "msg_fields (protocol_parse_message raw)"
  have u: "user_ok (?f ! 1)" if "validate_username (?f ! 1)"
    using that by (simp add: validate_username_def split: if_splits)
  consider "ns' = ns" | "ns' = fst (ns_register_client ns (?f ! 1) (cx_fd cx))" "validate_username (?f ! 1)"
    | "ns' = fst (ns_register_storage_server now ns (?f ! 1) (atoi (?f ! 2)) (?f ! 3) (atoi (?f ! 4)) (cx_fd cx))"
    using assms by (auto simp: handshake_def hello_client_def hello_ss_def Let_def split: if_splits prod.splits bool.splits)
  then show ?thesis
  proof cases
    case 2
    then show ?thesis
      using u registry_ok_register_client [of ns "?f ! 1"] by (auto simp: ns_register_client_def split: option.split)
  next
    case 3
    then show ?thesis
      using registry_ok_register_ss by (auto simp: ns_register_storage_server_def)
  qed simp
qed

end
