(* ===== verification/NS_Paths.thy ===== *)
theory NS_Paths
  imports NS_Registry
begin

text \<open>
  Logical paths of the name server (\<open>name_server.c\<close>): validation, the split into parent and
  last name, the descendant test that the folder operations use, and the
  destination argument of MOVE.
\<close>

section \<open>Operations\<close>

fun has_double_slash :: "cstring \<Rightarrow> bool" where
  "has_double_slash (a # b # s) = ((a = CHR ''/'' \<and> b = CHR ''/'') \<or> has_double_slash (b # s))"
| "has_double_slash _ = False"

definition strtok_slashes :: "cstring \<Rightarrow> cstring list" where
  "strtok_slashes s = filter (\<lambda>f. f \<noteq> []) (split_on (CHR ''/'') s)"

definition ns_validate_logical_path :: "cstring \<Rightarrow> bool" where
  "ns_validate_logical_path path \<longleftrightarrow>
     (if path = [] then False
      else if \<not> validate_filename path then False
      else if hd path = CHR ''/'' \<or> last path = CHR ''/'' then False
      else if has_double_slash path then False
      else case safe_strcpy MAX_FILENAME_LENGTH path of
        None \<Rightarrow> False
      | Some buffer \<Rightarrow> list_all (\<lambda>segment. segment \<noteq> ''.'' \<and> segment \<noteq> ''..'') (strtok_slashes buffer))"

text \<open>Both buffers have \<open>sz\<close> bytes in every call; the result is the parent and the child.\<close>

definition ns_split_parent_child :: "nat \<Rightarrow> cstring \<Rightarrow> (cstring \<times> cstring) option" where
  "ns_split_parent_child sz path =
     (if CHR ''/'' \<notin> set path then
        (case safe_strcpy sz [] of None \<Rightarrow> None
         | Some parent \<Rightarrow> map_option (\<lambda>child. (parent, child)) (safe_strcpy sz path))
      else
        let parent = before_last_slash path in
        if length parent + 1 > sz then None
        else map_option (\<lambda>child. (parent, child)) (safe_strcpy sz (drop (length parent + 1) path)))"

definition ns_is_descendant_path :: "cstring \<Rightarrow> cstring \<Rightarrow> bool" where
  "ns_is_descendant_path candidate ancestor \<longleftrightarrow>
     (if ancestor = [] then True
      else if \<not> strncmp_eq (length ancestor) candidate ancestor then False
      else if length candidate = length ancestor then True
      else candidate ! length ancestor = CHR ''/'')"

definition ns_normalize_destination :: "nat \<Rightarrow> cstring \<Rightarrow> cstring option" where
  "ns_normalize_destination sz input =
     (if input = ''.'' \<or> input = ''/'' then (if sz > 0 then Some [] else None)
      else if \<not> ns_validate_logical_path input then None
      else safe_strcpy sz input)"

section \<open>Descendants\<close>

lemma strncmp_prefix: "a \<noteq> [] \<Longrightarrow> strncmp_eq (length a) c a \<longleftrightarrow> (\<exists>s. c = a @ s)"
  by (auto simp: strncmp_eq_def) (metis append_take_drop_id)

lemma descendant_iff:
  "ns_is_descendant_path c a \<longleftrightarrow> a = [] \<or> c = a \<or> (\<exists>s. c = a @ CHR ''/'' # s)"
proof (cases "a = [] \<or> \<not> strncmp_eq (length a) c a")
  case True
  then show ?thesis
    using strncmp_prefix [of a c] by (auto simp: ns_is_descendant_path_def)
next
  case False
  then obtain s where "c = a @ s"
    using strncmp_prefix by auto
  then show ?thesis
    using False by (cases s) (auto simp: ns_is_descendant_path_def)
qed

lemma descendant_refl [simp]: "ns_is_descendant_path a a"
  by (simp add: descendant_iff)

lemma descendant_trans:
  "ns_is_descendant_path c b \<Longrightarrow> ns_is_descendant_path b a \<Longrightarrow> ns_is_descendant_path c a"
  by (auto simp: descendant_iff)

lemma descendant_antisym:
  "ns_is_descendant_path a b \<Longrightarrow> ns_is_descendant_path b a \<Longrightarrow> a \<noteq> [] \<Longrightarrow> b \<noteq> [] \<Longrightarrow> a = b"
  by (auto simp: descendant_iff)

section \<open>Parent and child\<close>

lemma before_last_slash_split:
  assumes "CHR ''/'' \<in> set p"
  shows "\<exists>q. p = before_last_slash p @ CHR ''/'' # q \<and> CHR ''/'' \<notin> set q"
proof -
  obtain ys zs where split: "p = ys @ CHR ''/'' # zs" "CHR ''/'' \<notin> set zs"
    using split_list_last [OF assms] by blast
  have "dropWhile (\<lambda>c. c \<noteq> CHR ''/'') (rev zs @ CHR ''/'' # rev ys) = CHR ''/'' # rev ys"
    using split(2) by (subst dropWhile_append2) auto
  then have "before_last_slash p = ys"
    by (simp add: before_last_slash_def split(1))
  then show ?thesis
    using split by auto
qed

lemma split_parent_child:
  assumes "length p < sz"
  shows "ns_split_parent_child sz p = (if CHR ''/'' \<in> set p
      then Some (before_last_slash p, drop (length (before_last_slash p) + 1) p) else Some ([], p))"
proof (cases "CHR ''/'' \<in> set p")
  case True
  then obtain q where "p = before_last_slash p @ CHR ''/'' # q"
    using before_last_slash_split by blast
  then have "length (before_last_slash p) + 1 \<le> length p"
    by (metis add_leD1 length_Cons length_append list.size(4) le_add1 add.assoc add_Suc_right Suc_eq_plus1 linorder_not_less not_less_eq_eq)
  then show ?thesis
    using True assms by (simp add: ns_split_parent_child_def safe_strcpy_def bounded_copy_id Let_def)
next
  case False
  then show ?thesis
    using assms by (simp add: ns_split_parent_child_def safe_strcpy_def bounded_copy_id bounded_copy_def)
qed

text \<open>Joining the parts gives the path back, and the child is one name.\<close>

lemma split_join:
  assumes "ns_split_parent_child MAX_FILENAME_LENGTH p = Some (d, c)" "ns_validate_logical_path p"
  shows "p = (if d = [] then c else d @ CHR ''/'' # c) \<and> c \<noteq> [] \<and> CHR ''/'' \<notin> set c"
proof -
  have p: "length p < MAX_FILENAME_LENGTH" "p \<noteq> []" "hd p \<noteq> CHR ''/''" "last p \<noteq> CHR ''/''"
    using assms(2) by (simp_all add: ns_validate_logical_path_def validate_filename_def split: if_splits)
  show ?thesis
  proof (cases "CHR ''/'' \<in> set p")
    case True
    then obtain q where q: "p = before_last_slash p @ CHR ''/'' # q" "CHR ''/'' \<notin> set q"
      using before_last_slash_split by blast
    have dc: "d = before_last_slash p" "c = drop (length (before_last_slash p) + 1) p"
      using assms(1) True by (auto simp: split_parent_child [OF p(1)])
    have "c = q"
      unfolding dc by (subst (2) q(1)) simp
    moreover have "d \<noteq> []"
      using q(1) p(3) dc(1) by (metis append_Nil list.sel(1))
    moreover have "q \<noteq> []"
      using q(1) p(4) by (metis last_snoc)
    ultimately show ?thesis
      using q dc(1) by simp
  next
    case False
    then show ?thesis
      using assms(1) p by (auto simp: split_parent_child [OF p(1)])
  qed
qed

lemma valid_path_name_ok: "ns_validate_logical_path p \<Longrightarrow> name_ok p"
  by (auto simp: ns_validate_logical_path_def validate_filename_def name_ok_def MAX_FILENAME_LENGTH_def split: if_splits)

end
