(* ===== verification/NS_Database.thy ===== *)
theory NS_Database
  imports NS_Access
begin

text \<open>
  The database file of the name server (\<open>name_server.c\<close>): \<open>ns_save_metadata\<close> writes the file
  table as text, \<open>ns_load_metadata\<close> reads it back at start-up, rebuilding the
  index, and \<open>ns_init\<close> is the start-up.  What a restart recovers is \<open>load_saved_db\<close>.
\<close>

section \<open>Saving\<close>

definition NS_DB_PATH :: cstring where "NS_DB_PATH = ''ns_metadata.db''"

definition user_or_na :: "cstring \<Rightarrow> cstring" where
  "user_or_na u = (if u \<noteq> [] then u else ''N/A'')"

definition db_fields :: "file_metadata \<Rightarrow> cstring list" where
  "db_fields m =
     [fm_name m, fm_owner m, fm_ss_ip m, show_int (fm_ss_port m), show_int (fm_size m),
      show_int (fm_word_count m), show_int (fm_char_count m), show_int (fm_created m),
      show_int (fm_modified m), show_int (fm_last_access m), if fm_is_directory m then ''1'' else ''0'',
      user_or_na (fm_last_access_user m), user_or_na (fm_last_modified_user m)]"

definition db_lines :: "file_metadata \<Rightarrow> cstring list" where
  "db_lines m =
     [''FILE|'' @ join_with (CHR ''|'') (db_fields m),
      ''READ|'' @ join_commas (fm_read_users m),
      ''WRITE|'' @ join_commas (fm_write_users m)]"

definition db_text :: "file_metadata list \<Rightarrow> cstring" where
  "db_text files = concat (map (\<lambda>l. l @ [newline]) (show_nat (length files) # concat (map db_lines files)))"

definition ns_save_metadata :: "name_server \<Rightarrow> name_server" where
  "ns_save_metadata ns = (case fopen_trunc (nm_disk ns) NS_DB_PATH of
       None \<Rightarrow> ns
     | Some d \<Rightarrow> ns\<lparr>nm_disk := fst (fwrite d NS_DB_PATH (db_text (nm_files ns)))\<rparr>)"

section \<open>Loading\<close>

text \<open>The cursor loop: at most 13 parts, the rest of the payload is ignored.\<close>

definition db_parts :: "cstring \<Rightarrow> cstring list" where
  "db_parts payload = take 13 (split_on (CHR ''|'') payload)"

definition na_to_empty :: "cstring \<Rightarrow> cstring" where
  "na_to_empty u = (if u = ''N/A'' then [] else bounded_copy MAX_USERNAME_LENGTH u)"

definition load_file_line :: "cstring list \<Rightarrow> file_metadata" where
  "load_file_line ps =
     (let n = length ps;
          part = (\<lambda>i. if i < n then Some (ps ! i) else None);
          numb = (\<lambda>i. case part i of Some p \<Rightarrow> atoll p | None \<Rightarrow> 0);
          base = zero_metadata\<lparr>fm_name := bounded_copy MAX_FILENAME_LENGTH (ps ! 0),
            fm_owner := (case part 1 of Some p \<Rightarrow> bounded_copy MAX_USERNAME_LENGTH p | None \<Rightarrow> []),
            fm_ss_ip := (case part 2 of Some p \<Rightarrow> bounded_copy MAX_IP_LENGTH p | None \<Rightarrow> []),
            fm_ss_port := (case part 3 of Some p \<Rightarrow> atoi p | None \<Rightarrow> 0),
            fm_size := numb 4\<rparr> in
      if n \<ge> 11 then
        base\<lparr>fm_word_count := numb 5, fm_char_count := numb 6, fm_created := numb 7,
          fm_modified := numb 8, fm_last_access := numb 9,
          fm_is_directory := (case part 10 of Some p \<Rightarrow> atoi p \<noteq> 0 | None \<Rightarrow> False),
          fm_last_access_user := (case part 11 of Some p \<Rightarrow> na_to_empty p | None \<Rightarrow> []),
          fm_last_modified_user := (case part 12 of Some p \<Rightarrow> na_to_empty p | None \<Rightarrow> [])\<rparr>
      else base\<lparr>fm_created := numb 5, fm_modified := numb 6, fm_last_access := numb 7\<rparr>)"

text \<open>\<open>current\<close> is the entry that the following READ and WRITE lines belong to.\<close>

definition load_db_line :: "name_server \<times> nat option \<Rightarrow> cstring \<Rightarrow> name_server \<times> nat option" where
  "load_db_line st line0 = (case st of (ns, current) \<Rightarrow>
     let line = trim_string line0 in
     if line = [] then (ns, current)
     else if strncmp_eq 5 line ''FILE|'' then
       let ps = db_parts (drop 5 line) in
       if \<not> validate_filename (ps ! 0) then (ns, None)
       else
         let m = load_file_line ps; n = length (nm_files ns) in
         (fst (file_index_insert (ns\<lparr>nm_files := nm_files ns @ [m]\<rparr>) (fm_name m) (int n)), Some n)
     else (case current of
         None \<Rightarrow> (ns, None)
       | Some i \<Rightarrow>
           if strncmp_eq 5 line ''READ|'' then
             (ns\<lparr>nm_files := (nm_files ns)[i := (nm_files ns ! i)\<lparr>fm_read_users := file_acl_parse_csv (drop 5 line)\<rparr>]\<rparr>, current)
           else if strncmp_eq 6 line ''WRITE|'' then
             (ns\<lparr>nm_files := (nm_files ns)[i := (nm_files ns ! i)\<lparr>fm_write_users := file_acl_parse_csv (drop 6 line)\<rparr>]\<rparr>, current)
           else (ns, current)))"

fun load_db_loop :: "name_server \<times> nat option \<Rightarrow> cstring list \<Rightarrow> name_server \<times> nat option" where
  "load_db_loop st [] = st"
| "load_db_loop st (line # rest) =
     (if length (nm_files (fst st)) < NS_MAX_FILES then load_db_loop (load_db_line st line) rest else st)"

definition ns_load_metadata :: "name_server \<Rightarrow> name_server" where
  "ns_load_metadata ns = (case fopen_read (nm_disk ns) NS_DB_PATH of
       None \<Rightarrow> ns
     | Some text \<Rightarrow>
         let ns1 = (ns_clear_file_index ns)\<lparr>nm_files := [], nm_cache := replicate FILE_CACHE_SIZE empty_cache_entry,
                     nm_tick := 0\<rparr> in
         (case fgets_lines (MAX_FIELD_SIZE * 2) text of
            [] \<Rightarrow> ns1
          | count_line # lines \<Rightarrow> fst (load_db_loop (ns1, None) lines)))"

definition ns_init :: "int \<Rightarrow> disk \<Rightarrow> name_server" where
  "ns_init port d = ns_load_metadata (empty_name_server port d)"

section \<open>What a restart recovers\<close>

definition db_string :: "nat \<Rightarrow> cstring \<Rightarrow> bool" where
  "db_string n s \<longleftrightarrow> CHR ''|'' \<notin> set s \<and> length s < n"

text \<open>A file whose lines the loader reads back.\<close>

definition db_savable :: "file_metadata \<Rightarrow> bool" where
  "db_savable m \<longleftrightarrow> validate_filename (fm_name m) \<and> db_string MAX_USERNAME_LENGTH (fm_owner m) \<and>
     db_string MAX_IP_LENGTH (fm_ss_ip m) \<and>
     db_string MAX_USERNAME_LENGTH (fm_last_access_user m) \<and> fm_last_access_user m \<noteq> ''N/A'' \<and>
     db_string MAX_USERNAME_LENGTH (fm_last_modified_user m) \<and> fm_last_modified_user m \<noteq> ''N/A'' \<and>
     INT_MIN_I \<le> fm_ss_port m \<and> fm_ss_port m \<le> INT_MAX_I \<and>
     list_all (\<lambda>t. LONG_MIN_I \<le> t \<and> t \<le> LONG_MAX_I)
       [fm_size m, fm_word_count m, fm_char_count m, fm_created m, fm_modified m, fm_last_access m] \<and>
     list_all validate_username (fm_read_users m) \<and> list_all validate_username (fm_write_users m) \<and> rights_ok m \<and>
     length (join_commas (fm_read_users m)) < MAX_FIELD_SIZE \<and> length (join_commas (fm_write_users m)) < MAX_FIELD_SIZE \<and>
     file_line (MAX_FIELD_SIZE * 2) (hd (db_lines m))"

lemma username_chars:
  "validate_username u \<Longrightarrow> c \<in> set u \<Longrightarrow> is_alnum c \<or> c = CHR ''_''"
  by (auto simp: validate_username_def list_all_iff split: if_splits)

lemma username_plain: "validate_username u \<Longrightarrow> plain_name (CHR '','') MAX_USERNAME_LENGTH u"
  using username_chars [of u "CHR '',''"] username_no_space [of u newline] username_no_space [of u]
  by (auto simp: plain_name_def validate_username_def is_alnum_def is_digit_def split: if_splits)

lemma csv_roundtrip:
  assumes "list_all validate_username us" "ns_acl_wf us" "length (join_commas us) < MAX_FIELD_SIZE"
  shows "file_acl_parse_csv (join_commas us) = us"
proof -
  have "\<forall>u\<in>set us. plain_name (CHR '','') MAX_USERNAME_LENGTH u"
    using assms(1) by (auto simp: list_all_iff intro: username_plain)
  then show ?thesis
    using assms csv_loop_id [of us "[]"] by (simp add: file_acl_parse_csv_def bounded_copy_id strtok_join list_all_iff)
qed

lemma csv_no_space: "list_all validate_username us \<Longrightarrow> c \<in> set (join_commas us) \<Longrightarrow> \<not> is_space c"
  using set_join_with [of "CHR '',''" us] username_no_space
  by (fastforce simp: join_commas_def list_all_iff is_space_def)

lemma csv_line:
  assumes "list_all validate_username us" "length (join_commas us) < MAX_FIELD_SIZE" "length k \<le> 6" "k \<noteq> []"
    "\<forall>c\<in>set k. \<not> is_space c"
  shows "file_line (MAX_FIELD_SIZE * 2) (k @ join_commas us)"
proof -
  have sp: "\<not> is_space c" if "c \<in> set (k @ join_commas us)" for c
    using that assms csv_no_space by auto
  have "newline \<notin> set (k @ join_commas us)"
    using sp [of newline] by auto
  moreover have "hd (k @ join_commas us) \<in> set (k @ join_commas us)" "last (k @ join_commas us) \<in> set (k @ join_commas us)"
    using assms(4) by (metis Nil_is_append_conv hd_in_set, metis Nil_is_append_conv last_in_set)
  ultimately show ?thesis
    using assms(2-4) sp by (simp add: file_line_def MAX_FIELD_SIZE_def)
qed

lemma parts_of_fields:
  assumes "db_savable m"
  shows "db_parts (join_with (CHR ''|'') (db_fields m)) = db_fields m"
proof -
  have "\<forall>f\<in>set (db_fields m). CHR ''|'' \<notin> set f"
    using assms by (auto simp: db_savable_def db_fields_def db_string_def user_or_na_def validate_filename_def
        invalid_chars_def list_all_iff split: if_splits dest: show_int_chars)
  then show ?thesis
    using split_on_join [of "db_fields m" "CHR ''|''"] by (simp add: db_parts_def db_fields_def)
qed

lemma atoll_range: "LONG_MIN_I \<le> i \<and> i \<le> LONG_MAX_I \<Longrightarrow> atoll (show_int i) = i"
  by (simp add: atoll_show_int)

lemma na_roundtrip: "u \<noteq> ''N/A'' \<Longrightarrow> db_string MAX_USERNAME_LENGTH u \<Longrightarrow> na_to_empty (user_or_na u) = u"
  by (simp add: na_to_empty_def user_or_na_def db_string_def bounded_copy_id)

lemma load_fields:
  assumes "db_savable m"
  shows "load_file_line (db_fields m) = m\<lparr>fm_read_users := [], fm_write_users := []\<rparr>"
proof -
  have dir: "(atoi (if fm_is_directory m then ''1'' else ''0'') \<noteq> 0) = fm_is_directory m"
    by (cases "fm_is_directory m") (simp_all, code_simp+)
  have ints: "\<forall>t\<in>{fm_size m, fm_word_count m, fm_char_count m, fm_created m, fm_modified m, fm_last_access m}.
      atoll (show_int t) = t" "atoi (show_int (fm_ss_port m)) = fm_ss_port m"
    using assms by (simp_all add: db_savable_def atoll_range atoi_show_int)
  have strs: "bounded_copy MAX_FILENAME_LENGTH (fm_name m) = fm_name m"
      "bounded_copy MAX_USERNAME_LENGTH (fm_owner m) = fm_owner m" "bounded_copy MAX_IP_LENGTH (fm_ss_ip m) = fm_ss_ip m"
      "na_to_empty (user_or_na (fm_last_access_user m)) = fm_last_access_user m"
      "na_to_empty (user_or_na (fm_last_modified_user m)) = fm_last_modified_user m"
    using assms by (auto simp: db_savable_def db_string_def bounded_copy_id validate_filename_def na_roundtrip split: if_splits)
  show ?thesis
    using ints strs dir
    by (cases m) (simp add: load_file_line_def db_fields_def Let_def zero_metadata_def)
qed

lemma load_line_file:
  assumes "db_savable m"
  shows "load_db_line (ns, current) (hd (db_lines m) @ [newline]) =
    (ns\<lparr>nm_files := nm_files ns @ [m\<lparr>fm_read_users := [], fm_write_users := []\<rparr>],
        nm_index := index_insert (nm_index ns) (fm_name m) (int (length (nm_files ns)))\<rparr>, Some (length (nm_files ns)))"
proof -
  let ?line = "''FILE|'' @ join_with (CHR ''|'') (db_fields m)"
  have line: "trim_string (?line @ [newline]) = ?line"
    using assms by (intro trim_line [of "MAX_FIELD_SIZE * 2"]) (simp add: db_savable_def db_lines_def)
  have parts: "db_parts (drop 5 ?line) = db_fields m"
    using parts_of_fields [OF assms] by simp
  have name: "db_fields m ! 0 = fm_name m" "validate_filename (fm_name m)"
    using assms by (simp_all add: db_fields_def db_savable_def)
  show ?thesis
    using line parts name load_fields [OF assms]
    by (simp add: load_db_line_def db_lines_def Let_def strncmp_eq_def file_index_insert_def)
qed

lemma load_line_users:
  assumes "list_all validate_username us" "ns_acl_wf us" "length (join_commas us) < MAX_FIELD_SIZE" "i < length (nm_files ns)"
  shows "load_db_line (ns, Some i) (''READ|'' @ join_commas us @ [newline]) =
      (ns\<lparr>nm_files := (nm_files ns)[i := (nm_files ns ! i)\<lparr>fm_read_users := us\<rparr>]\<rparr>, Some i)"
    and "load_db_line (ns, Some i) (''WRITE|'' @ join_commas us @ [newline]) =
      (ns\<lparr>nm_files := (nm_files ns)[i := (nm_files ns ! i)\<lparr>fm_write_users := us\<rparr>]\<rparr>, Some i)"
proof -
  have "trim_string (k @ join_commas us @ [newline]) = k @ join_commas us"
    if "k = ''READ|'' \<or> k = ''WRITE|''" for k
    using trim_line [OF csv_line [OF assms(1,3), of k]] that by (auto simp: is_space_def)
  note trim = this [of "''READ|''"] this [of "''WRITE|''"]
  note csv = csv_roundtrip [OF assms(1-3)]
  show "load_db_line (ns, Some i) (''READ|'' @ join_commas us @ [newline]) =
      (ns\<lparr>nm_files := (nm_files ns)[i := (nm_files ns ! i)\<lparr>fm_read_users := us\<rparr>]\<rparr>, Some i)"
    using trim(1) csv by (simp add: load_db_line_def strncmp_eq_def)
  show "load_db_line (ns, Some i) (''WRITE|'' @ join_commas us @ [newline]) =
      (ns\<lparr>nm_files := (nm_files ns)[i := (nm_files ns ! i)\<lparr>fm_write_users := us\<rparr>]\<rparr>, Some i)"
    using trim(2) csv by (simp add: load_db_line_def strncmp_eq_def)
qed

abbreviation with_newlines :: "cstring list \<Rightarrow> cstring list" where
  "with_newlines ls \<equiv> map (\<lambda>l. l @ [newline]) ls"

definition append_file :: "name_server \<Rightarrow> file_metadata \<Rightarrow> name_server" where
  "append_file ns m = ns\<lparr>nm_files := nm_files ns @ [m],
     nm_index := index_insert (nm_index ns) (fm_name m) (int (length (nm_files ns)))\<rparr>"

lemma load_one:
  assumes "db_savable m" "length (nm_files ns) < NS_MAX_FILES"
  shows "load_db_loop (ns, current) (with_newlines (db_lines m) @ rest) =
    (if Suc (length (nm_files ns)) < NS_MAX_FILES
     then load_db_loop (append_file ns m, Some (length (nm_files ns))) rest
     else (append_file ns (m\<lparr>fm_read_users := [], fm_write_users := []\<rparr>), Some (length (nm_files ns))))"
proof -
  have m: "list_all validate_username (fm_read_users m)" "ns_acl_wf (fm_read_users m)"
    "length (join_commas (fm_read_users m)) < MAX_FIELD_SIZE"
    "list_all validate_username (fm_write_users m)" "ns_acl_wf (fm_write_users m)"
    "length (join_commas (fm_write_users m)) < MAX_FIELD_SIZE"
    using assms(1) by (simp_all add: db_savable_def rights_ok_def)
  have lines: "with_newlines (db_lines m) = [hd (db_lines m) @ [newline],
      ''READ|'' @ join_commas (fm_read_users m) @ [newline], ''WRITE|'' @ join_commas (fm_write_users m) @ [newline]]"
    by (simp add: db_lines_def)
  show ?thesis
    unfolding lines using assms(2) load_line_file [OF assms(1)] load_line_users(1) [OF m(1-3)] load_line_users(2) [OF m(4-6)]
    by (cases m; cases ns) (auto simp: append_file_def)
qed

text \<open>The loop stops when the table is full, before the rights of the last file.\<close>

definition without_rights :: "file_metadata \<Rightarrow> file_metadata" where
  "without_rights m = m\<lparr>fm_read_users := [], fm_write_users := []\<rparr>"

fun recovered :: "nat \<Rightarrow> file_metadata list \<Rightarrow> file_metadata list" where
  "recovered k [] = []"
| "recovered k (m # ms) = (if Suc k < NS_MAX_FILES then m # recovered (Suc k) ms else [without_rights m])"

lemma recovered_all: "k + length ms < NS_MAX_FILES \<Longrightarrow> recovered k ms = ms"
  by (induction ms arbitrary: k) auto

lemma recovered_full: "ms \<noteq> [] \<Longrightarrow> k + length ms = NS_MAX_FILES \<Longrightarrow> recovered k ms = butlast ms @ [without_rights (last ms)]"
proof (induction ms arbitrary: k)
  case (Cons m ms)
  then show ?case
    by (cases ms) auto
qed simp

lemma name_ok_savable: "db_savable m \<Longrightarrow> name_ok (fm_name m)"
  by (auto simp: db_savable_def validate_filename_def name_ok_def MAX_FILENAME_LENGTH_def split: if_splits)

lemma append_file_ok:
  "table_ok ns \<Longrightarrow> fm_name m \<notin> set (file_names ns) \<Longrightarrow> name_ok (fm_name m) \<Longrightarrow> table_ok (append_file ns m)"
  by (simp add: append_file_def table_ok_append)

lemma load_files:
  assumes "table_ok ns" "distinct (file_names ns @ map fm_name ms)" "\<forall>m\<in>set ms. db_savable m"
    "length (nm_files ns) + length ms \<le> NS_MAX_FILES"
  shows "nm_files (fst (load_db_loop (ns, current) (with_newlines (concat (map db_lines ms))))) =
      nm_files ns @ recovered (length (nm_files ns)) ms \<and>
    table_ok (fst (load_db_loop (ns, current) (with_newlines (concat (map db_lines ms)))))"
  using assms
proof (induction ms arbitrary: ns current)
  case (Cons m ms)
  let ?n = "length (nm_files ns)"
  have m: "db_savable m" "?n < NS_MAX_FILES" "fm_name m \<notin> set (file_names ns)"
    using Cons.prems by auto
  have ok: "table_ok (append_file ns m')" if "fm_name m' = fm_name m" for m'
    using Cons.prems(1) m name_ok_savable that by (intro append_file_ok) simp_all
  have step: "load_db_loop (ns, current) (with_newlines (concat (map db_lines (m # ms)))) =
      (if Suc ?n < NS_MAX_FILES
       then load_db_loop (append_file ns m, Some ?n) (with_newlines (concat (map db_lines ms)))
       else (append_file ns (without_rights m), Some ?n))"
    using load_one [OF m(1,2), of current "with_newlines (concat (map db_lines ms))"] by (simp add: without_rights_def)
  show ?case
  proof (cases "Suc ?n < NS_MAX_FILES")
    case True
    have "distinct (file_names (append_file ns m) @ map fm_name ms)"
        "length (nm_files (append_file ns m)) + length ms \<le> NS_MAX_FILES"
      using Cons.prems(2,4) by (auto simp: append_file_def file_names_def)
    then show ?thesis
      using True Cons.IH [of "append_file ns m" "Some ?n"] Cons.prems(3) ok [of m] unfolding step
      by (simp add: append_file_def)
  next
    case False
    then show ?thesis
      using ok [of "without_rights m"] unfolding step by (simp add: append_file_def without_rights_def)
  qed
qed simp

lemma db_lines_fit:
  assumes "db_savable m" "l \<in> set (db_lines m)"
  shows "newline \<notin> set l \<and> length l + 2 \<le> MAX_FIELD_SIZE * 2"
proof -
  have "file_line (MAX_FIELD_SIZE * 2) l"
    using assms csv_line [of "fm_read_users m" "''READ|''"] csv_line [of "fm_write_users m" "''WRITE|''"]
    by (auto simp: db_lines_def db_savable_def is_space_def)
  then show ?thesis
    by (simp add: file_line_def)
qed

lemma db_text_lines:
  assumes "\<forall>m\<in>set ms. db_savable m" "length ms \<le> NS_MAX_FILES"
  shows "fgets_lines (MAX_FIELD_SIZE * 2) (db_text ms) =
    (show_nat (length ms) @ [newline]) # with_newlines (concat (map db_lines ms))"
proof -
  have "length (show_nat (length ms)) \<le> 5"
    using assms(2) length_dec_digits [of "length ms" 5] by (simp add: show_nat_def NS_MAX_FILES_def)
  moreover have "newline \<notin> set (show_nat (length ms))"
    using dec_digits_digits [of newline "length ms"] by (auto simp: show_nat_def is_digit_def newline_def)
  ultimately have "\<forall>l\<in>set (show_nat (length ms) # concat (map db_lines ms)). newline \<notin> set l \<and> length l + 2 \<le> MAX_FIELD_SIZE * 2"
    using assms(1) db_lines_fit by (auto simp: MAX_FIELD_SIZE_def)
  from fgets_lines_concat [OF this] show ?thesis
    by (simp add: db_text_def)
qed

lemma table_ok_empty: "table_ok (ns\<lparr>nm_index := replicate FILE_INDEX_SIZE [], nm_files := [],
    nm_cache := replicate FILE_CACHE_SIZE empty_cache_entry, nm_tick := 0\<rparr>)"
  using fi.inv_empty fi.find_empty
  by (auto simp: table_ok_def file_names_def fi.indexes_def list_all_iff entry_ok_def empty_cache_entry_def)

lemma load_saved_db:
  assumes "\<forall>m\<in>set ms. db_savable m" "distinct (map fm_name ms)" "length ms \<le> NS_MAX_FILES"
    "fopen_read (nm_disk ns) NS_DB_PATH = Some (db_text ms)"
  shows "nm_files (ns_load_metadata ns) = recovered 0 ms" "table_ok (ns_load_metadata ns)"
proof -
  let ?ns = "(ns_clear_file_index ns)\<lparr>nm_files := [], nm_cache := replicate FILE_CACHE_SIZE empty_cache_entry, nm_tick := 0\<rparr>"
  have ok: "table_ok ?ns" "file_names ?ns = []" "nm_files ?ns = []"
    using table_ok_empty [of ns] by (simp_all add: ns_clear_file_index_def file_names_def)
  have load: "ns_load_metadata ns = fst (load_db_loop (?ns, None) (with_newlines (concat (map db_lines ms))))"
    using assms(4) db_text_lines [OF assms(1,3)] by (simp add: ns_load_metadata_def Let_def)
  show "nm_files (ns_load_metadata ns) = recovered 0 ms" "table_ok (ns_load_metadata ns)"
    using load_files [OF ok(1), of ms None] ok assms(1-3) unfolding load by auto
qed

end
