(* ===== verification/Timestamps.thy ===== *)
theory Timestamps
  imports CStrings
begin

text \<open>
  \<open>get_timestamp\<close> and \<open>format_time\<close> of \<open>src/common/utils.c\<close>, with \<open>localtime\<close> and the \<open>strftime\<close> format they use.
  The zone is a function from the moment to the seconds to add to it, the way the system's zone data gives
  them.  Days are counted from 1 January 1970; the calendar repeats after 400 years, so any moment is
  reduced to one within 400 years and the years and months are then counted off.
\<close>

section \<open>The calendar\<close>

record tm =
  tm_year :: int
  tm_mon :: nat
  tm_mday :: nat
  tm_hour :: int
  tm_min :: int
  tm_sec :: int

definition leap_year :: "int \<Rightarrow> bool" where
  "leap_year y \<longleftrightarrow> (4 dvd y \<and> \<not> 100 dvd y) \<or> 400 dvd y"

definition year_days :: "int \<Rightarrow> nat" where
  "year_days y = (if leap_year y then 366 else 365)"

definition month_days :: "int \<Rightarrow> nat list" where
  "month_days y = [31, if leap_year y then 29 else 28, 31, 30, 31, 30, 31, 31, 30, 31, 30, 31]"

text \<open>The year of a day, counted from the first day of the given year, and the day within it.\<close>

function find_year :: "int \<Rightarrow> nat \<Rightarrow> int \<times> nat" where
  "find_year y n = (if n < year_days y then (y, n) else find_year (y + 1) (n - year_days y))"
  by pat_completeness auto
termination
  by (relation "measure snd") (auto simp: year_days_def split: if_splits)

declare find_year.simps [simp del]

fun find_month :: "nat list \<Rightarrow> nat \<Rightarrow> nat \<times> nat" where
  "find_month [] n = (0, n)"
| "find_month (l # ls) n = (if n < l then (0, n) else (let (k, r) = find_month ls (n - l) in (Suc k, r)))"

definition date_of :: "int \<Rightarrow> int \<times> nat \<times> nat" where
  "date_of day =
     (let (y, n) = find_year 1970 (nat (day mod 146097)); (k, r) = find_month (month_days y) n in
      (y + 400 * (day div 146097), k + 1, r + 1))"

definition localtime :: "(int \<Rightarrow> int) \<Rightarrow> int \<Rightarrow> tm" where
  "localtime zone t =
     (let s = t + zone t; (y, k, d) = date_of (s div 86400); r = s mod 86400 in
      \<lparr>tm_year = y, tm_mon = k, tm_mday = d, tm_hour = r div 3600, tm_min = r mod 3600 div 60, tm_sec = r mod 60\<rparr>)"

section \<open>The text\<close>

definition two_digits :: "int \<Rightarrow> cstring" where
  "two_digits n = (if 0 \<le> n \<and> n < 10 then CHR ''0'' # show_int n else show_int n)"

text \<open>The format \<open>%Y-%m-%d %H:%M:%S\<close>, for the years from 1000 on, whose four digits need no padding.\<close>

definition strftime :: "tm \<Rightarrow> cstring" where
  "strftime v = show_int (tm_year v) @ ''-'' @ two_digits (int (tm_mon v)) @ ''-'' @ two_digits (int (tm_mday v)) @ '' '' @
     two_digits (tm_hour v) @ '':'' @ two_digits (tm_min v) @ '':'' @ two_digits (tm_sec v)"

definition format_time :: "(int \<Rightarrow> int) \<Rightarrow> int \<Rightarrow> cstring" where
  "format_time zone t = strftime (localtime zone t)"

definition get_timestamp :: "(int \<Rightarrow> int) \<Rightarrow> int \<Rightarrow> cstring" where
  "get_timestamp zone now = format_time zone now"

section \<open>The date determines the day\<close>

text \<open>The days from 1 January 1970 to a date: the other direction.\<close>

fun days_before_years :: "int \<Rightarrow> nat \<Rightarrow> nat" where
  "days_before_years y 0 = 0"
| "days_before_years y (Suc k) = year_days y + days_before_years (y + 1) k"

lemma find_year_sound:
  "find_year y n = (y', r) \<Longrightarrow> y \<le> y' \<and> r < year_days y' \<and> n = days_before_years y (nat (y' - y)) + r"
proof (induction y n rule: find_year.induct)
  case (1 y n)
  show ?case
  proof (cases "n < year_days y")
    case True
    then show ?thesis
      using "1.prems" by (simp add: find_year.simps [of y n])
  next
    case False
    then have "find_year (y + 1) (n - year_days y) = (y', r)"
      using "1.prems" by (simp add: find_year.simps [of y n])
    then have i: "y + 1 \<le> y'" "r < year_days y'" "n - year_days y = days_before_years (y + 1) (nat (y' - (y + 1))) + r"
      using "1.IH" False by auto
    moreover have "nat (y' - y) = Suc (nat (y' - (y + 1)))"
      using i(1) by linarith
    ultimately show ?thesis
      using False by simp
  qed
qed

lemma find_month_sound:
  "find_month ls n = (k, r) \<Longrightarrow> n < sum_list ls \<Longrightarrow> k < length ls \<and> r < ls ! k \<and> n = sum_list (take k ls) + r"
  by (induction ls n arbitrary: k r rule: find_month.induct) (fastforce split: if_splits prod.splits)+

lemma month_days_total: "sum_list (month_days y) = year_days y"
  by (simp add: month_days_def year_days_def)

definition day_of :: "int \<times> nat \<times> nat \<Rightarrow> int" where
  "day_of = (\<lambda>(y, k, d). let c = (y - 1970) div 400; y0 = y - 400 * c in
     146097 * c + int (days_before_years 1970 (nat (y0 - 1970)) + sum_list (take (k - 1) (month_days y0)) + (d - 1)))"

lemma leap_year_period: "leap_year (y + 400 * c) = leap_year y"
proof -
  have "(4::int) dvd 400 * c" "(100::int) dvd 400 * c" "(400::int) dvd 400 * c"
    by (auto intro: dvd_mult2)
  then show ?thesis
    by (simp add: leap_year_def dvd_add_left_iff)
qed

lemma month_days_period: "month_days (y + 400 * c) = month_days y"
  by (simp add: month_days_def leap_year_period)

lemma days_before_years_numeral:
  "days_before_years y (numeral k) = year_days y + days_before_years (y + 1) (pred_numeral k)"
  by (simp add: numeral_eq_Suc)

lemma cycle_days: "days_before_years 1970 400 = 146097"
  by (simp add: days_before_years_numeral year_days_def leap_year_def)

lemma days_before_years_mono: "i \<le> j \<Longrightarrow> days_before_years y i \<le> days_before_years y j"
proof (induction i arbitrary: j y)
  case (Suc i)
  then obtain j' where "j = Suc j'" "i \<le> j'"
    by (cases j) auto
  then show ?case
    using Suc.IH by simp
qed simp

lemma date_parts:
  assumes "date_of day = (y, k, d)"
  obtains y0 where "1970 \<le> y0" "y0 < 2370" "y = y0 + 400 * (day div 146097)" "1 \<le> k" "k \<le> 12" "1 \<le> d"
    "d \<le> month_days y ! (k - 1)"
    "nat (day mod 146097) = days_before_years 1970 (nat (y0 - 1970)) + (sum_list (take (k - 1) (month_days y0)) + (d - 1))"
proof -
  obtain y0 n r k0 where fy: "find_year 1970 (nat (day mod 146097)) = (y0, n)"
      and fm: "find_month (month_days y0) n = (k0, r)" and y: "y = y0 + 400 * (day div 146097)" "k = k0 + 1" "d = r + 1"
    using assms by (auto simp: date_of_def Let_def split: prod.splits)
  note yr = find_year_sound [OF fy]
  have "n < sum_list (month_days y0)"
    using yr by (simp add: month_days_total)
  note mo = find_month_sound [OF fm this]
  have "y0 < 2370"
  proof (rule ccontr)
    assume "\<not> y0 < 2370"
    then have "days_before_years 1970 400 \<le> days_before_years 1970 (nat (y0 - 1970))"
      by (intro days_before_years_mono) simp
    then have "146097 \<le> nat (day mod 146097)"
      using yr by (simp add: cycle_days)
    then show False
      by (simp add: le_nat_iff)
  qed
  moreover have "length (month_days y0) = 12"
    by (simp add: month_days_def)
  ultimately show ?thesis
    using that [of y0] yr mo y by (simp add: month_days_period)
qed

lemma day_of_date: "day_of (date_of day) = day"
proof -
  obtain y k d where date: "date_of day = (y, k, d)"
    by (cases "date_of day")
  then obtain y0 where y0: "1970 \<le> y0" "y0 < 2370" "y = y0 + 400 * (day div 146097)" and
      n: "nat (day mod 146097) = days_before_years 1970 (nat (y0 - 1970)) + (sum_list (take (k - 1) (month_days y0)) + (d - 1))"
    by (rule date_parts)
  have c: "(y - 1970) div 400 = day div 146097"
    using y0 by simp
  have m: "int (nat (day mod 146097)) = day mod 146097"
    by simp
  show ?thesis
    unfolding date day_of_def prod.case Let_def c
    using y0(3) m n by (simp add: algebra_simps)
qed

lemma localtime_fields:
  "date_of ((t + z t) div 86400) = (tm_year (localtime z t), tm_mon (localtime z t), tm_mday (localtime z t))"
  "tm_hour (localtime z t) = (t + z t) mod 86400 div 3600"
  "tm_min (localtime z t) = (t + z t) mod 86400 mod 3600 div 60"
  "tm_sec (localtime z t) = (t + z t) mod 86400 mod 60"
  by (simp_all add: localtime_def Let_def split: prod.splits)

lemma localtime_range:
  "tm_mon (localtime z t) \<in> {1..12}" "tm_mday (localtime z t) \<in> {1..31}"
  "tm_hour (localtime z t) \<in> {0..23}" "tm_min (localtime z t) \<in> {0..59}" "tm_sec (localtime z t) \<in> {0..59}"
proof -
  obtain y k d where date: "date_of ((t + z t) div 86400) = (y, k, d)"
    by (cases "date_of ((t + z t) div 86400)")
  then have "1 \<le> k" "k \<le> 12" "1 \<le> d" "d \<le> month_days y ! (k - 1)"
    by (auto elim: date_parts)
  moreover from this have "month_days y ! (k - 1) \<in> set (month_days y)"
    by (intro nth_mem) (simp add: month_days_def)
  then have "month_days y ! (k - 1) \<le> 31"
    by (auto simp: month_days_def split: if_splits)
  ultimately show "tm_mon (localtime z t) \<in> {1..12}" "tm_mday (localtime z t) \<in> {1..31}"
    using date by (auto simp: localtime_fields(1))
  have day: "0 \<le> (t + z t) mod 86400" "(t + z t) mod 86400 < 86400"
    by simp_all
  then show "tm_hour (localtime z t) \<in> {0..23}"
    unfolding localtime_fields atLeastAtMost_iff by linarith
  have "0 \<le> (t + z t) mod 86400 mod 3600" "(t + z t) mod 86400 mod 3600 < 3600"
    by simp_all
  then show "tm_min (localtime z t) \<in> {0..59}"
    unfolding localtime_fields atLeastAtMost_iff by linarith
  have "0 \<le> (t + z t) mod 86400 mod 60" "(t + z t) mod 86400 mod 60 < 60"
    by simp_all
  then show "tm_sec (localtime z t) \<in> {0..59}"
    unfolding localtime_fields atLeastAtMost_iff by linarith
qed

text \<open>A moment is determined by its broken-down time.\<close>

lemma seconds_split: "r = 3600 * (r div 3600) + 60 * (r mod 3600 div 60) + r mod 60" for r :: int
proof -
  have "r mod 3600 mod 60 = r mod 60"
    by (simp add: mod_mod_cancel)
  then show ?thesis
    using mult_div_mod_eq [of 3600 r] mult_div_mod_eq [of 60 "r mod 3600"] by linarith
qed

lemma localtime_inj:
  assumes "localtime (\<lambda>_. c) t = localtime (\<lambda>_. c) t'"
  shows "t = t'"
proof -
  note same = localtime_fields [where z = "\<lambda>_. c"]
  have "(t + c) div 86400 = (t' + c) div 86400"
    using same(1) [of t] same(1) [of t'] assms by (metis day_of_date)
  moreover have "(t + c) mod 86400 = (t' + c) mod 86400"
    using same(2-4) [of t] same(2-4) [of t'] assms seconds_split [of "(t + c) mod 86400"] seconds_split [of "(t' + c) mod 86400"]
    by metis
  ultimately have "t + c = t' + c"
    by (metis div_mult_mod_eq)
  then show ?thesis
    by simp
qed

section \<open>The text determines the moment\<close>

lemma dec_digits_inj: "dec_digits n = dec_digits m \<Longrightarrow> n = m"
  by (metis dec_value_digits)

lemma dec_value_zero: "dec_value (CHR ''0'' # ds) = dec_value ds"
  by (simp add: dec_value_def digit_val_def)

lemma two_digits_nat:
  assumes "0 \<le> n" "n < 100"
  shows "length (two_digits n) = 2" "dec_value (two_digits n) = nat n"
proof -
  have "length (show_int n) = (if n < 10 then 1 else 2)"
    using assms by (auto simp: show_int_def show_nat_def dec_digits.simps)
  then show "length (two_digits n) = 2"
    using assms by (simp add: two_digits_def)
  show "dec_value (two_digits n) = nat n"
    using assms by (simp add: two_digits_def show_int_def show_nat_def dec_value_zero)
qed

lemma two_digits_inj:
  assumes "0 \<le> m" "m < 100" "0 \<le> n" "n < 100"
  shows "two_digits m @ s = two_digits n @ t \<longleftrightarrow> m = n \<and> s = t"
proof -
  have "two_digits m = two_digits n \<longleftrightarrow> m = n"
    using two_digits_nat(2) assms by (metis int_nat_eq)
  then show ?thesis
    using two_digits_nat(1) assms by (simp add: append_eq_append_conv)
qed

lemma four_digits:
  assumes "1000 \<le> y" "y \<le> (9999 :: int)"
  shows "length (show_int y) = 4"
proof -
  have "nat y div 10 div 10 div 10 < 10" "100 \<le> nat y div 10" "10 \<le> nat y div 10 div 10" "\<not> nat y < 10"
    using assms by linarith+
  then show ?thesis
    using assms by (simp add: show_int_def show_nat_def dec_digits.simps [of "nat y"] dec_digits.simps [of "nat y div 10"]
        dec_digits.simps [of "nat y div 10 div 10"] dec_digits.simps [of "nat y div 10 div 10 div 10"] del: div_mult2_eq)
qed

lemma four_digits_inj:
  assumes "1000 \<le> x" "x \<le> 9999" "1000 \<le> y" "y \<le> 9999"
  shows "show_int x @ s = show_int y @ t \<longleftrightarrow> x = y \<and> s = t"
proof -
  have "show_int x = show_int y \<longleftrightarrow> x = y"
    using assms dec_digits_inj [of "nat x" "nat y"] by (auto simp: show_int_def show_nat_def)
  then show ?thesis
    using four_digits [OF assms(1,2)] four_digits [OF assms(3,4)] by (simp add: append_eq_append_conv)
qed

definition four_digit_year :: "(int \<Rightarrow> int) \<Rightarrow> int \<Rightarrow> bool" where
  "four_digit_year zone t \<longleftrightarrow> 1000 \<le> tm_year (localtime zone t) \<and> tm_year (localtime zone t) \<le> 9999"

text \<open>Within one zone and the years of four digits the text fits the 64 bytes of the buffer, and different
  seconds give different texts.\<close>

lemma length_format_time:
  assumes "four_digit_year zone t"
  shows "length (format_time zone t) = 19"
proof -
  have "length (show_int (tm_year (localtime zone t))) = 4"
    using assms by (intro four_digits) (simp_all add: four_digit_year_def)
  moreover have "length (two_digits (int (tm_mon (localtime zone t)))) = 2" "length (two_digits (int (tm_mday (localtime zone t)))) = 2"
    "length (two_digits (tm_hour (localtime zone t))) = 2" "length (two_digits (tm_min (localtime zone t))) = 2"
    "length (two_digits (tm_sec (localtime zone t))) = 2"
    using localtime_range [of zone t] by (auto intro!: two_digits_nat(1))
  ultimately show ?thesis
    by (simp add: format_time_def strftime_def)
qed

lemma format_time_inj:
  assumes "four_digit_year (\<lambda>_. c) t" "four_digit_year (\<lambda>_. c) t'"
    "format_time (\<lambda>_. c) t = format_time (\<lambda>_. c) t'"
  shows "t = t'"
proof (rule localtime_inj [of c])
  have r: "0 \<le> int (tm_mon (localtime (\<lambda>_. c) u))" "int (tm_mon (localtime (\<lambda>_. c) u)) < 100"
    "0 \<le> int (tm_mday (localtime (\<lambda>_. c) u))" "int (tm_mday (localtime (\<lambda>_. c) u)) < 100"
    "0 \<le> tm_hour (localtime (\<lambda>_. c) u)" "tm_hour (localtime (\<lambda>_. c) u) < 100"
    "0 \<le> tm_min (localtime (\<lambda>_. c) u)" "tm_min (localtime (\<lambda>_. c) u) < 100"
    "0 \<le> tm_sec (localtime (\<lambda>_. c) u)" "tm_sec (localtime (\<lambda>_. c) u) < 100" for u
    using localtime_range [of "\<lambda>_. c" u] by auto
  have "two_digits (tm_sec (localtime (\<lambda>_. c) t)) @ [] = two_digits (tm_sec (localtime (\<lambda>_. c) t')) @ [] \<longleftrightarrow>
      tm_sec (localtime (\<lambda>_. c) t) = tm_sec (localtime (\<lambda>_. c) t')"
    using r by (subst two_digits_inj) simp_all
  then show "localtime (\<lambda>_. c) t = localtime (\<lambda>_. c) t'"
    using assms r unfolding format_time_def strftime_def four_digit_year_def
    by (simp add: four_digits_inj two_digits_inj)
qed

lemma format_time_epoch: "format_time (\<lambda>_. 0) 951786123 = ''2000-02-29 01:02:03''"
  by code_simp

end
