(* ===== verification/NS_Queries.thy ===== *)
theory NS_Queries
  imports NS_Paths NS_Database Timestamps
begin

text \<open>
  The commands of \<open>run_client_loop\<close> that only look: LIST_USERS, VIEW, INFO, LISTREQUESTS,
  VIEWFOLDER, and REQ_LOC, which also stamps the access.  The clock is \<open>now\<close> and
  the time zone \<open>zone\<close>.
\<close>

section \<open>LIST_USERS and VIEW\<close>

definition display_name :: "client_info \<Rightarrow> cstring" where
  "display_name c = bounded_copy (MAX_USERNAME_LENGTH + 32)
     (ci_username c @ '' ['' @ (if ci_connected c then ''Online'' else ''Offline'') @ '']'')"

definition ns_list_users :: "name_server \<Rightarrow> connection \<Rightarrow> ns_outputs" where
  "ns_list_users ns cx =
     concat (map (\<lambda>c. ns_send (cx_fd cx) [''OK_LIST'', display_name c]) (nm_clients ns)) @
     ns_send (cx_fd cx) [''OK_LIST_END'']"

text \<open>One flag character; \<open>None\<close> for one that is not supported, where the loop stops.\<close>

definition view_flag :: "char \<Rightarrow> bool \<times> bool \<Rightarrow> (bool \<times> bool) option" where
  "view_flag c st = (case st of (request_all, request_details) \<Rightarrow>
     if c = CHR ''-'' \<or> c = CHR '' '' \<or> c = CHR 0x09 then Some (request_all, request_details)
     else if c = CHR ''a'' \<or> c = CHR ''A'' then Some (True, request_details)
     else if c = CHR ''l'' \<or> c = CHR ''L'' then Some (request_all, True)
     else None)"

primrec view_flags :: "cstring \<Rightarrow> bool \<times> bool \<Rightarrow> (bool \<times> bool) option" where
  "view_flags [] st = Some st"
| "view_flags (c # p) st = (case view_flag c st of None \<Rightarrow> None | Some st' \<Rightarrow> view_flags p st')"

definition view_access :: "bool \<Rightarrow> cstring \<Rightarrow> file_metadata \<Rightarrow> bool" where
  "view_access all_files user m \<longleftrightarrow> all_files \<or> strncmp_eq MAX_USERNAME_LENGTH (fm_owner m) user \<or>
     file_acl_contains (fm_read_users m) user \<or> file_acl_contains (fm_write_users m) user"

definition time_or_na :: "(int \<Rightarrow> int) \<Rightarrow> int \<Rightarrow> cstring" where
  "time_or_na zone t = bounded_copy 64 (if t > 0 then format_time zone t else ''N/A'')"

definition view_entry :: "(int \<Rightarrow> int) \<Rightarrow> bool \<Rightarrow> file_metadata \<Rightarrow> cstring list" where
  "view_entry zone details m =
     (if details then
        [''OK_VIEW_L'', fm_name m, fm_owner m, bounded_copy 32 (show_int (fm_word_count m)),
         bounded_copy 32 (show_int (fm_char_count m)), time_or_na zone (fm_created m), time_or_na zone (fm_modified m)]
      else [''OK_VIEW_L'', fm_name m])"

definition ns_view :: "(int \<Rightarrow> int) \<Rightarrow> name_server \<Rightarrow> connection \<Rightarrow> cstring list \<Rightarrow> ns_outputs" where
  "ns_view zone ns cx f =
     (case view_flags (if length f \<ge> 2 then f ! 1 else []) (False, False) of
        None \<Rightarrow> send_error_and_log (cx_fd cx) ERR_INVALID_REQUEST ''Unsupported VIEW flag.''
      | Some (all_files, details) \<Rightarrow>
          if cx_username cx = [] then send_error_and_log (cx_fd cx) ERR_INTERNAL_ERROR ''Client identity unknown.''
          else concat (map (\<lambda>m. ns_send (cx_fd cx) (view_entry zone details m))
                 (filter (view_access all_files (cx_username cx)) (nm_files ns))) @
               ns_send (cx_fd cx) [''OK_VIEW_END''])"

section \<open>INFO\<close>

definition rights_list :: "file_metadata \<Rightarrow> cstring list \<Rightarrow> cstring" where
  "rights_list m users =
     (let others = filter (\<lambda>u. \<not> strncmp_eq MAX_USERNAME_LENGTH u (fm_owner m)) users;
          (buffer, is_first) = foldl (acl_append_token MAX_FIELD_SIZE) ([], True)
            ((if fm_owner m \<noteq> [] then [fm_owner m] else []) @ others) in
      if is_first then ''None'' else buffer)"

definition info_lines :: "(int \<Rightarrow> int) \<Rightarrow> file_metadata \<Rightarrow> cstring list" where
  "info_lines zone m = map (bounded_copy MAX_FIELD_SIZE)
     [''Owner: '' @ user_or_na (fm_owner m),
      ''Size: '' @ show_int (max 0 (fm_size m)) @ '' bytes'',
      ''Words: '' @ show_int (fm_word_count m),
      ''Chars: '' @ show_int (fm_char_count m),
      ''Created: '' @ time_or_na zone (fm_created m),
      ''--> Last Modified: '' @ time_or_na zone (fm_modified m) @ '' by '' @ user_or_na (fm_last_modified_user m),
      ''--> Last Accessed: '' @ time_or_na zone (fm_last_access m) @ '' by '' @ user_or_na (fm_last_access_user m),
      ''Access Rights: Read=['' @ rights_list m (fm_read_users m) @ '']; Write=['' @
        rights_list m (fm_write_users m) @ '']'']"

definition ns_info :: "(int \<Rightarrow> int) \<Rightarrow> name_server \<Rightarrow> connection \<Rightarrow> cstring list \<Rightarrow> name_server \<times> ns_outputs" where
  "ns_info zone ns cx f =
     (if length f < 2 then (ns, send_error_and_log (cx_fd cx) ERR_INVALID_REQUEST ''Filename missing in INFO.'')
      else if \<not> validate_filename (f ! 1) then
        (ns, send_error_and_log (cx_fd cx) ERR_INVALID_REQUEST ''Invalid filename requested for INFO.'')
      else if cx_username cx = [] then (ns, send_error_and_log (cx_fd cx) ERR_INTERNAL_ERROR ''Client identity unknown.'')
      else
        let (ns1, found) = file_lookup_locked ns (f ! 1) in
        case found of
          None \<Rightarrow> (ns1, send_error_and_log (cx_fd cx) ERR_FILE_NOT_FOUND ''File not found for INFO.'')
        | Some k \<Rightarrow>
            let m = nm_files ns1 ! k in
            if \<not> file_has_read_access m (cx_username cx) then
              (ns1, send_error_and_log (cx_fd cx) ERR_PERMISSION_DENIED ''User lacks read access for INFO.'')
            else
              (ns1, ns_send (cx_fd cx) [''OK_INFO_START'', fm_name m] @
                    concat (map (send_info_line (cx_fd cx)) (info_lines zone m)) @
                    ns_send (cx_fd cx) [''OK_INFO_END'']))"

section \<open>LISTREQUESTS and VIEWFOLDER\<close>

definition request_perm :: "access_request \<Rightarrow> cstring" where
  "request_perm r = (if ar_write r \<and> ar_read r then ''Read & Write'' else if ar_write r then ''Write'' else ''Read'')"

definition ns_list_requests :: "name_server \<Rightarrow> connection \<Rightarrow> ns_outputs" where
  "ns_list_requests ns cx =
     concat (map (\<lambda>r. ns_send (cx_fd cx)
         [''OK_REQUEST_LIST'', bounded_copy 16 (show_int (ar_id r)), ar_file r, ar_from r, request_perm r])
       (filter (\<lambda>r. ar_pending r \<and> ar_to r = cx_username cx) (nm_requests ns))) @
     ns_send (cx_fd cx) [''OK_REQUEST_LIST_END'']"

definition folder_child :: "cstring \<Rightarrow> cstring \<Rightarrow> bool" where
  "folder_child folder fname \<longleftrightarrow>
     (if folder = [] then CHR ''/'' \<notin> set fname
      else if fname = folder then False
      else if \<not> strncmp_eq (length folder) fname folder then False
      else if length fname = length folder \<or> fname ! length folder \<noteq> CHR ''/'' then False
      else
        let remainder = drop (length folder + 1) fname in
        remainder \<noteq> [] \<and> CHR ''/'' \<notin> set remainder)"

definition ns_view_folder :: "name_server \<Rightarrow> connection \<Rightarrow> cstring list \<Rightarrow> name_server \<times> ns_outputs" where
  "ns_view_folder ns cx f =
     (if length f < 2 then (ns, send_error_and_log (cx_fd cx) ERR_INVALID_REQUEST ''Usage: VIEWFOLDER <path>'')
      else case ns_normalize_destination MAX_FILENAME_LENGTH (f ! 1) of
        None \<Rightarrow> (ns, send_error_and_log (cx_fd cx) ERR_INVALID_REQUEST ''Invalid folder path.'')
      | Some normalized \<Rightarrow>
          let (ns1, found) = (if normalized = [] then (ns, None) else file_lookup_locked ns normalized) in
          if normalized \<noteq> [] \<and> found = None then
            (ns1, send_error_and_log (cx_fd cx) ERR_FILE_NOT_FOUND ''Folder not found.'')
          else if normalized \<noteq> [] \<and> \<not> fm_is_directory (nm_files ns1 ! the found) then
            (ns1, send_error_and_log (cx_fd cx) ERR_INVALID_REQUEST ''Requested path is not a folder.'')
          else
            (ns1, concat (map (\<lambda>m. ns_send (cx_fd cx) [''OK_VIEWFOLDER'', fm_name m])
                    (filter (\<lambda>m. folder_child normalized (fm_name m)) (nm_files ns1))) @
                  ns_send (cx_fd cx) [''OK_VIEWFOLDER_END'']))"

section \<open>REQ_LOC\<close>

text \<open>\<open>None\<close>: an operation that is not known.\<close>

definition loc_access :: "cstring \<Rightarrow> file_metadata \<Rightarrow> cstring \<Rightarrow> bool option" where
  "loc_access operation m user =
     (if operation = [] \<or> strcasecmp_eq operation ''READ'' then Some (file_has_read_access m user)
      else if strcasecmp_eq operation ''WRITE'' then Some (file_has_write_access m user)
      else if strcasecmp_eq operation ''STREAM'' then Some (file_has_read_access m user)
      else if strcasecmp_eq operation ''CHECKPOINT'' then Some (file_has_write_access m user)
      else if strcasecmp_eq operation ''REVERT'' then Some (file_has_write_access m user)
      else if strcasecmp_eq operation ''VIEWCHECKPOINT'' then Some (file_has_read_access m user)
      else if strcasecmp_eq operation ''LISTCHECKPOINTS'' then Some (file_has_read_access m user)
      else None)"

definition loc_modifies :: "cstring \<Rightarrow> bool" where
  "loc_modifies operation \<longleftrightarrow> strcasecmp_eq operation ''WRITE'' \<or> strcasecmp_eq operation ''UNDO'' \<or>
     strcasecmp_eq operation ''CHECKPOINT'' \<or> strcasecmp_eq operation ''REVERT''"

definition stamp_access :: "int \<Rightarrow> cstring \<Rightarrow> cstring \<Rightarrow> file_metadata \<Rightarrow> file_metadata" where
  "stamp_access now operation user m =
     (let m1 = m\<lparr>fm_last_access_user := bounded_copy MAX_USERNAME_LENGTH user, fm_last_access := now\<rparr> in
      if loc_modifies operation
      then m1\<lparr>fm_last_modified_user := bounded_copy MAX_USERNAME_LENGTH user, fm_modified := now\<rparr> else m1)"

definition ns_req_loc :: "int \<Rightarrow> name_server \<Rightarrow> connection \<Rightarrow> cstring list \<Rightarrow> name_server \<times> ns_outputs" where
  "ns_req_loc now ns cx f =
     (if length f < 2 then
        (ns, send_error_and_log (cx_fd cx) ERR_INVALID_REQUEST ''Filename missing in location request.'')
      else
        let (operation, fname) = (if length f \<ge> 3 then (f ! 1, f ! 2) else (''READ'', f ! 1)) in
        if \<not> validate_filename fname then
          (ns, send_error_and_log (cx_fd cx) ERR_INVALID_REQUEST ''Invalid filename requested.'')
        else if cx_username cx = [] then
          (ns, send_error_and_log (cx_fd cx) ERR_INTERNAL_ERROR ''Client identity unknown.'')
        else
          let (ns1, found) = file_lookup_locked ns fname in
          case found of
            None \<Rightarrow> (ns1, send_error_and_log (cx_fd cx) ERR_FILE_NOT_FOUND ''Requested file not found.'')
          | Some k \<Rightarrow>
              (case loc_access operation (nm_files ns1 ! k) (cx_username cx) of
                 None \<Rightarrow> (ns1, send_error_and_log (cx_fd cx) ERR_INVALID_REQUEST ''Unsupported location request operation.'')
               | Some False \<Rightarrow> (ns1, send_error_and_log (cx_fd cx) ERR_PERMISSION_DENIED ''User lacks required access.'')
               | Some True \<Rightarrow>
                   let m = stamp_access now operation (cx_username cx) (nm_files ns1 ! k);
                       ns2 = file_cache_store (ns1\<lparr>nm_files := (nm_files ns1)[k := m]\<rparr>) fname (int k) in
                   (ns_save_metadata ns2,
                    ns_send (cx_fd cx) [''OK_LOC'', fm_name m, fm_ss_ip m, bounded_copy 16 (show_int (fm_ss_port m))])))"

end
