(* ===== verification/NS_Sharing.thy ===== *)
theory NS_Sharing
  imports NS_Queries
begin

text \<open>
  The commands of \<open>run_client_loop\<close> that change rights: REQUESTACCESS, APPROVEACCESS,
  REJECTACCESS, ADDACCESS and REMACCESS.

  A handler that calls a storage server releases \<open>state_lock\<close> around the call, so it has two
  phases: \<open>..._begin\<close> runs under the lock and returns either the final state with the replies
  or a pending call; \<open>..._finish\<close> runs with the result of the call on the state as it is
  then.  A pending call remembers the index of the file, as the code does.
\<close>

section \<open>Calls to a storage server\<close>

text \<open>What \<open>storage_server_send_and_wait\<close> returns: a negative status, or 0 with the raw reply.\<close>

datatype ss_result = Failed int | Answered cstring

record pending =
  pd_cx :: connection
  pd_fields :: "cstring list"
  pd_index :: nat
  pd_target :: "nat option"
  pd_command :: "cstring list"
  pd_had :: "bool \<times> bool"
  pd_request :: nat

type_synonym ns_begin = "(name_server \<times> ns_outputs) + (name_server \<times> pending)"

definition status_detail :: "int \<Rightarrow> cstring" where
  "status_detail status =
     (if status = -2 then ''Storage server unavailable.''
      else if status = -3 then ''Failed to encode storage server command.''
      else if status = -4 then ''Failed to send command to storage server.''
      else if status = -5 then ''Storage server disconnected.''
      else if status = -6 then ''Incomplete response from storage server.''
      else ''Storage server communication failure.'')"

text \<open>The code and the text of the error that a result leads to, if it is not the expected one.\<close>

definition result_error :: "cstring \<Rightarrow> ss_result \<Rightarrow> (int \<times> cstring) option" where
  "result_error expected r = (case r of
       Failed status \<Rightarrow> Some (ERR_INTERNAL_ERROR, status_detail status)
     | Answered raw \<Rightarrow>
         let msg = protocol_parse_message raw in
         if protocol_is_error msg then
           Some (protocol_get_error_code msg, if field_count msg \<ge> 3 then msg_fields msg ! 2 else ''Storage server error.'')
         else if msg_fields msg ! 0 \<noteq> expected then Some (ERR_INTERNAL_ERROR, ''Unexpected SS response.'')
         else None)"

text \<open>The loop that looks for the connected storage server of a file and acquires it.\<close>

definition reachable_server :: "file_metadata \<Rightarrow> ss_info \<Rightarrow> bool" where
  "reachable_server m s \<longleftrightarrow> serves m s \<and> 0 \<le> si_sockfd s"

definition acquire_server :: "name_server \<Rightarrow> file_metadata \<Rightarrow> name_server \<times> nat option" where
  "acquire_server ns m = (case find (reachable_server m) (nm_servers ns) of
       None \<Rightarrow> (ns, None)
     | Some s \<Rightarrow> (update_server (si_addr s) storage_server_acquire ns, Some (si_addr s)))"

definition release_server :: "nat option \<Rightarrow> name_server \<Rightarrow> name_server" where
  "release_server target ns = (case target of None \<Rightarrow> ns | Some a \<Rightarrow> update_server a storage_server_release ns)"

definition set_file :: "nat \<Rightarrow> file_metadata \<Rightarrow> name_server \<Rightarrow> name_server" where
  "set_file k m ns = ns\<lparr>nm_files := (nm_files ns)[k := m]\<rparr>"

text \<open>A write to \<open>ns->files[file_index]\<close> guarded by the current \<open>file_count\<close>.\<close>

definition modify_file :: "nat \<Rightarrow> (file_metadata \<Rightarrow> file_metadata) \<Rightarrow> name_server \<Rightarrow> name_server" where
  "modify_file k g ns = (if k < length (nm_files ns) then set_file k (g (nm_files ns ! k)) ns else ns)"

definition perm_token :: "bool \<Rightarrow> bool \<Rightarrow> cstring" where
  "perm_token r w = (if r then ''R'' else []) @ (if w then ''W'' else [])"

section \<open>ADDACCESS\<close>

definition ns_add_access_begin :: "name_server \<Rightarrow> connection \<Rightarrow> cstring list \<Rightarrow> ns_begin" where
  "ns_add_access_begin ns cx f =
     (let err = (\<lambda>st code text. Inl (st, send_error_and_log (cx_fd cx) code text)) in
      if length f < 4 then err ns ERR_INVALID_REQUEST ''Missing parameters for ADDACCESS.''
      else if \<not> validate_filename (f ! 1) \<or> \<not> validate_username (f ! 2) then
        err ns ERR_INVALID_REQUEST ''Invalid filename or username for ADDACCESS.''
      else case parse_permission_flags (f ! 3) of
        None \<Rightarrow> err ns ERR_INVALID_REQUEST ''Invalid permission token for ADDACCESS.''
      | Some (r, w) \<Rightarrow>
          if cx_username cx = [] then err ns ERR_INTERNAL_ERROR ''Client identity unknown.''
          else
            let (ns1, found) = file_lookup_locked ns (f ! 1) in
            case found of
              None \<Rightarrow> err ns1 ERR_FILE_NOT_FOUND ''File not found for ADDACCESS.''
            | Some k \<Rightarrow>
                let m = nm_files ns1 ! k in
                if \<not> strncmp_eq MAX_USERNAME_LENGTH (fm_owner m) (cx_username cx) then
                  err ns1 ERR_PERMISSION_DENIED ''Only the owner may modify access.''
                else if strncmp_eq MAX_USERNAME_LENGTH (fm_owner m) (f ! 2) then
                  Inl (ns1, ns_reply (cx_fd cx) (protocol_build_ok (Some (bounded_copy MAX_FIELD_SIZE
                    (''Owner '' @ [CHR 0x27] @ f ! 2 @ [CHR 0x27] @ '' already has full access.'')))))
                else
                  let (m1, rc) = file_add_access m (f ! 2) r w; ns2 = set_file k m1 ns1 in
                  if rc \<noteq> 0 then err ns2 ERR_INTERNAL_ERROR ''Failed to update ACL.''
                  else
                    let (ns3, target) = acquire_server ns2 m1 in
                    Inr (ns3, \<lparr>pd_cx = cx, pd_fields = f, pd_index = k, pd_target = target,
                      pd_command = [''SS_ADDACCESS'', f ! 1, f ! 2, perm_token r w], pd_had = (False, False),
                      pd_request = 0\<rparr>))"

definition ns_add_access_finish :: "name_server \<Rightarrow> pending \<Rightarrow> ss_result \<Rightarrow> name_server \<times> ns_outputs" where
  "ns_add_access_finish ns p r =
     (let fd = cx_fd (pd_cx p); f = pd_fields p;
          failure = (if pd_target p = None then Some (ERR_INTERNAL_ERROR, ''Storage server is offline.'')
                     else result_error ''OK_ACCESS_CHANGED'' r);
          ns1 = release_server (pd_target p) ns in
      case failure of
        Some (code, detail) \<Rightarrow>
          (modify_file (pd_index p) (\<lambda>m. fst (file_remove_access m (f ! 2))) ns1, send_error_and_log fd code detail)
      | None \<Rightarrow>
          (ns_save_metadata ns1, ns_reply fd (protocol_build_ok (Some (bounded_copy MAX_FIELD_SIZE
             (''Access granted to '' @ f ! 2 @ '' ('' @ f ! 3 @ '').''))))))"

section \<open>REMACCESS\<close>

definition ns_rem_access_begin :: "name_server \<Rightarrow> connection \<Rightarrow> cstring list \<Rightarrow> ns_begin" where
  "ns_rem_access_begin ns cx f =
     (let err = (\<lambda>st code text. Inl (st, send_error_and_log (cx_fd cx) code text)) in
      if length f < 3 then err ns ERR_INVALID_REQUEST ''Missing parameters for REMACCESS.''
      else if \<not> validate_filename (f ! 1) \<or> \<not> validate_username (f ! 2) then
        err ns ERR_INVALID_REQUEST ''Invalid filename or username for REMACCESS.''
      else if cx_username cx = [] then err ns ERR_INTERNAL_ERROR ''Client identity unknown.''
      else
        let (ns1, found) = file_lookup_locked ns (f ! 1) in
        case found of
          None \<Rightarrow> err ns1 ERR_FILE_NOT_FOUND ''File not found for REMACCESS.''
        | Some k \<Rightarrow>
            let m = nm_files ns1 ! k in
            if \<not> strncmp_eq MAX_USERNAME_LENGTH (fm_owner m) (cx_username cx) then
              err ns1 ERR_PERMISSION_DENIED ''Only the owner may modify access.''
            else
              let had = (file_acl_contains (fm_read_users m) (f ! 2), file_acl_contains (fm_write_users m) (f ! 2));
                  (m1, removed) = file_remove_access m (f ! 2); ns2 = set_file k m1 ns1 in
              if \<not> removed then err ns2 ERR_USER_NOT_FOUND ''User had no explicit access.''
              else
                let (ns3, target) = acquire_server ns2 m1 in
                Inr (ns3, \<lparr>pd_cx = cx, pd_fields = f, pd_index = k, pd_target = target,
                  pd_command = [''SS_REMACCESS'', f ! 1, f ! 2], pd_had = had, pd_request = 0\<rparr>))"

definition ns_rem_access_finish :: "name_server \<Rightarrow> pending \<Rightarrow> ss_result \<Rightarrow> name_server \<times> ns_outputs" where
  "ns_rem_access_finish ns p r =
     (let fd = cx_fd (pd_cx p); f = pd_fields p;
          failure = (if pd_target p = None then Some (ERR_INTERNAL_ERROR, ''Storage server is offline.'')
                     else result_error ''OK_ACCESS_CHANGED'' r);
          ns1 = release_server (pd_target p) ns in
      case failure of
        Some (code, detail) \<Rightarrow>
          (modify_file (pd_index p) (\<lambda>m. fst (file_add_access m (f ! 2) (fst (pd_had p)) (snd (pd_had p)))) ns1,
           send_error_and_log fd code detail)
      | None \<Rightarrow>
          (ns_save_metadata ns1, ns_reply fd (protocol_build_ok (Some (bounded_copy MAX_FIELD_SIZE
             (''Access revoked for '' @ f ! 2 @ ''.''))))))"

section \<open>The request mailbox\<close>

definition ns_request_access :: "name_server \<Rightarrow> connection \<Rightarrow> cstring list \<Rightarrow> name_server \<times> ns_outputs" where
  "ns_request_access ns cx f =
     (let err = (\<lambda>st code text. (st, send_error_and_log (cx_fd cx) code text)) in
      if length f < 3 then err ns ERR_INVALID_REQUEST ''Usage: REQUESTACCESS <filename> <R|W>''
      else if \<not> validate_filename (f ! 1) then err ns ERR_INVALID_REQUEST ''Invalid filename.''
      else case parse_permission_flags (f ! 2) of
        None \<Rightarrow> err ns ERR_INVALID_REQUEST ''Permission must be R or W.''
      | Some (r, w) \<Rightarrow>
          let (ns1, found) = file_lookup_locked ns (f ! 1) in
          case found of
            None \<Rightarrow> err ns1 ERR_FILE_NOT_FOUND ''File not found.''
          | Some k \<Rightarrow>
              if length (nm_requests ns1) \<ge> NS_MAX_ACCESS_REQUESTS then
                err ns1 ERR_INTERNAL_ERROR ''Request queue is full.''
              else
                (ns1\<lparr>nm_requests := nm_requests ns1 @
                    [\<lparr>ar_id = nm_next_request ns1, ar_file = bounded_copy MAX_FILENAME_LENGTH (f ! 1),
                      ar_from = bounded_copy MAX_USERNAME_LENGTH (cx_username cx),
                      ar_to = bounded_copy MAX_USERNAME_LENGTH (fm_owner (nm_files ns1 ! k)),
                      ar_read = r, ar_write = w, ar_pending = True\<rparr>],
                   nm_next_request := nm_next_request ns1 + 1\<rparr>,
                 ns_simple_ok (cx_fd cx) ''Access request submitted.''))"

definition set_pending :: "nat \<Rightarrow> bool \<Rightarrow> name_server \<Rightarrow> name_server" where
  "set_pending i b ns = ns\<lparr>nm_requests := (nm_requests ns)[i := (nm_requests ns ! i)\<lparr>ar_pending := b\<rparr>]\<rparr>"

definition ns_approve_begin :: "name_server \<Rightarrow> connection \<Rightarrow> cstring list \<Rightarrow> ns_begin" where
  "ns_approve_begin ns cx f =
     (let err = (\<lambda>st code text. Inl (st, send_error_and_log (cx_fd cx) code text)) in
      if length f < 2 then err ns ERR_INVALID_REQUEST ''Usage: APPROVEACCESS <request_id>''
      else case first_index (\<lambda>q. ar_id q = atoi (f ! 1)) (nm_requests ns) of
        None \<Rightarrow> err ns ERR_INVALID_REQUEST ''Invalid request ID or not file owner.''
      | Some i \<Rightarrow>
          let q = nm_requests ns ! i in
          if \<not> ar_pending q \<or> ar_to q \<noteq> cx_username cx then
            err ns ERR_INVALID_REQUEST ''Invalid request ID or not file owner.''
          else
            let (ns1, found) = file_lookup_locked ns (ar_file q) in
            case found of
              None \<Rightarrow> err ns1 ERR_FILE_NOT_FOUND ''File for this request no longer exists.''
            | Some k \<Rightarrow>
                let m1 = fst (file_add_access (nm_files ns1 ! k) (ar_from q) (ar_read q) (ar_write q));
                    (ns2, target) = acquire_server (set_pending i False (set_file k m1 ns1)) m1;
                    perm = perm_token (ar_read q) (ar_write q) in
                Inr (ns2, \<lparr>pd_cx = cx, pd_fields = f, pd_index = k, pd_target = target,
                  pd_command = [''SS_ADDACCESS'', ar_file q, ar_from q, if perm \<noteq> [] then perm else ''R''],
                  pd_had = (False, False), pd_request = i\<rparr>))"

definition ns_approve_finish :: "name_server \<Rightarrow> pending \<Rightarrow> ss_result \<Rightarrow> name_server \<times> ns_outputs" where
  "ns_approve_finish ns p r =
     (let fd = cx_fd (pd_cx p);
          failure = (if pd_target p = None then Some ''Storage server is offline. Access not granted.''
                     else case r of
                       Failed status \<Rightarrow> Some ''Storage server failed to update ACL.''
                     | Answered raw \<Rightarrow> if protocol_is_error (protocol_parse_message raw)
                         then Some ''Storage server rejected ACL change.'' else None) in
      case failure of
        Some detail \<Rightarrow>
          let user = ar_from (nm_requests ns ! pd_request p) in
          (release_server (pd_target p) (set_pending (pd_request p) True
             (modify_file (pd_index p) (\<lambda>m. fst (file_remove_access m user)) ns)),
           send_error_and_log fd ERR_INTERNAL_ERROR detail)
      | None \<Rightarrow> (release_server (pd_target p) ns, ns_simple_ok fd ''Access approved and saved.''))"

definition ns_reject :: "name_server \<Rightarrow> connection \<Rightarrow> cstring list \<Rightarrow> name_server \<times> ns_outputs" where
  "ns_reject ns cx f =
     (if length f < 2 then (ns, send_error_and_log (cx_fd cx) ERR_INVALID_REQUEST ''Usage: REJECTACCESS <request_id>'')
      else case first_index (\<lambda>q. ar_id q = atoi (f ! 1) \<and> ar_pending q \<and> ar_to q = cx_username cx) (nm_requests ns) of
        Some i \<Rightarrow> (set_pending i False ns, ns_simple_ok (cx_fd cx) ''Request rejected.'')
      | None \<Rightarrow> (ns, send_error_and_log (cx_fd cx) ERR_INVALID_REQUEST ''Invalid or non-pending request ID.''))"

end
