(* ===== verification/NS_Files.thy ===== *)
theory NS_Files
  imports NS_Sharing
begin

text \<open>
  The commands of \<open>run_client_loop\<close> that make entries or use contents: CREATE, CREATEFOLDER,
  COPY and EXEC.  CREATE, COPY and EXEC call a storage server without the
  lock and have two phases (theory \<open>NS_Sharing\<close>).  The shell of EXEC is the
  parameter \<open>popen\<close>: the output of a command, or \<open>None\<close> when it cannot be started.
\<close>

section \<open>New entries\<close>

text \<open>The writes to \<open>ns->files[ns->file_count]\<close>, the index and the cache.\<close>

definition enter_file :: "name_server \<Rightarrow> file_metadata \<Rightarrow> cstring \<Rightarrow> name_server" where
  "enter_file ns m fname =
     (let n = length (nm_files ns) in
      file_cache_store (fst (file_index_insert (ns\<lparr>nm_files := nm_files ns @ [m]\<rparr>) fname (int n))) fname (int n))"

definition new_entry :: "int \<Rightarrow> cstring \<Rightarrow> cstring \<Rightarrow> file_metadata" where
  "new_entry now fname user = zero_metadata\<lparr>fm_name := bounded_copy MAX_FILENAME_LENGTH fname,
     fm_owner := bounded_copy MAX_USERNAME_LENGTH user, fm_created := now, fm_modified := now, fm_last_access := now,
     fm_last_access_user := bounded_copy MAX_USERNAME_LENGTH user,
     fm_last_modified_user := bounded_copy MAX_USERNAME_LENGTH user\<rparr>"

definition new_file :: "int \<Rightarrow> cstring \<Rightarrow> cstring \<Rightarrow> ss_info \<Rightarrow> file_metadata" where
  "new_file now fname user s = (new_entry now fname user)
     \<lparr>fm_ss_ip := bounded_copy MAX_IP_LENGTH (si_client_ip s), fm_ss_port := si_client_port s\<rparr>"

section \<open>CREATE\<close>

definition ns_create_begin :: "int \<Rightarrow> name_server \<Rightarrow> connection \<Rightarrow> cstring list \<Rightarrow> ns_begin" where
  "ns_create_begin now ns cx f =
     (let err = (\<lambda>st code text. Inl (st, send_error_and_log (cx_fd cx) code text)) in
      if length f < 2 then err ns ERR_INVALID_REQUEST ''Filename missing in CREATE.''
      else if \<not> validate_filename (f ! 1) then err ns ERR_INVALID_REQUEST ''Invalid filename requested for CREATE.''
      else if cx_username cx = [] then err ns ERR_INTERNAL_ERROR ''Client identity unknown.''
      else if length (nm_files ns) \<ge> NS_MAX_FILES then err ns ERR_INTERNAL_ERROR ''Maximum file limit reached.''
      else
        let (ns1, found) = file_lookup_locked ns (f ! 1) in
        if found \<noteq> None then err ns1 ERR_FILE_EXISTS ''File already exists.''
        else if nm_servers ns1 = [] then err ns1 ERR_INTERNAL_ERROR ''No storage servers available.''
        else case ns_select_storage_server_balanced ns1 of
          (ns2, None) \<Rightarrow> err ns2 ERR_INTERNAL_ERROR ''No alive storage servers available.''
        | (ns2, Some a) \<Rightarrow>
            let ns3 = update_server a storage_server_acquire ns2;
                s = the (server_at ns3 a);
                ns4 = enter_file ns3 (new_file now (f ! 1) (cx_username cx) s) (f ! 1) in
            Inr (ns4, \<lparr>pd_cx = cx, pd_fields = f, pd_index = length (nm_files ns3), pd_target = Some a,
              pd_command = [''CREATE_FILE'', f ! 1, cx_username cx], pd_had = (0 \<le> si_sockfd s, False), pd_request = 0\<rparr>))"

text \<open>\<open>pd_had\<close> says whether the storage server had a socket before the call.\<close>

definition ns_create_finish :: "name_server \<Rightarrow> pending \<Rightarrow> ss_result \<Rightarrow> name_server \<times> ns_outputs" where
  "ns_create_finish ns p r =
     (let fd = cx_fd (pd_cx p); fname = pd_fields p ! 1;
          failure = (if \<not> fst (pd_had p) then Some (ERR_INTERNAL_ERROR, ''Storage server socket unavailable.'')
                     else result_error ''OK_CREATE'' r) in
      case failure of
        Some (code, detail) \<Rightarrow>
          (release_server (pd_target p) (fst (remove_file_metadata_locked ns fname)), send_error_and_log fd code detail)
      | None \<Rightarrow>
          (ns_save_metadata (release_server (pd_target p)
             (update_server (the (pd_target p)) (\<lambda>s. s\<lparr>si_total_files := si_total_files s + 1\<rparr>) ns)),
           ns_reply fd (protocol_build_ok (Some (bounded_copy MAX_FIELD_SIZE
             (''File '' @ [CHR 0x27] @ fname @ [CHR 0x27] @ '' created successfully.''))))))"

section \<open>CREATEFOLDER\<close>

definition ns_create_folder :: "int \<Rightarrow> name_server \<Rightarrow> connection \<Rightarrow> cstring list \<Rightarrow> name_server \<times> ns_outputs" where
  "ns_create_folder now ns cx f =
     (let err = (\<lambda>st code text. (st, send_error_and_log (cx_fd cx) code text)) in
      if length f < 2 then err ns ERR_INVALID_REQUEST ''Usage: CREATEFOLDER <path>''
      else if \<not> ns_validate_logical_path (f ! 1) then err ns ERR_INVALID_REQUEST ''Invalid path format.''
      else if cx_username cx = [] then err ns ERR_INTERNAL_ERROR ''Client identity unknown.''
      else if length (nm_files ns) \<ge> NS_MAX_FILES then err ns ERR_INTERNAL_ERROR ''Maximum file limit reached.''
      else
        let (ns1, found) = file_lookup_locked ns (f ! 1) in
        if found \<noteq> None then err ns1 ERR_FILE_EXISTS ''Path already exists.''
        else case ns_split_parent_child MAX_FILENAME_LENGTH (f ! 1) of
          None \<Rightarrow> err ns1 ERR_INVALID_REQUEST ''Unable to resolve parent folder.''
        | Some (parent, child) \<Rightarrow>
            let (ns2, parent_found) = (if parent \<noteq> [] then file_lookup_locked ns1 parent else (ns1, None)) in
            if parent \<noteq> [] \<and> parent_found = None then err ns2 ERR_FILE_NOT_FOUND ''Parent folder does not exist.''
            else if parent \<noteq> [] \<and> \<not> fm_is_directory (nm_files ns2 ! the parent_found) then
              err ns2 ERR_INVALID_REQUEST ''Parent path is not a folder.''
            else
              (ns_save_metadata (enter_file ns2
                 ((new_entry now (f ! 1) (cx_username cx))\<lparr>fm_is_directory := True\<rparr>) (f ! 1)),
               ns_simple_ok (cx_fd cx) ''Folder created.''))"

section \<open>COPY\<close>

definition ns_copy_begin :: "name_server \<Rightarrow> connection \<Rightarrow> cstring list \<Rightarrow> ns_begin" where
  "ns_copy_begin ns cx f =
     (let err = (\<lambda>st code text. Inl (st, send_error_and_log (cx_fd cx) code text)) in
      if length f < 3 then err ns ERR_INVALID_REQUEST ''Usage: COPY <source> <dest>''
      else if \<not> validate_filename (f ! 1) \<or> \<not> validate_filename (f ! 2) then
        err ns ERR_INVALID_REQUEST ''Invalid filename(s) for COPY.''
      else if cx_username cx = [] then err ns ERR_INTERNAL_ERROR ''Client identity unknown.''
      else
        let (ns1, src) = file_lookup_locked ns (f ! 1); (ns2, dest) = file_lookup_locked ns1 (f ! 2) in
        case (src, dest) of
          (None, _) \<Rightarrow> err ns2 ERR_FILE_NOT_FOUND ''Source file not found''
        | (_, None) \<Rightarrow> err ns2 ERR_FILE_NOT_FOUND ''Destination file not found (create it first)''
        | (Some i, Some j) \<Rightarrow>
            let src_file = nm_files ns2 ! i; dest_file = nm_files ns2 ! j in
            if \<not> file_has_read_access src_file (cx_username cx) then
              err ns2 ERR_PERMISSION_DENIED ''No read access to source''
            else if \<not> file_has_write_access dest_file (cx_username cx) then
              err ns2 ERR_PERMISSION_DENIED ''No write access to destination''
            else case (find (reachable_server src_file) (nm_servers ns2), find (reachable_server dest_file) (nm_servers ns2)) of
              (_, None) \<Rightarrow> err ns2 ERR_INTERNAL_ERROR ''Destination storage server offline''
            | (None, _) \<Rightarrow> err ns2 ERR_INTERNAL_ERROR ''Source storage server offline''
            | (Some s, Some d) \<Rightarrow>
                let (source_ip, port) = (if si_addr s = si_addr d then (''LOCAL'', ''0'')
                       else (si_client_ip s, bounded_copy 16 (show_int (si_client_port s)))) in
                Inr (update_server (si_addr d) storage_server_acquire ns2,
                     \<lparr>pd_cx = cx, pd_fields = f, pd_index = i, pd_target = Some (si_addr d),
                      pd_command = [''SS_COPY'', f ! 2, source_ip, port, f ! 1, cx_username cx],
                      pd_had = (False, False), pd_request = 0\<rparr>))"

definition ns_copy_finish :: "int \<Rightarrow> name_server \<Rightarrow> pending \<Rightarrow> ss_result \<Rightarrow> name_server \<times> ns_outputs" where
  "ns_copy_finish now ns p r =
     (let fd = cx_fd (pd_cx p); ns1 = release_server (pd_target p) ns in
      case r of
        Failed status \<Rightarrow> (ns1, send_error_and_log fd ERR_INTERNAL_ERROR ''Copy failed on Storage Server'')
      | Answered raw \<Rightarrow>
          (if \<not> protocol_is_error (protocol_parse_message raw) \<and> pd_index p < length (nm_files ns1)
           then ns_save_metadata (modify_file (pd_index p) (\<lambda>m. m\<lparr>fm_last_access := now,
                  fm_last_access_user := bounded_copy MAX_USERNAME_LENGTH (cx_username (pd_cx p))\<rparr>) ns1)
           else ns1,
           ns_reply fd (Some raw)))"

section \<open>EXEC\<close>

definition ns_exec_begin :: "int \<Rightarrow> name_server \<Rightarrow> connection \<Rightarrow> cstring list \<Rightarrow> ns_begin" where
  "ns_exec_begin now ns cx f =
     (let err = (\<lambda>st code text. Inl (st, send_error_and_log (cx_fd cx) code text)) in
      if length f < 2 then err ns ERR_INVALID_REQUEST ''Filename missing in EXEC.''
      else if \<not> validate_filename (f ! 1) then err ns ERR_INVALID_REQUEST ''Invalid filename.''
      else if cx_username cx = [] then err ns ERR_INTERNAL_ERROR ''Client identity unknown.''
      else
        let (ns1, found) = file_lookup_locked ns (f ! 1) in
        case found of
          None \<Rightarrow> err ns1 ERR_FILE_NOT_FOUND ''File not found.''
        | Some k \<Rightarrow>
            let m = nm_files ns1 ! k in
            if \<not> file_has_read_access m (cx_username cx) then
              err ns1 ERR_PERMISSION_DENIED ''User lacks read access for EXEC.''
            else
              let m1 = m\<lparr>fm_last_access := now,
                    fm_last_access_user := bounded_copy MAX_USERNAME_LENGTH (cx_username cx)\<rparr>;
                  (ns2, target) = acquire_server (set_file k m1 ns1) m1 in
              Inr (ns2, \<lparr>pd_cx = cx, pd_fields = f, pd_index = k, pd_target = target,
                pd_command = [''GET_CONTENT'', bounded_copy MAX_FILENAME_LENGTH (fm_name m1)],
                pd_had = (False, False), pd_request = 0\<rparr>))"

text \<open>The storage server is released before the reply is looked at; the database is saved in every case.\<close>

definition ns_exec_finish :: "(cstring \<Rightarrow> cstring option) \<Rightarrow> name_server \<Rightarrow> pending \<Rightarrow> ss_result \<Rightarrow> name_server \<times> ns_outputs" where
  "ns_exec_finish popen ns p r =
     (let fd = cx_fd (pd_cx p) in
      (ns_save_metadata (release_server (pd_target p) ns),
       if pd_target p = None then send_error_and_log fd ERR_INTERNAL_ERROR ''Storage server for file is offline.''
       else case r of
         Failed status \<Rightarrow> send_error_and_log fd ERR_INTERNAL_ERROR ''Failed to get file content from storage server.''
       | Answered raw \<Rightarrow>
           let msg = protocol_parse_message raw in
           if protocol_is_error msg then
             send_error_and_log fd (protocol_get_error_code msg)
               (if field_count msg \<ge> 3 then msg_fields msg ! 2 else ''Storage server error.'')
           else if msg_fields msg ! 0 \<noteq> ''OK_CONTENT'' \<or> field_count msg < 3 then
             send_error_and_log fd ERR_INTERNAL_ERROR ''Unexpected storage server payload for EXEC.''
           else case popen (msg_fields msg ! 2) of
             None \<Rightarrow> send_error_and_log fd ERR_EXEC_FAILED ''Failed to execute command on server.''
           | Some outp \<Rightarrow>
               ns_send fd [''OK_EXEC_START''] @
               concat (map (\<lambda>l. ns_send fd [''EXEC_OUT'', trim_string l]) (fgets_lines MAX_FIELD_SIZE outp)) @
               ns_send fd [''OK_EXEC_END'']))"

end
