(* ===== verification/NS_Delete.thy ===== *)
theory NS_Delete
  imports NS_Files
begin

text \<open>
  DELETE of \<open>run_client_loop\<close>: a plan of all entries at or below the path, one call to a
  storage server for every file of the plan, then the removal of the entries, the
  longest names first.  \<open>state_lock\<close> is held throughout, so the handler is one step.  The
  calls are to the parameter \<open>answer\<close>, which gives the result of a command at a
  storage server; the commands of one request are pairwise different.
\<close>

section \<open>The plan\<close>

record delete_entry =
  dp_path :: cstring
  dp_is_directory :: bool
  dp_ss :: "nat option"
  dp_size :: int

definition delete_match :: "cstring \<Rightarrow> bool \<Rightarrow> file_metadata \<Rightarrow> bool" where
  "delete_match target is_dir m \<longleftrightarrow> fm_name m = target \<or>
     (is_dir \<and> strncmp_eq (length target) (fm_name m) target \<and> length (fm_name m) > length target \<and>
      fm_name m ! length target = CHR ''/'')"

text \<open>The entries planned so far and the error that ended the loop, if one did.\<close>

fun delete_plan :: "ss_info list \<Rightarrow> cstring \<Rightarrow> cstring \<Rightarrow> bool \<Rightarrow> file_metadata list \<Rightarrow> delete_entry list \<Rightarrow>
    delete_entry list \<times> (int \<times> cstring) option" where
  "delete_plan servers user target is_dir [] plan = (plan, None)"
| "delete_plan servers user target is_dir (m # ms) plan =
     (if \<not> delete_match target is_dir m then delete_plan servers user target is_dir ms plan
      else if \<not> strncmp_eq MAX_USERNAME_LENGTH (fm_owner m) user then
        (plan, Some (ERR_PERMISSION_DENIED, ''Delete requires ownership of all contained entries.''))
      else
        let entry = \<lparr>dp_path = bounded_copy MAX_FILENAME_LENGTH (fm_name m), dp_is_directory = fm_is_directory m,
              dp_ss = None, dp_size = (if fm_size m > 0 then fm_size m else 0)\<rparr> in
        if fm_is_directory m then delete_plan servers user target is_dir ms (plan @ [entry])
        else case find (reachable_server m) servers of
          None \<Rightarrow> (plan, Some (ERR_INTERNAL_ERROR, ''Storage server unavailable for delete.''))
        | Some s \<Rightarrow> delete_plan servers user target is_dir ms (plan @ [entry\<lparr>dp_ss := Some (si_addr s)\<rparr>]))"

definition plan_refs :: "delete_entry list \<Rightarrow> nat list" where
  "plan_refs plan = map the (filter (\<lambda>a. a \<noteq> None) (map dp_ss plan))"

definition acquire_all :: "nat list \<Rightarrow> name_server \<Rightarrow> name_server" where
  "acquire_all = fold (\<lambda>a. update_server a storage_server_acquire)"

definition release_all :: "nat list \<Rightarrow> name_server \<Rightarrow> name_server" where
  "release_all = fold (\<lambda>a. update_server a storage_server_release)"

section \<open>The calls\<close>

text \<open>The error of a call, 0 standing for a code that the reply did not give.\<close>

definition delete_failure :: "ss_result \<Rightarrow> (int \<times> cstring) option" where
  "delete_failure r = (case r of
       Failed status \<Rightarrow> Some (0, status_detail status)
     | Answered raw \<Rightarrow>
         let msg = protocol_parse_message raw in
         if protocol_is_error msg then
           Some (protocol_get_error_code msg, bounded_copy MAX_FIELD_SIZE
             (if field_count msg \<ge> 3 then msg_fields msg ! 2 else ''Storage server error.''))
         else if msg_fields msg ! 0 \<noteq> ''OK_DELETE'' then Some (0, ''Unexpected storage server response.'')
         else None)"

text \<open>The commands sent, in order, and the failure that ended the loop.\<close>

fun delete_calls :: "(nat \<Rightarrow> cstring list \<Rightarrow> ss_result) \<Rightarrow> delete_entry list \<Rightarrow>
    (nat \<times> cstring list) list \<times> (int \<times> cstring) option" where
  "delete_calls answer [] = ([], None)"
| "delete_calls answer (e # plan) =
     (if dp_is_directory e then delete_calls answer plan
      else
        let call = (the (dp_ss e), [''DELETE_FILE'', dp_path e]) in
        case delete_failure (answer (fst call) (snd call)) of
          Some failure \<Rightarrow> ([call], Some failure)
        | None \<Rightarrow> (let (calls, r) = delete_calls answer plan in (call # calls, r)))"

section \<open>The removal\<close>

definition forget_load :: "int \<Rightarrow> ss_info \<Rightarrow> ss_info" where
  "forget_load removed_size s =
     s\<lparr>si_total_files := (if si_total_files s > 0 then si_total_files s - 1 else si_total_files s),
       si_total_bytes := (if removed_size > 0 then
           (if si_total_bytes s \<ge> removed_size then si_total_bytes s - removed_size else 0) else si_total_bytes s)\<rparr>"

definition cancel_requests :: "cstring \<Rightarrow> name_server \<Rightarrow> name_server" where
  "cancel_requests path ns = ns\<lparr>nm_requests :=
     map (\<lambda>q. if ar_pending q \<and> ar_file q = path then q\<lparr>ar_pending := False\<rparr> else q) (nm_requests ns)\<rparr>"

definition remove_entry :: "name_server \<Rightarrow> delete_entry \<Rightarrow> name_server" where
  "remove_entry ns e =
     (let (ns1, removed) = remove_file_metadata_locked ns (dp_path e) in
      if removed then
        cancel_requests (dp_path e)
          (case dp_ss e of None \<Rightarrow> ns1 | Some a \<Rightarrow> update_server a (forget_load (dp_size e)) ns1)
      else ns1)"

text \<open>The scan for the last entry with the longest name among those left.\<close>

fun longest_last :: "delete_entry list \<Rightarrow> nat \<Rightarrow> nat option \<Rightarrow> nat \<Rightarrow> nat option" where
  "longest_last [] i best best_len = best"
| "longest_last (e # es) i best best_len =
     (if length (dp_path e) \<ge> best_len then longest_last es (i + 1) (Some i) (length (dp_path e))
      else longest_last es (i + 1) best best_len)"

lemma longest_last_bound:
  "longest_last es i best len = Some b \<Longrightarrow> best = Some b \<or> (i \<le> b \<and> b < i + length es)"
  by (induction es i best len rule: longest_last.induct) (auto split: if_splits)

lemma longest_last_found: "es \<noteq> [] \<Longrightarrow> longest_last es i best 0 \<noteq> None"
proof -
  have "longest_last es i (Some a) len \<noteq> None" for es i a len
    by (induction es arbitrary: i a len) simp_all
  then show "es \<noteq> [] \<Longrightarrow> longest_last es i best 0 \<noteq> None"
    by (cases es) simp_all
qed

function remove_plan :: "delete_entry list \<Rightarrow> name_server \<Rightarrow> name_server" where
  "remove_plan plan ns = (case longest_last plan 0 None 0 of
       None \<Rightarrow> ns
     | Some b \<Rightarrow> remove_plan (take b plan @ drop (Suc b) plan) (remove_entry ns (plan ! b)))"
  by pat_completeness auto
termination
proof (relation "measure (\<lambda>(plan, ns). length plan)")
  fix plan :: "delete_entry list" and ns :: name_server and b
  assume "longest_last plan 0 None 0 = Some b"
  then have "b < length plan"
    using longest_last_bound by fastforce
  then show "((take b plan @ drop (Suc b) plan, remove_entry ns (plan ! b)), plan, ns) \<in> measure (\<lambda>(plan, ns). length plan)"
    by simp
qed simp

declare remove_plan.simps [simp del]

section \<open>The handler\<close>

definition ns_delete :: "(nat \<Rightarrow> cstring list \<Rightarrow> ss_result) \<Rightarrow> name_server \<Rightarrow> connection \<Rightarrow> cstring list \<Rightarrow>
    name_server \<times> ns_outputs" where
  "ns_delete answer ns cx f =
     (let err = (\<lambda>st code text. (st, send_error_and_log (cx_fd cx) code text)) in
      if length f < 2 then err ns ERR_INVALID_REQUEST ''Usage: DELETE <path>''
      else if \<not> ns_validate_logical_path (f ! 1) then err ns ERR_INVALID_REQUEST ''Invalid path requested for DELETE.''
      else if cx_username cx = [] then err ns ERR_INTERNAL_ERROR ''Client identity unknown.''
      else
        let target = f ! 1; (ns1, found) = file_lookup_locked ns target in
        case found of
          None \<Rightarrow> err ns1 ERR_FILE_NOT_FOUND ''Target path not found.''
        | Some k \<Rightarrow>
            let m = nm_files ns1 ! k in
            if \<not> strncmp_eq MAX_USERNAME_LENGTH (fm_owner m) (cx_username cx) then
              err ns1 ERR_PERMISSION_DENIED ''Only the owner may delete this entry.''
            else
              let (plan, problem) = delete_plan (nm_servers ns1) (cx_username cx) target (fm_is_directory m) (nm_files ns1) [];
                  refs = plan_refs plan; ns2 = acquire_all refs ns1 in
              case problem of
                Some (code, detail) \<Rightarrow> err (release_all refs ns2) code detail
              | None \<Rightarrow>
                  if plan = [] then err (release_all refs ns2) ERR_INTERNAL_ERROR ''Delete plan was empty.''
                  else case snd (delete_calls answer plan) of
                    Some (code, detail) \<Rightarrow>
                      err (release_all refs ns2) (if code \<noteq> 0 then code else ERR_INTERNAL_ERROR)
                        (if detail \<noteq> [] then detail else ''Delete failed.'')
                  | None \<Rightarrow>
                      (ns_save_metadata (release_all refs (remove_plan plan ns2)),
                       ns_simple_ok (cx_fd cx) (bounded_copy MAX_FIELD_SIZE
                         (if length plan = 1 then ''Entry '' @ quoted target @ '' deleted.''
                          else ''Deleted '' @ show_nat (length plan) @ '' entries under '' @ quoted target @ ''.''))))"

end
