(* ===== verification/NS_Moves.thy ===== *)
theory NS_Moves
  imports NS_Delete
begin

text \<open>
  MOVE of \<open>run_client_loop\<close>: the plan of all renames, checked for collisions, the renames at the
  storage servers with their roll-back, then the renames in the file table.  As in theory
  \<open>NS_Delete\<close> the lock is held throughout and \<open>answer\<close> gives the results of the calls.
\<close>

section \<open>The plan\<close>

record move_plan_entry =
  mp_old_path :: cstring
  mp_new_path :: cstring
  mp_is_directory :: bool
  mp_ss :: "nat option"
  mp_old_flat :: cstring
  mp_new_flat :: cstring

definition move_target :: "cstring \<Rightarrow> cstring \<Rightarrow> cstring option" where
  "move_target dest base =
     (if dest = [] then safe_strcpy MAX_FILENAME_LENGTH base
      else let p = dest @ ''/'' @ base in if length p \<ge> MAX_FILENAME_LENGTH then None else Some p)"

text \<open>The new name of one entry: the target itself, or its place below the new root.\<close>

definition moved_name :: "cstring \<Rightarrow> cstring \<Rightarrow> cstring \<Rightarrow> cstring option" where
  "moved_name src root fname =
     (if fname = src then safe_strcpy MAX_FILENAME_LENGTH root
      else let p = root @ drop (length src) fname in if length p \<ge> MAX_FILENAME_LENGTH then None else Some p)"

text \<open>The checks of one entry.  The lookup for a collision may change the cache.\<close>

definition plan_move_entry :: "name_server \<Rightarrow> cstring \<Rightarrow> cstring \<Rightarrow> cstring \<Rightarrow> file_metadata \<Rightarrow>
    name_server \<times> ((int \<times> cstring) + move_plan_entry)" where
  "plan_move_entry ns user src root m =
     (if \<not> strncmp_eq MAX_USERNAME_LENGTH (fm_owner m) user then
        (ns, Inl (ERR_PERMISSION_DENIED, ''Move requires ownership of all contained entries.''))
      else case moved_name src root (fm_name m) of
        None \<Rightarrow> (ns, Inl (ERR_INVALID_REQUEST, ''Destination path too long.''))
      | Some new_path \<Rightarrow>
          if \<not> ns_validate_logical_path new_path then
            (ns, Inl (ERR_INVALID_REQUEST, ''Destination path is invalid.''))
          else
            let old_path = bounded_copy MAX_FILENAME_LENGTH (fm_name m);
                (ns1, found) = file_lookup_locked ns new_path in
            if found \<noteq> None \<and> fm_name (nm_files ns1 ! the found) \<noteq> old_path then
              (ns1, Inl (ERR_FILE_EXISTS, ''Destination already contains an entry with that name.''))
            else
              let entry = \<lparr>mp_old_path = old_path, mp_new_path = new_path, mp_is_directory = fm_is_directory m,
                    mp_ss = None, mp_old_flat = [], mp_new_flat = []\<rparr> in
              if fm_is_directory m then (ns1, Inr entry)
              else case find (reachable_server m) (nm_servers ns1) of
                None \<Rightarrow> (ns1, Inl (ERR_INTERNAL_ERROR, ''Storage server unavailable for move.''))
              | Some s \<Rightarrow>
                  (case (flatten_logical_path MAX_FILENAME_LENGTH old_path, flatten_logical_path MAX_FILENAME_LENGTH new_path) of
                     (Some old_flat, Some new_flat) \<Rightarrow>
                       (ns1, Inr (entry\<lparr>mp_ss := Some (si_addr s), mp_old_flat := old_flat, mp_new_flat := new_flat\<rparr>))
                   | _ \<Rightarrow> (ns1, Inl (ERR_INTERNAL_ERROR, ''Failed to derive storage filenames.''))))"

fun move_plan :: "name_server \<Rightarrow> cstring \<Rightarrow> cstring \<Rightarrow> bool \<Rightarrow> cstring \<Rightarrow> file_metadata list \<Rightarrow> move_plan_entry list \<Rightarrow>
    name_server \<times> move_plan_entry list \<times> (int \<times> cstring) option" where
  "move_plan ns user src is_dir root [] plan = (ns, plan, None)"
| "move_plan ns user src is_dir root (m # ms) plan =
     (if \<not> delete_match src is_dir m then move_plan ns user src is_dir root ms plan
      else case plan_move_entry ns user src root m of
        (ns1, Inl problem) \<Rightarrow> (ns1, plan, Some problem)
      | (ns1, Inr entry) \<Rightarrow> move_plan ns1 user src is_dir root ms (plan @ [entry]))"

definition move_refs :: "move_plan_entry list \<Rightarrow> nat list" where
  "move_refs plan = map the (filter (\<lambda>a. a \<noteq> None) (map mp_ss plan))"

section \<open>The calls\<close>

definition move_failure :: "ss_result \<Rightarrow> (int \<times> cstring) option" where
  "move_failure r = (case r of
       Failed status \<Rightarrow> Some (ERR_INTERNAL_ERROR, ''Storage server rename failed.'')
     | Answered raw \<Rightarrow>
         let msg = protocol_parse_message raw in
         if protocol_is_error msg then
           Some (protocol_get_error_code msg, bounded_copy MAX_FIELD_SIZE
             (if field_count msg \<ge> 3 then msg_fields msg ! 2 else ''Storage server error.''))
         else if msg_fields msg ! 0 \<noteq> ''OK'' then Some (ERR_INTERNAL_ERROR, ''Unexpected storage server response.'')
         else None)"

definition rename_call :: "move_plan_entry \<Rightarrow> nat \<times> cstring list" where
  "rename_call e = (the (mp_ss e), [''SS_RENAME'', mp_old_path e, mp_new_path e, mp_old_flat e, mp_new_flat e])"

definition rollback_call :: "move_plan_entry \<Rightarrow> nat \<times> cstring list" where
  "rollback_call e = (the (mp_ss e), [''SS_RENAME'', mp_new_path e, mp_old_path e, mp_new_flat e, mp_old_flat e])"

text \<open>\<open>done_entries\<close> are the renames that succeeded, the last one first.  A failure with code 0 goes
  unnoticed, since the code tests \<open>error_code != 0\<close>.\<close>

fun move_calls :: "(nat \<Rightarrow> cstring list \<Rightarrow> ss_result) \<Rightarrow> move_plan_entry list \<Rightarrow> move_plan_entry list \<Rightarrow>
    (nat \<times> cstring list) list \<times> (int \<times> cstring) option" where
  "move_calls answer [] done_entries = ([], None)"
| "move_calls answer (e # plan) done_entries =
     (if mp_is_directory e then move_calls answer plan done_entries
      else case move_failure (answer (fst (rename_call e)) (snd (rename_call e))) of
        Some (code, detail) \<Rightarrow>
          if code \<noteq> 0 then (rename_call e # map rollback_call done_entries, Some (code, detail))
          else (let (calls, r) = move_calls answer plan (e # done_entries) in (rename_call e # calls, r))
      | None \<Rightarrow> (let (calls, r) = move_calls answer plan (e # done_entries) in (rename_call e # calls, r)))"

section \<open>The renames in the table\<close>

definition rename_entry :: "int \<Rightarrow> cstring \<Rightarrow> name_server \<Rightarrow> move_plan_entry \<Rightarrow> name_server" where
  "rename_entry now user ns e =
     (let (ns1, found) = file_lookup_locked ns (mp_old_path e) in
      case found of
        None \<Rightarrow> ns1
      | Some k \<Rightarrow>
          let new_name = bounded_copy MAX_FILENAME_LENGTH (mp_new_path e);
              ns2 = fst (file_index_remove_entry ns1 (mp_old_path e));
              ns3 = set_file k ((nm_files ns2 ! k)\<lparr>fm_name := new_name\<rparr>) ns2;
              ns4 = fst (file_index_insert ns3 new_name (int k));
              ns5 = file_cache_rename ns4 (mp_old_path e) (mp_new_path e) (int k) in
          set_file k ((nm_files ns5 ! k)\<lparr>fm_modified := now, fm_last_access := now,
            fm_last_modified_user := bounded_copy MAX_USERNAME_LENGTH user,
            fm_last_access_user := bounded_copy MAX_USERNAME_LENGTH user\<rparr>) ns5)"

section \<open>The handler\<close>

text \<open>The plan, the calls and the renames, once the source, the destination and the new root are known.\<close>

definition move_execute :: "(nat \<Rightarrow> cstring list \<Rightarrow> ss_result) \<Rightarrow> int \<Rightarrow> name_server \<Rightarrow> connection \<Rightarrow> cstring \<Rightarrow> bool \<Rightarrow>
    cstring \<Rightarrow> name_server \<times> ns_outputs" where
  "move_execute answer now ns cx src is_dir root =
     (let err = (\<lambda>st code text. (st, send_error_and_log (cx_fd cx) code text)); user = cx_username cx;
          (ns3, plan, problem) = move_plan ns user src is_dir root (nm_files ns) [];
          refs = move_refs plan; ns4 = acquire_all refs ns3 in
      case problem of
        Some (code, detail) \<Rightarrow> err (release_all refs ns4) code detail
      | None \<Rightarrow>
          if plan = [] then err (release_all refs ns4) ERR_INTERNAL_ERROR ''Move plan was empty.''
          else case snd (move_calls answer plan []) of
            Some (code, detail) \<Rightarrow>
              err (release_all refs ns4) code (if detail \<noteq> [] then detail else ''Move failed.'')
          | None \<Rightarrow>
              (ns_save_metadata (release_all refs (foldl (rename_entry now user) ns4 plan)),
               ns_simple_ok (cx_fd cx) ''Move completed.''))"

definition ns_move :: "(nat \<Rightarrow> cstring list \<Rightarrow> ss_result) \<Rightarrow> int \<Rightarrow> name_server \<Rightarrow> connection \<Rightarrow> cstring list \<Rightarrow>
    name_server \<times> ns_outputs" where
  "ns_move answer now ns cx f =
     (let err = (\<lambda>st code text. (st, send_error_and_log (cx_fd cx) code text)) in
      if length f < 3 then err ns ERR_INVALID_REQUEST ''Usage: MOVE <source> <destination_folder>''
      else if \<not> ns_validate_logical_path (f ! 1) then err ns ERR_INVALID_REQUEST ''Invalid source path.''
      else if cx_username cx = [] then err ns ERR_INTERNAL_ERROR ''Client identity unknown.''
      else case ns_normalize_destination MAX_FILENAME_LENGTH (f ! 2) of
        None \<Rightarrow> err ns ERR_INVALID_REQUEST ''Invalid destination folder.''
      | Some dest \<Rightarrow>
          let src = f ! 1; user = cx_username cx; (ns1, found) = file_lookup_locked ns src in
          case found of
            None \<Rightarrow> err ns1 ERR_FILE_NOT_FOUND ''Source path not found.''
          | Some k \<Rightarrow>
              let src_meta = nm_files ns1 ! k in
              if \<not> strncmp_eq MAX_USERNAME_LENGTH (fm_owner src_meta) user then
                err ns1 ERR_PERMISSION_DENIED ''Only the owner may move this entry.''
              else
                let (ns2, dest_found) = (if dest \<noteq> [] then file_lookup_locked ns1 dest else (ns1, None)) in
                if dest \<noteq> [] \<and> dest_found = None then err ns2 ERR_FILE_NOT_FOUND ''Destination folder not found.''
                else if dest \<noteq> [] \<and> \<not> fm_is_directory (nm_files ns2 ! the dest_found) then
                  err ns2 ERR_INVALID_REQUEST ''Destination is not a folder.''
                else case ns_split_parent_child MAX_FILENAME_LENGTH src of
                  None \<Rightarrow> err ns2 ERR_INVALID_REQUEST ''Unable to resolve source path.''
                | Some (parent, base) \<Rightarrow>
                    (case move_target dest base of
                       None \<Rightarrow> err ns2 ERR_INVALID_REQUEST ''Destination path too long.''
                     | Some root \<Rightarrow>
                         if root = src then err ns2 ERR_INVALID_REQUEST ''Source and destination are identical.''
                         else if fm_is_directory src_meta \<and> dest \<noteq> [] \<and> ns_is_descendant_path dest src then
                           err ns2 ERR_INVALID_REQUEST ''Cannot move a folder into its descendant.''
                         else move_execute answer now ns2 cx src (fm_is_directory src_meta) root))"

end
