(* ===== verification/NS_Sync.thy ===== *)
theory NS_Sync
  imports NS_Files
begin

text \<open>
  The connection of a storage server (\<open>run_ss_loop\<close> of \<open>name_server.c\<close>): the hand-over of a
  message to a waiting thread, the announcement of files after the handshake, the
  update of the counts after a write, and the loss of the connection.
\<close>

section \<open>The relay\<close>

text \<open>A message is handed to the thread that waits in \<open>storage_server_send_and_wait\<close>, whatever it says.\<close>

definition relay :: "cstring \<Rightarrow> ss_info \<Rightarrow> ss_info" where
  "relay raw s = s\<lparr>si_raw := Some raw, si_status := 0, si_ready := True, si_awaiting := False\<rparr>"

definition waits :: "name_server \<Rightarrow> nat option \<Rightarrow> bool" where
  "waits ns ss \<longleftrightarrow> (case ss of None \<Rightarrow> False
     | Some a \<Rightarrow> (case server_at ns a of None \<Rightarrow> False | Some s \<Rightarrow> si_awaiting s \<and> \<not> si_ready s))"

definition find_ss_entry :: "name_server \<Rightarrow> connection \<Rightarrow> connection" where
  "find_ss_entry ns cx = (case cx_ss_info cx of
       Some a \<Rightarrow> cx
     | None \<Rightarrow> (case find_storage_server_by_sockfd ns (cx_fd cx) of
           Some a \<Rightarrow> cx\<lparr>cx_ss_info := Some a\<rparr> | None \<Rightarrow> cx))"

section \<open>The announcement of files\<close>

definition reset_load :: "ss_info \<Rightarrow> ss_info" where
  "reset_load s = s\<lparr>si_total_bytes := 0, si_total_files := 0\<rparr>"

definition sync_start :: "name_server \<Rightarrow> connection \<Rightarrow> name_server" where
  "sync_start ns cx = (case cx_ss_info cx of None \<Rightarrow> ns | Some a \<Rightarrow> update_server a reset_load ns)"

definition numeric_field :: "cstring list \<Rightarrow> nat \<Rightarrow> int" where
  "numeric_field f i = (if length f \<ge> i + 1 then atoll (f ! i) else 0)"

text \<open>What an announcement writes into a file entry; the owner only when it names one.\<close>

definition announced :: "int \<Rightarrow> ss_info \<Rightarrow> cstring list \<Rightarrow> file_metadata \<Rightarrow> file_metadata" where
  "announced now s f m =
     m\<lparr>fm_owner := (if f ! 2 \<noteq> [] then bounded_copy MAX_USERNAME_LENGTH (f ! 2) else fm_owner m),
       fm_ss_ip := bounded_copy MAX_IP_LENGTH (si_client_ip s), fm_ss_port := si_client_port s, fm_modified := now,
       fm_size := numeric_field f 5, fm_word_count := numeric_field f 6, fm_char_count := numeric_field f 7,
       fm_read_users := file_acl_parse_csv (f ! 3), fm_write_users := file_acl_parse_csv (f ! 4)\<rparr>"

definition existing_file :: "name_server \<Rightarrow> cstring \<Rightarrow> nat option" where
  "existing_file ns fname = (case file_index_find ns fname of None \<Rightarrow> None
     | Some i \<Rightarrow> if 0 \<le> i \<and> i < int (length (nm_files ns)) then Some (nat i) else None)"

definition record_file :: "int \<Rightarrow> name_server \<Rightarrow> int \<Rightarrow> ss_info \<Rightarrow> cstring list \<Rightarrow> name_server \<times> ns_outputs" where
  "record_file now ns fd s f =
     (case existing_file ns (f ! 1) of
        Some i \<Rightarrow> (file_cache_store (set_file i (announced now s f (nm_files ns ! i)) ns) (f ! 1) (int i), [])
      | None \<Rightarrow>
          if length (nm_files ns) \<ge> NS_MAX_FILES then
            (ns, send_error_and_log fd ERR_INTERNAL_ERROR ''Maximum file limit reached.'')
          else
            (enter_file ns ((announced now s f (zero_metadata\<lparr>fm_name := bounded_copy MAX_FILENAME_LENGTH (f ! 1)\<rparr>))
               \<lparr>fm_created := now\<rparr>) (f ! 1), []))"

definition ss_has_file :: "int \<Rightarrow> name_server \<Rightarrow> connection \<Rightarrow> cstring list \<Rightarrow> name_server \<times> connection \<times> ns_outputs" where
  "ss_has_file now ns cx f =
     (let fd = cx_fd cx in
      if length f < 5 then (ns, cx, send_error_and_log fd ERR_INVALID_REQUEST ''Incomplete SS_HAS_FILE message.'')
      else if \<not> validate_filename (f ! 1) then
        (ns, cx, send_error_and_log fd ERR_INVALID_REQUEST ''Invalid filename received from storage server.'')
      else if f ! 2 \<noteq> [] \<and> \<not> validate_username (f ! 2) then
        (ns, cx, send_error_and_log fd ERR_INVALID_REQUEST ''Invalid owner received from storage server.'')
      else
        let cx1 = find_ss_entry ns cx;
            ns1 = (if cx_ss_info cx = None then sync_start ns cx1 else ns) in
        case cx_ss_info cx1 of
          None \<Rightarrow> (ns1, cx1, send_error_and_log fd ERR_INTERNAL_ERROR ''Unknown storage server during file sync.'')
        | Some a \<Rightarrow> (case server_at ns1 a of
            None \<Rightarrow> (ns1, cx1, [])
          | Some s \<Rightarrow> (let (ns2, outs) = record_file now ns1 fd s f in (ns2, cx1, outs))))"

text \<open>One message of the first loop; the flag is set when the loop ends.\<close>

definition sync_message :: "int \<Rightarrow> name_server \<Rightarrow> connection \<Rightarrow> cstring \<Rightarrow> name_server \<times> connection \<times> ns_outputs \<times> bool" where
  "sync_message now ns cx0 raw =
     (let cx = find_ss_entry ns cx0 in
      if waits ns (cx_ss_info cx) then (update_server (the (cx_ss_info cx)) (relay raw) ns, cx, [], False)
      else
        let f = msg_fields (protocol_parse_message raw) in
        if f ! 0 = ''SS_HAS_FILE'' then (let (ns1, cx1, outs) = ss_has_file now ns cx f in (ns1, cx1, outs, False))
        else if f ! 0 = ''SS_FILES_DONE'' then
          (case cx_ss_info cx of None \<Rightarrow> ns | Some a \<Rightarrow> recalculate_load a ns, cx, [], True)
        else (ns, cx, send_error_and_log (cx_fd cx) ERR_INVALID_REQUEST ''Unknown storage server sync command.'', False))"

section \<open>After the announcement\<close>

definition apply_delta :: "file_metadata \<Rightarrow> int \<Rightarrow> ss_info \<Rightarrow> ss_info" where
  "apply_delta m delta s = (if on_server s m then s\<lparr>si_total_bytes := max 0 (si_total_bytes s + delta)\<rparr> else s)"

definition write_complete :: "int \<Rightarrow> name_server \<Rightarrow> nat option \<Rightarrow> cstring list \<Rightarrow> name_server" where
  "write_complete now ns ss f =
     (if length f < 5 then ns
      else case existing_file ns (f ! 1) of
        None \<Rightarrow> ns
      | Some i \<Rightarrow>
          let m = nm_files ns ! i;
              m1 = m\<lparr>fm_size := atoll (f ! 2), fm_word_count := atoll (f ! 3), fm_char_count := atoll (f ! 4),
                     fm_modified := now\<rparr>;
              ns1 = file_cache_store (set_file i m1 ns) (f ! 1) (int i) in
          ns_save_metadata (case ss of None \<Rightarrow> ns1 | Some a \<Rightarrow> update_server a (apply_delta m1 (atoll (f ! 2) - fm_size m)) ns1))"

definition command_message :: "int \<Rightarrow> name_server \<Rightarrow> connection \<Rightarrow> cstring \<Rightarrow> name_server \<times> connection" where
  "command_message now ns cx0 raw =
     (let cx = find_ss_entry ns cx0 in
      if waits ns (cx_ss_info cx) then (update_server (the (cx_ss_info cx)) (relay raw) ns, cx)
      else
        let f = msg_fields (protocol_parse_message raw) in
        if f ! 0 = ''WRITE_COMPLETE'' then (write_complete now ns (cx_ss_info cx) f, cx) else (ns, cx))"

text \<open>The end of the connection in either loop, up to the return to \<open>connection_thread\<close>.\<close>

definition ss_connection_lost :: "name_server \<Rightarrow> connection \<Rightarrow> name_server" where
  "ss_connection_lost ns cx = (case cx_ss_info cx of None \<Rightarrow> ns
     | Some a \<Rightarrow> update_server a storage_server_signal_failure ns)"

end
