(* ===== verification/NS_Invariant.thy ===== *)
theory NS_Invariant
  imports NS_Moves NS_Sync
begin

text \<open>
  The invariant of the name server and its preservation by every handler: the index, the
  cache and the table agree, the rights of every file are well formed, addresses,
  user names and request numbers are unique, and no array overflows.
\<close>

section \<open>The invariant\<close>

definition requests_ok :: "name_server \<Rightarrow> bool" where
  "requests_ok ns \<longleftrightarrow> distinct (map ar_id (nm_requests ns)) \<and> list_all (\<lambda>i. i < nm_next_request ns) (map ar_id (nm_requests ns)) \<and>
     length (nm_requests ns) \<le> NS_MAX_ACCESS_REQUESTS \<and> list_all (\<lambda>q. user_ok (ar_from q)) (nm_requests ns)"

definition files_ok :: "name_server \<Rightarrow> bool" where
  "files_ok ns \<longleftrightarrow> table_ok ns \<and> list_all rights_ok (nm_files ns) \<and> length (nm_files ns) \<le> NS_MAX_FILES"

definition ns_inv :: "name_server \<Rightarrow> bool" where
  "ns_inv ns \<longleftrightarrow> files_ok ns \<and> registry_ok ns \<and> requests_ok ns"

lemma table_ok_cong:
  "nm_files ns' = nm_files ns \<Longrightarrow> nm_index ns' = nm_index ns \<Longrightarrow> nm_cache ns' = nm_cache ns \<Longrightarrow> table_ok ns' = table_ok ns"
  by (simp add: table_ok_def file_names_def)

lemma files_ok_frame [simp]:
  "files_ok (ns\<lparr>nm_servers := a\<rparr>) = files_ok ns" "files_ok (ns\<lparr>nm_clients := b\<rparr>) = files_ok ns"
  "files_ok (ns\<lparr>nm_requests := c\<rparr>) = files_ok ns" "files_ok (ns\<lparr>nm_next_request := d\<rparr>) = files_ok ns"
  "files_ok (ns\<lparr>nm_disk := e\<rparr>) = files_ok ns" "files_ok (ns\<lparr>nm_round_robin := g\<rparr>) = files_ok ns"
  "files_ok (ns\<lparr>nm_next_addr := h\<rparr>) = files_ok ns" "files_ok (ns\<lparr>nm_tick := i\<rparr>) = files_ok ns"
  by (simp_all add: files_ok_def table_ok_def file_names_def)

lemma registry_ok_frame [simp]:
  "registry_ok (ns\<lparr>nm_files := a\<rparr>) = registry_ok ns" "registry_ok (ns\<lparr>nm_index := b\<rparr>) = registry_ok ns"
  "registry_ok (ns\<lparr>nm_cache := c\<rparr>) = registry_ok ns" "registry_ok (ns\<lparr>nm_tick := d\<rparr>) = registry_ok ns"
  "registry_ok (ns\<lparr>nm_requests := e\<rparr>) = registry_ok ns" "registry_ok (ns\<lparr>nm_next_request := g\<rparr>) = registry_ok ns"
  "registry_ok (ns\<lparr>nm_disk := h\<rparr>) = registry_ok ns" "registry_ok (ns\<lparr>nm_round_robin := i\<rparr>) = registry_ok ns"
  by (simp_all add: registry_ok_def)

lemma requests_ok_frame [simp]:
  "requests_ok (ns\<lparr>nm_files := a\<rparr>) = requests_ok ns" "requests_ok (ns\<lparr>nm_index := b\<rparr>) = requests_ok ns"
  "requests_ok (ns\<lparr>nm_cache := c\<rparr>) = requests_ok ns" "requests_ok (ns\<lparr>nm_tick := d\<rparr>) = requests_ok ns"
  "requests_ok (ns\<lparr>nm_servers := e\<rparr>) = requests_ok ns" "requests_ok (ns\<lparr>nm_clients := g\<rparr>) = requests_ok ns"
  "requests_ok (ns\<lparr>nm_disk := h\<rparr>) = requests_ok ns" "requests_ok (ns\<lparr>nm_round_robin := i\<rparr>) = requests_ok ns"
  "requests_ok (ns\<lparr>nm_next_addr := j\<rparr>) = requests_ok ns"
  by (simp_all add: requests_ok_def)

section \<open>Primitive steps\<close>

text \<open>What a lookup and a cache store leave alone.\<close>

lemma cache_store_frame:
  "\<exists>c t. file_cache_store ns f i = ns\<lparr>nm_cache := c, nm_tick := t\<rparr>"
  by (cases ns) (auto simp: file_cache_store_def split: option.split)

lemma lookup_frame: "\<exists>c t. fst (file_lookup_locked ns f) = ns\<lparr>nm_cache := c, nm_tick := t\<rparr>"
proof -
  obtain c t where 1: "fst (file_cache_lookup ns f) = ns\<lparr>nm_cache := c, nm_tick := t\<rparr>"
    by (simp add: file_cache_lookup_def case_prod_beta)
  show ?thesis
    using 1 cache_store_frame [of "fst (file_cache_lookup ns f)" f]
    by (fastforce simp: file_lookup_locked_def Let_def case_prod_beta split: option.split)
qed

lemma lookup_inv:
  assumes "file_lookup_locked ns f = (ns1, r)" "ns_inv ns"
  shows "ns_inv ns1" "r = first_index (\<lambda>m. fm_name m = f) (nm_files ns)"
    "r = Some k \<Longrightarrow> k < length (nm_files ns) \<and> fm_name (nm_files ns ! k) = f"
proof -
  obtain c t where fr: "ns1 = ns\<lparr>nm_cache := c, nm_tick := t\<rparr>"
    using lookup_frame [of ns f] assms(1) by auto
  have spec: "table_ok ns1 \<and> nm_files ns1 = nm_files ns \<and> r = first_index (\<lambda>m. fm_name m = f) (nm_files ns)"
    using file_lookup_spec [of ns f] assms by (simp add: ns_inv_def files_ok_def)
  then show "ns_inv ns1" "r = first_index (\<lambda>m. fm_name m = f) (nm_files ns)"
    using assms(2) fr by (simp_all add: ns_inv_def files_ok_def)
  then show "r = Some k \<Longrightarrow> k < length (nm_files ns) \<and> fm_name (nm_files ns ! k) = f"
    using first_index_bound [of "\<lambda>m. fm_name m = f" "nm_files ns" k] by simp
qed

lemma lookup_same:
  assumes "file_lookup_locked ns f = (ns1, r)"
  shows "nm_files ns1 = nm_files ns" "nm_servers ns1 = nm_servers ns" "nm_clients ns1 = nm_clients ns"
    "nm_requests ns1 = nm_requests ns" "nm_next_request ns1 = nm_next_request ns" "nm_disk ns1 = nm_disk ns"
    "nm_index ns1 = nm_index ns" "nm_round_robin ns1 = nm_round_robin ns" "nm_next_addr ns1 = nm_next_addr ns"
  using lookup_frame [of ns f] assms by auto

lemma update_server_frame [simp]:
  "nm_files (update_server a g ns) = nm_files ns" "nm_requests (update_server a g ns) = nm_requests ns"
  "nm_next_request (update_server a g ns) = nm_next_request ns" "nm_disk (update_server a g ns) = nm_disk ns"
  "nm_index (update_server a g ns) = nm_index ns" "nm_cache (update_server a g ns) = nm_cache ns"
  by (simp_all add: update_server_def)

lemma inv_update_server:
  "ns_inv ns \<Longrightarrow> (\<And>s. si_addr (g s) = si_addr s) \<Longrightarrow> ns_inv (update_server a g ns)"
  using registry_ok_update_server [of ns g a] by (simp add: ns_inv_def update_server_def)

lemma server_steps [simp]:
  "si_addr (storage_server_acquire s) = si_addr s" "si_addr (storage_server_release s) = si_addr s"
  "si_addr (storage_server_signal_failure s) = si_addr s" "si_addr (relay raw s) = si_addr s"
  "si_addr (reset_load s) = si_addr s" "si_addr (forget_load n s) = si_addr s" "si_addr (apply_delta m d s) = si_addr s"
  "si_addr (ns_recalculate_server_load_locked ns s) = si_addr s"
  by (simp_all add: storage_server_acquire_def storage_server_release_def storage_server_signal_failure_def relay_def
      reset_load_def forget_load_def apply_delta_def ns_recalculate_server_load_locked_def Let_def split: prod.split)

lemma inv_acquire: "ns_inv ns \<Longrightarrow> acquire_server ns m = (ns1, t) \<Longrightarrow> ns_inv ns1"
  by (auto simp: acquire_server_def inv_update_server split: option.splits)

lemma inv_acquire_one [simp]: "ns_inv ns \<Longrightarrow> ns_inv (update_server a storage_server_acquire ns)"
  by (simp add: inv_update_server)

lemma acquire_same:
  "acquire_server ns m = (ns1, t) \<Longrightarrow> nm_files ns1 = nm_files ns \<and> nm_requests ns1 = nm_requests ns \<and> nm_disk ns1 = nm_disk ns"
  by (auto simp: acquire_server_def split: option.splits)

lemma inv_release: "ns_inv ns \<Longrightarrow> ns_inv (release_server t ns)"
  by (simp add: release_server_def inv_update_server split: option.split)

lemma release_same [simp]:
  "nm_files (release_server t ns) = nm_files ns" "nm_requests (release_server t ns) = nm_requests ns"
  "nm_disk (release_server t ns) = nm_disk ns"
  by (simp_all add: release_server_def split: option.split)

lemma inv_save: "ns_inv ns \<Longrightarrow> ns_inv (ns_save_metadata ns)"
  by (simp add: ns_save_metadata_def ns_inv_def split: option.split)

lemma save_same [simp]:
  "nm_files (ns_save_metadata ns) = nm_files ns" "nm_requests (ns_save_metadata ns) = nm_requests ns"
  "nm_servers (ns_save_metadata ns) = nm_servers ns"
  by (simp_all add: ns_save_metadata_def split: option.split)

lemma inv_set_file:
  assumes "ns_inv ns" "k < length (nm_files ns)" "fm_name m = fm_name (nm_files ns ! k)" "rights_ok m"
  shows "ns_inv (set_file k m ns)"
  using assms table_ok_update [of ns k m] by (simp add: ns_inv_def files_ok_def set_file_def list_all_update)

lemma file_rights: "ns_inv ns \<Longrightarrow> k < length (nm_files ns) \<Longrightarrow> rights_ok (nm_files ns ! k)"
  by (simp add: ns_inv_def files_ok_def list_all_length)

lemma inv_modify_file:
  assumes "ns_inv ns" "\<And>m. rights_ok m \<Longrightarrow> rights_ok (g m) \<and> fm_name (g m) = fm_name m"
  shows "ns_inv (modify_file k g ns)"
  using assms inv_set_file [of ns k "g (nm_files ns ! k)"] file_rights [of ns k] by (simp add: modify_file_def)

lemma inv_cache_store:
  assumes "ns_inv ns" "k < length (nm_files ns)" "fm_name (nm_files ns ! k) = f"
  shows "ns_inv (file_cache_store ns f (int k))"
proof -
  obtain c t where "file_cache_store ns f (int k) = ns\<lparr>nm_cache := c, nm_tick := t\<rparr>"
    using cache_store_frame by blast
  then show ?thesis
    using assms cache_store_ok [of ns k f] by (auto simp: ns_inv_def files_ok_def)
qed

lemma cache_store_same [simp]:
  "nm_files (file_cache_store ns f i) = nm_files ns" "nm_requests (file_cache_store ns f i) = nm_requests ns"
  "nm_servers (file_cache_store ns f i) = nm_servers ns" "nm_disk (file_cache_store ns f i) = nm_disk ns"
  using cache_store_frame [of ns f i] by auto

lemma inv_enter_file:
  assumes "ns_inv ns" "fm_name m = f" "f \<notin> set (file_names ns)" "name_ok f" "rights_ok m"
    "length (nm_files ns) < NS_MAX_FILES"
  shows "ns_inv (enter_file ns m f)" "nm_files (enter_file ns m f) = nm_files ns @ [m]"
proof -
  let ?ns = "fst (file_index_insert (ns\<lparr>nm_files := nm_files ns @ [m]\<rparr>) f (int (length (nm_files ns))))"
  have eq: "?ns = ns\<lparr>nm_files := nm_files ns @ [m], nm_index := index_insert (nm_index ns) f (int (length (nm_files ns)))\<rparr>"
    by (cases ns) (simp add: file_index_insert_def)
  have "ns_inv ?ns"
    using assms table_ok_append [of ns m] unfolding eq by (simp add: ns_inv_def files_ok_def)
  then show "ns_inv (enter_file ns m f)" "nm_files (enter_file ns m f) = nm_files ns @ [m]"
    using inv_cache_store [of ?ns "length (nm_files ns)" f] assms(2) by (simp_all add: enter_file_def Let_def eq)
qed

lemma enter_file_same:
  "nm_requests (enter_file ns m f) = nm_requests ns" "nm_servers (enter_file ns m f) = nm_servers ns"
  by (simp_all add: enter_file_def Let_def file_index_insert_def)

lemma remove_frame:
  "\<exists>fs i c. fst (remove_file_metadata_locked ns f) = ns\<lparr>nm_files := fs, nm_index := i, nm_cache := c\<rparr>"
  by (cases ns) (auto simp: remove_file_metadata_locked_def Let_def split: option.split)

lemma inv_remove:
  assumes "ns_inv ns"
  shows "ns_inv (fst (remove_file_metadata_locked ns f))"
    "set (nm_files (fst (remove_file_metadata_locked ns f))) = {m\<in>set (nm_files ns). fm_name m \<noteq> f}"
proof -
  let ?ns = "fst (remove_file_metadata_locked ns f)"
  have ok: "table_ok ns" "distinct (file_names ns)" and r: "list_all rights_ok (nm_files ns)" "length (nm_files ns) \<le> NS_MAX_FILES"
    using assms by (simp_all add: ns_inv_def files_ok_def table_okD)
  note spec = remove_spec [OF ok(1), of f]
  have "list_all rights_ok (nm_files ?ns) \<and> length (nm_files ?ns) \<le> NS_MAX_FILES \<and>
      set (nm_files ?ns) = {m\<in>set (nm_files ns). fm_name m \<noteq> f}"
  proof (cases "first_index (\<lambda>m. fm_name m = f) (nm_files ns)")
    case None
    then have "remove_file_metadata_locked ns f = (ns, False)"
      using spec by simp
    then show ?thesis
      using None r by (auto simp: first_index_None)
  next
    case (Some k)
    then have k: "k < length (nm_files ns)" "fm_name (nm_files ns ! k) = f" and fs: "nm_files ?ns = swap_remove k (nm_files ns)"
      using spec first_index_bound [OF Some] by simp_all
    have d: "distinct (nm_files ns)" and inj: "inj_on fm_name (set (nm_files ns))"
      using ok(2) by (simp_all add: file_names_def distinct_map)
    have uniq: "m = nm_files ns ! k" if "m \<in> set (nm_files ns)" "fm_name m = f" for m
      using that k by (intro inj_onD [OF inj]) simp_all
    have "set (swap_remove k (nm_files ns)) = set (nm_files ns) - {nm_files ns ! k}"
      by (rule swap_remove_set(1) [OF k(1) d])
    also have "\<dots> = {m\<in>set (nm_files ns). fm_name m \<noteq> f}"
      using uniq k by blast
    finally have st: "set (swap_remove k (nm_files ns)) = {m\<in>set (nm_files ns). fm_name m \<noteq> f}" .
    have "\<forall>m\<in>set (swap_remove k (nm_files ns)). rights_ok m"
      unfolding st using r(1) by (simp add: list_all_iff)
    then show ?thesis
      unfolding fs using st r(2) by (simp add: list_all_iff)
  qed
  moreover have "table_ok ?ns"
    using spec by blast
  moreover obtain fs i c where "?ns = ns\<lparr>nm_files := fs, nm_index := i, nm_cache := c\<rparr>"
    using remove_frame by blast
  ultimately show "ns_inv ?ns" "set (nm_files ?ns) = {m\<in>set (nm_files ns). fm_name m \<noteq> f}"
    using assms by (auto simp: ns_inv_def files_ok_def)
qed

section \<open>Every handler keeps the invariant\<close>

lemma inv_info: "ns_inv ns \<Longrightarrow> ns_info ft ns cx f = (ns', outs) \<Longrightarrow> ns_inv ns'"
  by (auto simp: ns_info_def Let_def split: if_splits prod.splits option.splits dest: lookup_inv(1))

lemma inv_view_folder: "ns_inv ns \<Longrightarrow> ns_view_folder ns cx f = (ns', outs) \<Longrightarrow> ns_inv ns'"
  by (auto simp: ns_view_folder_def Let_def split: if_splits prod.splits option.splits dest: lookup_inv(1))

lemma stamp_same [simp]:
  "fm_name (stamp_access now oper u m) = fm_name m" "fm_owner (stamp_access now oper u m) = fm_owner m"
  "fm_read_users (stamp_access now oper u m) = fm_read_users m" "fm_write_users (stamp_access now oper u m) = fm_write_users m"
  "rights_ok (stamp_access now oper u m) = rights_ok m"
  by (simp_all add: stamp_access_def rights_ok_def Let_def)

lemma inv_req_loc:
  assumes "ns_inv ns" "ns_req_loc now ns cx f = (ns', outs)"
  shows "ns_inv ns'"
proof -
  have step: "ns_inv (ns_save_metadata (file_cache_store (set_file k (stamp_access now oper u (nm_files ns1 ! k)) ns1) fn (int k)))"
    if "file_lookup_locked ns fn = (ns1, Some k)" for ns1 k oper u fn
  proof -
    have k: "k < length (nm_files ns1)" "fm_name (nm_files ns1 ! k) = fn" "ns_inv ns1"
      using lookup_inv [OF that assms(1)] lookup_same [OF that] by simp_all
    have 1: "ns_inv (set_file k (stamp_access now oper u (nm_files ns1 ! k)) ns1)"
      using k file_rights [OF k(3,1)] by (intro inv_set_file) simp_all
    show ?thesis
      using k inv_cache_store [OF 1, of k fn] by (intro inv_save) (simp add: set_file_def)
  qed
  show ?thesis
    using assms step [unfolded set_file_def]
    by (auto simp: ns_req_loc_def Let_def split: if_splits prod.splits option.splits bool.splits dest: lookup_inv(1))
qed

lemma inv_set_pending: "ns_inv ns \<Longrightarrow> i < length (nm_requests ns) \<Longrightarrow> ns_inv (set_pending i b ns)"
  using list_update_id [of "map ar_id (nm_requests ns)" i]
  by (auto simp: ns_inv_def set_pending_def requests_ok_def map_update intro!: list_all_update) (simp add: list_all_length)

lemma inv_request_access:
  assumes "ns_inv ns" "ns_request_access ns cx f = (ns', outs)"
  shows "ns_inv ns'"
proof -
  have add: "ns_inv (ns1\<lparr>nm_requests := nm_requests ns1 @ [q], nm_next_request := nm_next_request ns1 + 1\<rparr>)"
    if "ns_inv ns1" "length (nm_requests ns1) < NS_MAX_ACCESS_REQUESTS" "ar_id q = nm_next_request ns1" "user_ok (ar_from q)" for ns1 q
    using that by (auto simp: ns_inv_def requests_ok_def list_all_iff)
  have u: "user_ok (bounded_copy MAX_USERNAME_LENGTH u)" for u
    by (simp add: length_bounded_copy MAX_USERNAME_LENGTH_def)
  show ?thesis
    using assms by (auto simp: ns_request_access_def Let_def u not_le intro!: add
        split: if_splits prod.splits option.splits dest: lookup_inv(1))
qed

lemma inv_reject: "ns_inv ns \<Longrightarrow> ns_reject ns cx f = (ns', outs) \<Longrightarrow> ns_inv ns'"
  by (auto simp: ns_reject_def inv_set_pending split: if_splits option.splits dest: first_index_bound)

text \<open>A step that changes the rights of the file that a lookup found.\<close>

lemma inv_lookup_set:
  assumes "ns_inv ns" "file_lookup_locked ns f = (ns1, Some k)" "fm_name m = fm_name (nm_files ns1 ! k)"
    "rights_ok (nm_files ns1 ! k) \<Longrightarrow> rights_ok m"
  shows "ns_inv (set_file k m ns1)"
  using lookup_inv [OF assms(2,1)] lookup_same(1) [OF assms(2)] assms(3,4) file_rights [of ns1 k]
  by (intro inv_set_file) simp_all

lemma username_ok: "validate_username u \<Longrightarrow> user_ok u"
  by (simp add: validate_username_def split: if_splits)

lemma inv_grant:
  assumes "ns_inv ns" "file_lookup_locked ns f = (ns1, Some k)" 
    "file_add_access (nm_files ns1 ! k) u r w = (m1, rc)" "validate_username u"
  shows "ns_inv (set_file k m1 ns1)"
  using inv_lookup_set [OF assms(1,2), of m1] add_access_rights [OF _ username_ok [OF assms(4)], of "nm_files ns1 ! k" r w]
    add_access_same [of "nm_files ns1 ! k" u r w] assms(3) by simp

lemma inv_revoke:
  assumes "ns_inv ns" "file_lookup_locked ns f = (ns1, Some k)" 
    "file_remove_access (nm_files ns1 ! k) u = (m1, rc)" "validate_username u"
  shows "ns_inv (set_file k m1 ns1)"
  using inv_lookup_set [OF assms(1,2), of m1] remove_access_rights [OF _ username_ok [OF assms(4)], of "nm_files ns1 ! k"]
    remove_access_same [of "nm_files ns1 ! k" u] assms(3) by simp

text \<open>The state with which the first phase of a handler ends.\<close>

definition begin_state :: "ns_begin \<Rightarrow> name_server" where
  "begin_state b = (case b of Inl (ns, outs) \<Rightarrow> ns | Inr (ns, p) \<Rightarrow> ns)"

lemma begin_state_simps [simp]: "begin_state (Inl (ns, outs)) = ns" "begin_state (Inr (ns, p)) = ns"
  by (simp_all add: begin_state_def)

lemma inv_add_begin:
  assumes "ns_inv ns"
  shows "ns_inv (begin_state (ns_add_access_begin ns cx f))"
  using assms
  by (auto simp: ns_add_access_begin_def Let_def username_ok split: prod.split option.split
      intro: lookup_inv(1) inv_grant [OF assms] inv_acquire [OF inv_grant [OF assms]])

lemma inv_rem_begin:
  assumes "ns_inv ns"
  shows "ns_inv (begin_state (ns_rem_access_begin ns cx f))"
  using assms
  by (auto simp: ns_rem_access_begin_def Let_def username_ok split: prod.split option.split
      intro: lookup_inv(1) inv_revoke [OF assms] inv_acquire [OF inv_revoke [OF assms]])

lemma inv_add_finish:
  "ns_inv ns \<Longrightarrow> user_ok (pd_fields p ! 2) \<Longrightarrow> ns_inv (fst (ns_add_access_finish ns p r))"
  by (auto simp: ns_add_access_finish_def Let_def remove_access_rights split: option.split
      intro: inv_save inv_release inv_modify_file)

lemma inv_rem_finish:
  "ns_inv ns \<Longrightarrow> user_ok (pd_fields p ! 2) \<Longrightarrow> ns_inv (fst (ns_rem_access_finish ns p r))"
  by (auto simp: ns_rem_access_finish_def Let_def add_access_rights split: option.split
      intro: inv_save inv_release inv_modify_file)

lemma request_user_ok: "ns_inv ns \<Longrightarrow> i < length (nm_requests ns) \<Longrightarrow> user_ok (ar_from (nm_requests ns ! i))"
  by (simp add: ns_inv_def requests_ok_def list_all_length)

lemma set_pending_same [simp]:
  "nm_files (set_pending i b ns) = nm_files ns" "nm_servers (set_pending i b ns) = nm_servers ns"
  "length (nm_requests (set_pending i b ns)) = length (nm_requests ns)"
  by (simp_all add: set_pending_def)

lemma set_file_same [simp]:
  "nm_requests (set_file k m ns) = nm_requests ns" "nm_servers (set_file k m ns) = nm_servers ns"
  "length (nm_files (set_file k m ns)) = length (nm_files ns)"
  by (simp_all add: set_file_def)

lemma inv_approve_begin:
  assumes "ns_inv ns"
  shows "ns_inv (begin_state (ns_approve_begin ns cx f))"
proof -
  have step: "ns_inv (fst (acquire_server (set_pending i False (set_file k m1 ns1)) m1))"
    if "file_lookup_locked ns fn = (ns1, Some k)" "i < length (nm_requests ns)"
      "m1 = fst (file_add_access (nm_files ns1 ! k) (ar_from (nm_requests ns ! i)) r w)" for ns1 k i m1 fn r w
  proof -
    have "ns_inv (set_file k m1 ns1)"
      using inv_lookup_set [OF assms that(1), of m1] add_access_rights [OF _ request_user_ok [OF assms that(2)]] that(3) by simp
    then have "ns_inv (set_pending i False (set_file k m1 ns1))"
      using that(2) lookup_same(4) [OF that(1)] by (intro inv_set_pending) simp_all
    then show ?thesis
      using inv_acquire by (metis prod.collapse)
  qed
  show ?thesis
  proof (cases "2 \<le> length f \<and> first_index (\<lambda>q. ar_id q = atoi (f ! 1)) (nm_requests ns) \<noteq> None")
    case True
    then obtain i where i: "first_index (\<lambda>q. ar_id q = atoi (f ! 1)) (nm_requests ns) = Some i" "i < length (nm_requests ns)"
      using first_index_bound by fastforce
    obtain ns1 r where look: "file_lookup_locked ns (ar_file (nm_requests ns ! i)) = (ns1, r)"
      by fastforce
    show ?thesis
    proof (cases r)
      case None
      then show ?thesis
        using i look assms lookup_inv(1) [OF look] by (simp add: ns_approve_begin_def Let_def)
    next
      case (Some k)
      then show ?thesis
        using i look assms step [OF look [unfolded Some] i(2) refl, of "ar_read (nm_requests ns ! i)" "ar_write (nm_requests ns ! i)"]
        by (simp add: ns_approve_begin_def Let_def case_prod_beta)
    qed
  next
    case False
    then show ?thesis
      using assms by (auto simp: ns_approve_begin_def Let_def)
  qed
qed

lemma inv_approve_finish:
  assumes "ns_inv ns" "pd_request p < length (nm_requests ns)"
  shows "ns_inv (fst (ns_approve_finish ns p r))"
proof -
  let ?g = "\<lambda>m. fst (file_remove_access m (ar_from (nm_requests ns ! pd_request p)))"
  have "ns_inv (modify_file (pd_index p) ?g ns)"
    using request_user_ok [OF assms] by (intro inv_modify_file [OF assms(1)]) (simp add: remove_access_rights)
  moreover have "nm_requests (modify_file (pd_index p) ?g ns) = nm_requests ns"
    by (simp add: modify_file_def)
  ultimately have "ns_inv (set_pending (pd_request p) True (modify_file (pd_index p) ?g ns))"
    using assms(2) by (intro inv_set_pending) simp_all
  then show ?thesis
    using assms(1) inv_release by (auto simp: ns_approve_finish_def Let_def split: option.split)
qed

section \<open>New entries, copies and programs\<close>

lemma new_entry_ok [simp]:
  "rights_ok (new_entry now f u)" "rights_ok (new_file now f u s)"
  "fm_name (new_entry now f u) = bounded_copy MAX_FILENAME_LENGTH f" "fm_name (new_file now f u s) = bounded_copy MAX_FILENAME_LENGTH f"
  by (simp_all add: new_entry_def new_file_def rights_ok_def zero_metadata_def)

lemma rights_ok_directory [simp]: "rights_ok (m\<lparr>fm_is_directory := b\<rparr>) = rights_ok m"
  by (simp add: rights_ok_def)

lemma filename_name_ok: "validate_filename f \<Longrightarrow> name_ok f \<and> bounded_copy MAX_FILENAME_LENGTH f = f"
  by (auto simp: validate_filename_def name_ok_def bounded_copy_id MAX_FILENAME_LENGTH_def split: if_splits)

lemma select_frame:
  assumes "ns_select_storage_server_balanced ns = (ns', r)"
  shows "ns_inv ns \<Longrightarrow> ns_inv ns'" "nm_files ns' = nm_files ns" "nm_requests ns' = nm_requests ns"
proof -
  obtain servers i where ns': "ns' = ns\<lparr>nm_servers := servers, nm_round_robin := i\<rparr>" "map si_addr servers = map si_addr (nm_servers ns)"
    using select_spec(2) [OF assms] by blast
  then show "nm_files ns' = nm_files ns" "nm_requests ns' = nm_requests ns"
    by simp_all
  assume "ns_inv ns"
  then show "ns_inv ns'"
    using ns' registry_ok_servers [of ns servers] by (simp add: ns_inv_def)
qed

lemma lookup_fresh:
  assumes "ns_inv ns" "file_lookup_locked ns f = (ns1, None)"
  shows "f \<notin> set (file_names ns)"
  using lookup_inv(2) [OF assms(2,1), symmetric] by (auto simp: file_names_def first_index_None)

lemma inv_create_begin:
  assumes "ns_inv ns"
  shows "ns_inv (begin_state (ns_create_begin now ns cx f))"
proof -
  have step: "ns_inv (enter_file (update_server a storage_server_acquire ns2) (new_file now (f ! 1) u s) (f ! 1))"
    if "file_lookup_locked ns (f ! 1) = (ns1, None)" "ns_select_storage_server_balanced ns1 = (ns2, Some a)"
      "validate_filename (f ! 1)" "length (nm_files ns) < NS_MAX_FILES" for ns1 ns2 a s u
  proof (rule inv_enter_file)
    have "ns_inv ns2"
      using lookup_inv(1) [OF that(1) assms] select_frame(1) [OF that(2)] by simp
    then show "ns_inv (update_server a storage_server_acquire ns2)"
      by (simp add: inv_update_server)
    show "f ! 1 \<notin> set (file_names (update_server a storage_server_acquire ns2))"
      using lookup_fresh [OF assms that(1)] lookup_same(1) [OF that(1)] select_frame(2) [OF that(2)] by (simp add: file_names_def)
    show "length (nm_files (update_server a storage_server_acquire ns2)) < NS_MAX_FILES"
      using that(4) lookup_same(1) [OF that(1)] select_frame(2) [OF that(2)] by simp
  qed (use filename_name_ok [OF that(3)] in simp_all)
  show ?thesis
    using assms step select_frame(1) lookup_inv(1)
    by (auto simp: ns_create_begin_def Let_def not_le split: prod.split option.split)
qed

lemma inv_create_finish:
  assumes "ns_inv ns"
  shows "ns_inv (fst (ns_create_finish ns p r))"
proof -
  have "ns_inv (update_server a (\<lambda>s. s\<lparr>si_total_files := si_total_files s + 1\<rparr>) ns)" for a
    using assms by (intro inv_update_server) simp_all
  then show ?thesis
    using assms inv_remove(1) [OF assms]
    by (auto simp: ns_create_finish_def Let_def inv_save inv_release split: option.split)
qed

lemma inv_create_folder:
  assumes "ns_inv ns"
  shows "ns_inv (fst (ns_create_folder now ns cx f))"
proof -
  have step: "ns_inv (enter_file ns2 ((new_entry now (f ! 1) u)\<lparr>fm_is_directory := True\<rparr>) (f ! 1))"
    if "file_lookup_locked ns (f ! 1) = (ns1, None)" "nm_files ns2 = nm_files ns1" "ns_inv ns2"
      "ns_validate_logical_path (f ! 1)" "length (nm_files ns) < NS_MAX_FILES" for ns1 ns2 u
  proof (rule inv_enter_file [OF that(3)])
    show "f ! 1 \<notin> set (file_names ns2)"
      using lookup_fresh [OF assms that(1)] lookup_same(1) [OF that(1)] that(2) by (simp add: file_names_def)
    have v: "validate_filename (f ! 1)"
      using that(4) by (simp add: ns_validate_logical_path_def split: if_splits)
    show "name_ok (f ! 1)" "fm_name ((new_entry now (f ! 1) u)\<lparr>fm_is_directory := True\<rparr>) = f ! 1"
      using filename_name_ok [OF v] by simp_all
    show "length (nm_files ns2) < NS_MAX_FILES"
      using that(2,5) lookup_same(1) [OF that(1)] by simp
  qed simp
  have top: "ns_inv (enter_file ns1 ((new_entry now (f ! 1) u)\<lparr>fm_is_directory := True\<rparr>) (f ! 1))"
    if "file_lookup_locked ns (f ! 1) = (ns1, None)" "ns_validate_logical_path (f ! 1)" "length (nm_files ns) < NS_MAX_FILES"
    for ns1 u
    using step [OF that(1) refl lookup_inv(1) [OF that(1) assms] that(2,3)] .
  have below: "ns_inv (enter_file ns2 ((new_entry now (f ! 1) u)\<lparr>fm_is_directory := True\<rparr>) (f ! 1))"
    if "file_lookup_locked ns (f ! 1) = (ns1, None)" "file_lookup_locked ns1 g = (ns2, r)"
      "ns_validate_logical_path (f ! 1)" "length (nm_files ns) < NS_MAX_FILES" for ns1 ns2 g r u
    using step [OF that(1) lookup_same(1) [OF that(2)] lookup_inv(1) [OF that(2) lookup_inv(1) [OF that(1) assms]] that(3,4)] .
  show ?thesis
    using assms top below
    by (auto simp: ns_create_folder_def Let_def not_le inv_save split: prod.split option.split dest: lookup_inv(1))
qed

lemma inv_touch:
  "ns_inv ns \<Longrightarrow> ns_inv (modify_file k (\<lambda>m. m\<lparr>fm_last_access := now, fm_last_access_user := u\<rparr>) ns)"
  by (rule inv_modify_file) (simp_all add: rights_ok_def)

lemma inv_copy_begin: "ns_inv ns \<Longrightarrow> ns_inv (begin_state (ns_copy_begin ns cx f))"
  by (auto simp: ns_copy_begin_def Let_def split: prod.split option.split dest: lookup_inv(1))

lemma inv_copy_finish: "ns_inv ns \<Longrightarrow> ns_inv (fst (ns_copy_finish now ns p r))"
  by (auto simp: ns_copy_finish_def Let_def split: ss_result.split intro: inv_save inv_touch inv_release)

lemma inv_exec_begin:
  assumes "ns_inv ns"
  shows "ns_inv (begin_state (ns_exec_begin now ns cx f))"
proof -
  have step: "ns_inv (set_file k ((nm_files ns1 ! k)\<lparr>fm_last_access := now, fm_last_access_user := u\<rparr>) ns1)"
    if "file_lookup_locked ns fn = (ns1, Some k)" for ns1 k fn u
    by (rule inv_lookup_set [OF assms that]) (simp_all add: rights_ok_def)
  show ?thesis
    using assms step inv_acquire [OF step]
    by (auto simp: ns_exec_begin_def Let_def split: prod.split option.split dest: lookup_inv(1))
qed

lemma inv_exec_finish: "ns_inv ns \<Longrightarrow> ns_inv (fst (ns_exec_finish popen ns p r))"
  by (simp add: ns_exec_finish_def Let_def inv_save inv_release)

section \<open>Deletion\<close>

lemma refs_inv:
  "ns_inv ns \<Longrightarrow> ns_inv (acquire_all refs ns)" "ns_inv ns \<Longrightarrow> ns_inv (release_all refs ns)"
  by (induction refs arbitrary: ns) (simp_all add: acquire_all_def release_all_def inv_update_server)

lemma refs_same [simp]:
  "nm_files (acquire_all refs ns) = nm_files ns" "nm_requests (acquire_all refs ns) = nm_requests ns"
  "nm_files (release_all refs ns) = nm_files ns" "nm_requests (release_all refs ns) = nm_requests ns"
  by (induction refs arbitrary: ns) (simp_all add: acquire_all_def release_all_def)

lemma requests_ok_map:
  assumes "requests_ok ns" "map ar_id qs = map ar_id (nm_requests ns)" "map ar_from qs = map ar_from (nm_requests ns)"
  shows "requests_ok (ns\<lparr>nm_requests := qs\<rparr>)"
proof -
  have "length qs = length (nm_requests ns)"
    using assms(2) by (metis length_map)
  moreover have "list_all (\<lambda>u. user_ok u) (map ar_from qs)"
    using assms(1,3) by (simp add: requests_ok_def list.pred_map comp_def)
  ultimately show ?thesis
    using assms(1,2) by (simp add: requests_ok_def del: list.pred_map) (simp add: list.pred_map comp_def)
qed

lemma inv_cancel: "ns_inv ns \<Longrightarrow> ns_inv (cancel_requests f ns)"
  unfolding cancel_requests_def ns_inv_def by (simp add: requests_ok_map)

lemma remove_entry_inv:
  assumes "ns_inv ns"
  shows "ns_inv (remove_entry ns e)" "set (nm_files (remove_entry ns e)) = {m\<in>set (nm_files ns). fm_name m \<noteq> dp_path e}"
proof -
  let ?ns = "fst (remove_file_metadata_locked ns (dp_path e))"
  have "nm_files (remove_entry ns e) = nm_files ?ns"
    by (simp add: remove_entry_def case_prod_beta cancel_requests_def split: option.split)
  then show "set (nm_files (remove_entry ns e)) = {m\<in>set (nm_files ns). fm_name m \<noteq> dp_path e}"
    using inv_remove(2) [OF assms] by simp
  have "ns_inv (update_server a (forget_load n) ?ns)" for a n
    using inv_remove(1) [OF assms] by (intro inv_update_server) simp_all
  then show "ns_inv (remove_entry ns e)"
    using inv_remove(1) [OF assms] by (simp add: remove_entry_def case_prod_beta inv_cancel split: option.split)
qed

lemma remove_plan_Nil [simp]: "remove_plan [] ns = ns"
  by (subst remove_plan.simps) simp

text \<open>The removal takes exactly the entries of the plan out of the table, in whatever order.\<close>

lemma remove_plan_inv:
  assumes "ns_inv ns"
  shows "ns_inv (remove_plan plan ns) \<and>
    set (nm_files (remove_plan plan ns)) = {m\<in>set (nm_files ns). fm_name m \<notin> dp_path ` set plan}"
  using assms
proof (induction plan ns rule: remove_plan.induct)
  case (1 plan ns)
  show ?case
  proof (cases "longest_last plan 0 None 0")
    case None
    then have "plan = []"
      using longest_last_found by blast
    then show ?thesis
      using 1(2) by simp
  next
    case (Some b)
    then have b: "b < length plan"
      using longest_last_bound by fastforce
    have set: "set plan = insert (plan ! b) (set (take b plan @ drop (Suc b) plan))"
      using id_take_nth_drop [OF b] by (metis Un_insert_right list.simps(15) set_append)
    have step: "remove_plan plan ns = remove_plan (take b plan @ drop (Suc b) plan) (remove_entry ns (plan ! b))"
      using Some by (subst remove_plan.simps) simp
    have "set (nm_files (remove_plan plan ns)) = {m\<in>set (nm_files (remove_entry ns (plan ! b))).
        fm_name m \<notin> dp_path ` set (take b plan @ drop (Suc b) plan)} \<and> ns_inv (remove_plan plan ns)"
      unfolding step using 1(1) [OF Some remove_entry_inv(1) [OF 1(2)]] by simp
    then show ?thesis
      unfolding remove_entry_inv(2) [OF 1(2)] set by auto
  qed
qed

lemma inv_delete:
  assumes "ns_inv ns"
  shows "ns_inv (fst (ns_delete answer ns cx f))"
proof -
  have rel: "ns_inv (release_all refs (acquire_all refs ns1))" if "file_lookup_locked ns g = (ns1, r)" for refs ns1 g r
    using lookup_inv(1) [OF that assms] by (intro refs_inv)
  have rem: "ns_inv (ns_save_metadata (release_all refs (remove_plan plan (acquire_all refs ns1))))"
    if "file_lookup_locked ns g = (ns1, r)" for refs plan ns1 g r
    using lookup_inv(1) [OF that assms] remove_plan_inv by (intro inv_save refs_inv) (simp add: refs_inv)
  show ?thesis
    using assms rel rem by (auto simp: ns_delete_def Let_def split: prod.split option.split dest: lookup_inv(1))
qed

section \<open>Renaming\<close>

definition renamed :: "int \<Rightarrow> cstring \<Rightarrow> cstring \<Rightarrow> file_metadata \<Rightarrow> file_metadata" where
  "renamed now user g m = m\<lparr>fm_name := g, fm_modified := now, fm_last_access := now,
     fm_last_modified_user := bounded_copy MAX_USERNAME_LENGTH user,
     fm_last_access_user := bounded_copy MAX_USERNAME_LENGTH user\<rparr>"

lemma rename_entry_inv:
  assumes "ns_inv ns" "name_ok (mp_new_path e)" "mp_new_path e \<notin> set (file_names ns)"
  shows "ns_inv (rename_entry now user ns e) \<and>
    nm_files (rename_entry now user ns e) =
      map (\<lambda>m. if fm_name m = mp_old_path e then renamed now user (mp_new_path e) m else m) (nm_files ns)"
proof -
  let ?f = "mp_old_path e" and ?g = "mp_new_path e"
  obtain ns1 r where look: "file_lookup_locked ns ?f = (ns1, r)"
    by fastforce
  note L = lookup_inv [OF look assms(1)] and S = lookup_same [OF look]
  have g: "bounded_copy MAX_FILENAME_LENGTH ?g = ?g"
    using assms(2) by (simp add: name_ok_def bounded_copy_id)
  show ?thesis
  proof (cases r)
    case None
    then have "fm_name m \<noteq> ?f" if "m \<in> set (nm_files ns)" for m
      using lookup_fresh [OF assms(1) look [unfolded None]] that by (metis file_names_def image_eqI set_map)
    then have "map (\<lambda>m. if fm_name m = ?f then renamed now user ?g m else m) (nm_files ns) = nm_files ns"
      by (simp add: map_idI)
    then show ?thesis
      using None look L(1) S(1) by (simp add: rename_entry_def)
  next
    case (Some k)
    then have k: "k < length (nm_files ns)" "fm_name (nm_files ns ! k) = ?f"
      using L(3) by simp_all
    have inv1: "ns_inv ns1" "table_ok ns1"
      using L(1) by (simp_all add: ns_inv_def files_ok_def)
    obtain es t where ren: "rename_entries ?f ?g (int k) (nm_tick ns1) (nm_cache ns1) = (es, t)"
      by fastforce
    let ?m = "renamed now user ?g (nm_files ns ! k)"
    let ?idx = "index_insert (index_remove (nm_index ns1) ?f) ?g (int k)"
    have eq: "rename_entry now user ns e = ns1\<lparr>nm_files := (nm_files ns)[k := ?m], nm_index := ?idx, nm_cache := es, nm_tick := t\<rparr>"
      using Some look k S(1) ren g
      by (cases ns1) (simp add: rename_entry_def Let_def file_index_remove_entry_def file_index_insert_def file_cache_rename_def
          set_file_def renamed_def)
    have "table_ok (ns1\<lparr>nm_files := (nm_files ns)[k := ?m], nm_index := ?idx, nm_cache := es\<rparr>)"
      using table_ok_rename [OF inv1(2), of k ?f ?m ?g] k assms(2,3) S(1) ren by (simp add: file_names_def renamed_def)
    then have tab: "table_ok (ns1\<lparr>nm_files := (nm_files ns)[k := ?m], nm_index := ?idx, nm_cache := es, nm_tick := t\<rparr>)"
      by (simp add: table_ok_def file_names_def)
    have rights: "list_all rights_ok ((nm_files ns)[k := ?m])"
      using file_rights [OF assms(1) k(1)] assms(1)
      by (intro list_all_update) (simp_all add: renamed_def rights_ok_def ns_inv_def files_ok_def)
    have names: "distinct (map fm_name (nm_files ns))"
      using assms(1) table_okD(4) by (simp add: ns_inv_def files_ok_def file_names_def)
    have files: "(nm_files ns)[k := ?m] = map (\<lambda>m. if fm_name m = ?f then renamed now user ?g m else m) (nm_files ns)"
    proof (rule nth_equalityI)
      fix i
      assume "i < length ((nm_files ns)[k := ?m])"
      then show "(nm_files ns)[k := ?m] ! i = map (\<lambda>m. if fm_name m = ?f then renamed now user ?g m else m) (nm_files ns) ! i"
        using k nth_eq_iff_index_eq [OF names, of i k] by (auto simp: nth_list_update)
    qed simp
    have "ns_inv (rename_entry now user ns e)"
      using inv1(1) tab rights S(1) unfolding eq by (simp add: ns_inv_def files_ok_def)
    then show ?thesis
      using files by (simp add: eq)
  qed
qed

text \<open>A list of renames to fresh and different names.\<close>

lemma rename_all_inv:
  assumes "ns_inv ns" "\<forall>e\<in>set plan. name_ok (mp_new_path e)" "distinct (map mp_new_path plan)"
    "\<forall>e\<in>set plan. mp_new_path e \<notin> set (file_names ns)"
  shows "ns_inv (foldl (rename_entry now user) ns plan)"
  using assms
proof (induction plan arbitrary: ns)
  case (Cons e plan)
  note step = rename_entry_inv [OF Cons.prems(1), of e now user]
  have "set (file_names (rename_entry now user ns e)) \<subseteq> insert (mp_new_path e) (set (file_names ns))"
    using step Cons.prems by (auto simp: file_names_def renamed_def)
  then have "\<forall>e'\<in>set plan. mp_new_path e' \<notin> set (file_names (rename_entry now user ns e))"
    using Cons.prems(3,4) by (metis distinct.simps(2) image_eqI insertE list.set_intros(2) list.simps(9) set_map subsetD)
  then show ?case
    using Cons.IH [of "rename_entry now user ns e"] Cons.prems step by simp
qed simp

lemma delete_match_prefix: "src \<noteq> [] \<Longrightarrow> delete_match src d m \<Longrightarrow> fm_name m = src @ drop (length src) (fm_name m)"
  using strncmp_prefix [of src "fm_name m"] by (auto simp: delete_match_def)

lemma delete_match_iff:
  "src \<noteq> [] \<Longrightarrow> delete_match src d m \<longleftrightarrow> fm_name m = src \<or> (d \<and> (\<exists>s. fm_name m = src @ CHR ''/'' # s))"
proof -
  assume src: "src \<noteq> []"
  have "strncmp_eq (length src) (fm_name m) src \<and> length src < length (fm_name m) \<and> fm_name m ! length src = CHR ''/''
      \<longleftrightarrow> (\<exists>s. fm_name m = src @ CHR ''/'' # s)"
  proof
    assume a: "strncmp_eq (length src) (fm_name m) src \<and> length src < length (fm_name m) \<and> fm_name m ! length src = CHR ''/''"
    then obtain s where "fm_name m = src @ s"
      using strncmp_prefix [OF src] by blast
    then show "\<exists>s. fm_name m = src @ CHR ''/'' # s"
      using a by (cases s) auto
  next
    assume "\<exists>s. fm_name m = src @ CHR ''/'' # s"
    then show "strncmp_eq (length src) (fm_name m) src \<and> length src < length (fm_name m) \<and> fm_name m ! length src = CHR ''/''"
      using strncmp_prefix [OF src, of "fm_name m"] by auto
  qed
  then show ?thesis
    by (auto simp: delete_match_def)
qed

lemma plan_move_entry_spec:
  assumes "plan_move_entry ns user src root m = (ns1, res)" "ns_inv ns" "root \<noteq> src" "length root < MAX_FILENAME_LENGTH"
    "src \<noteq> []" "delete_match src d m" "name_ok (fm_name m)"
  shows "ns_inv ns1 \<and> nm_files ns1 = nm_files ns \<and> nm_servers ns1 = nm_servers ns \<and> nm_requests ns1 = nm_requests ns \<and>
    (\<forall>e. res = Inr e \<longrightarrow> mp_old_path e = fm_name m \<and> mp_new_path e = root @ drop (length src) (fm_name m) \<and>
       mp_new_path e \<notin> set (file_names ns) \<and> name_ok (mp_new_path e) \<and>
       strncmp_eq MAX_USERNAME_LENGTH (fm_owner m) user)"
proof -
  have old: "bounded_copy MAX_FILENAME_LENGTH (fm_name m) = fm_name m"
    using assms(7) by (simp add: name_ok_def bounded_copy_id)
  note pre = delete_match_prefix [OF assms(5,6)]
  show ?thesis
  proof (cases "strncmp_eq MAX_USERNAME_LENGTH (fm_owner m) user \<and> moved_name src root (fm_name m) \<noteq> None")
    case False
    then consider "\<not> strncmp_eq MAX_USERNAME_LENGTH (fm_owner m) user"
      | "strncmp_eq MAX_USERNAME_LENGTH (fm_owner m) user" "moved_name src root (fm_name m) = None"
      by blast
    then have "ns1 = ns \<and> (\<exists>p. res = Inl p)"
      by cases (use assms(1) in \<open>auto simp: plan_move_entry_def\<close>)
    then show ?thesis
      using assms(2) by auto
  next
    case True
    then obtain q where q: "moved_name src root (fm_name m) = Some q"
      by blast
    have qeq: "q = root @ drop (length src) (fm_name m)"
      using q assms(4) by (auto simp: moved_name_def Let_def safe_strcpy_def bounded_copy_id split: if_splits)
    then have ne: "q \<noteq> fm_name m"
      using pre assms(3) by (metis append_same_eq)
    obtain ns2 r where look: "file_lookup_locked ns q = (ns2, r)"
      by fastforce
    have L: "ns_inv ns2" "r = Some k \<Longrightarrow> k < length (nm_files ns) \<and> fm_name (nm_files ns ! k) = q" for k
      using lookup_inv [OF look assms(2)] by simp_all
    have "(\<exists>p. res = Inl p) \<and> (ns1 = ns \<or> ns1 = ns2) \<or> (r = None \<and> ns1 = ns2 \<and> ns_validate_logical_path q \<and>
        (\<forall>e. res = Inr e \<longrightarrow> mp_old_path e = fm_name m \<and> mp_new_path e = q))"
    proof (cases "ns_validate_logical_path q")
      case False
      then have "plan_move_entry ns user src root m = (ns, Inl (ERR_INVALID_REQUEST, ''Destination path is invalid.''))"
        using True by (simp add: plan_move_entry_def q)
      then show ?thesis
        using assms(1) by simp
    next
      case valid: True
      show ?thesis
      proof (cases r)
        case None
        then show ?thesis
          using assms(1) True valid
          by (auto simp: plan_move_entry_def q look old Let_def split: if_splits option.splits)
      next
        case (Some k)
        then have "plan_move_entry ns user src root m =
            (ns2, Inl (ERR_FILE_EXISTS, ''Destination already contains an entry with that name.''))"
          using True valid L(2) [OF Some] ne lookup_same(1) [OF look] by (simp add: plan_move_entry_def q look old Let_def)
        then show ?thesis
          using assms(1) by simp
      qed
    qed
    then show ?thesis
      using assms(2) L(1) lookup_same [OF look] lookup_fresh [OF assms(2), of q ns2] look valid_path_name_ok [of q] qeq True
      by (elim disjE conjE exE) simp_all
  qed
qed

lemma move_plan_spec:
  assumes "move_plan ns user src d root ms plan = (ns1, plan1, problem)" "ns_inv ns" "root \<noteq> src"
    "length root < MAX_FILENAME_LENGTH" "src \<noteq> []" "\<forall>m\<in>set ms. name_ok (fm_name m)"
  shows "ns_inv ns1 \<and> nm_files ns1 = nm_files ns \<and> nm_requests ns1 = nm_requests ns \<and>
    (\<exists>new. plan1 = plan @ new \<and> (\<forall>e\<in>set new. mp_new_path e \<notin> set (file_names ns) \<and> name_ok (mp_new_path e)) \<and>
      (let moved = take (length new) (filter (delete_match src d) ms) in
        map mp_old_path new = map fm_name moved \<and>
        map mp_new_path new = map (\<lambda>m. root @ drop (length src) (fm_name m)) moved \<and>
        (problem = None \<longrightarrow> moved = filter (delete_match src d) ms \<and>
           (\<forall>m\<in>set moved. strncmp_eq MAX_USERNAME_LENGTH (fm_owner m) user))))"
  using assms
proof (induction ns user src d root ms plan arbitrary: ns1 plan1 problem rule: move_plan.induct)
  case (1 ns user src d root plan)
  then show ?case
    by simp
next
  case (2 ns user src d root m ms plan)
  show ?case
  proof (cases "delete_match src d m")
    case False
    then show ?thesis
      using 2 by (simp add: Let_def)
  next
    case True
    obtain ns2 res where step: "plan_move_entry ns user src root m = (ns2, res)"
      by fastforce
    have nm: "name_ok (fm_name m)"
      using 2(8) by simp
    note S = plan_move_entry_spec [OF step 2(4,5,6,7) True nm]
    show ?thesis
    proof (cases res)
      case (Inl p)
      then show ?thesis
        using 2(3) True step S by auto
    next
      case (Inr e)
      have rec: "move_plan ns2 user src d root ms (plan @ [e]) = (ns1, plan1, problem)"
        using 2(3) True step Inr by simp
      have inv2: "ns_inv ns2" "\<forall>m\<in>set ms. name_ok (fm_name m)"
        using S 2(8) by simp_all
      have IH: "ns_inv ns1 \<and> nm_files ns1 = nm_files ns2 \<and> nm_requests ns1 = nm_requests ns2 \<and>
          (\<exists>new. plan1 = (plan @ [e]) @ new \<and> (\<forall>e\<in>set new. mp_new_path e \<notin> set (file_names ns2) \<and> name_ok (mp_new_path e)) \<and>
          (let moved = take (length new) (filter (delete_match src d) ms) in
            map mp_old_path new = map fm_name moved \<and>
            map mp_new_path new = map (\<lambda>m. root @ drop (length src) (fm_name m)) moved \<and>
            (problem = None \<longrightarrow> moved = filter (delete_match src d) ms \<and>
              (\<forall>m\<in>set moved. strncmp_eq MAX_USERNAME_LENGTH (fm_owner m) user))))"
        by (rule 2(2) [OF _ step [symmetric] Inr rec inv2(1) 2(5,6,7) inv2(2)]) (use True in simp)
      then obtain new where new: "plan1 = plan @ e # new"
          "\<forall>e\<in>set new. mp_new_path e \<notin> set (file_names ns2) \<and> name_ok (mp_new_path e)"
          "map mp_old_path new = map fm_name (take (length new) (filter (delete_match src d) ms))"
          "map mp_new_path new = map (\<lambda>m. root @ drop (length src) (fm_name m)) (take (length new) (filter (delete_match src d) ms))"
          "problem = None \<longrightarrow> take (length new) (filter (delete_match src d) ms) = filter (delete_match src d) ms \<and>
             (\<forall>m\<in>set (filter (delete_match src d) ms). strncmp_eq MAX_USERNAME_LENGTH (fm_owner m) user)"
        by (auto simp: Let_def)
      have names: "file_names ns2 = file_names ns"
        using S by (simp add: file_names_def)
      show ?thesis
        using IH S Inr new True names by (intro conjI exI [of _ "e # new"]) (auto simp: Let_def)
    qed
  qed
qed

lemma moved_names_distinct:
  assumes "distinct (map fm_name ms)" "src \<noteq> []" "\<forall>m\<in>set ms. delete_match src d m"
  shows "distinct (map (\<lambda>m. root @ drop (length src) (fm_name m)) ms)"
  unfolding distinct_map
proof
  show "distinct ms"
    using assms(1) by (simp add: distinct_map)
  show "inj_on (\<lambda>m. root @ drop (length src) (fm_name m)) (set ms)"
  proof (rule inj_onI)
    fix a b
    assume ab: "a \<in> set ms" "b \<in> set ms" "root @ drop (length src) (fm_name a) = root @ drop (length src) (fm_name b)"
    then have "fm_name a = fm_name b"
      using delete_match_prefix [OF assms(2)] assms(3) by (metis same_append_eq)
    then show "a = b"
      using ab(1,2) assms(1) inj_onD [of fm_name "set ms" a b] by (simp add: distinct_map)
  qed
qed

lemma move_target_length: "length base < MAX_FILENAME_LENGTH \<Longrightarrow> move_target dest base = Some root \<Longrightarrow> length root < MAX_FILENAME_LENGTH"
  by (auto simp: move_target_def Let_def safe_strcpy_def bounded_copy_id split: if_splits)

lemma names_name_ok: "ns_inv ns \<Longrightarrow> m \<in> set (nm_files ns) \<Longrightarrow> name_ok (fm_name m)"
  by (simp add: ns_inv_def files_ok_def table_ok_def list_all_iff file_names_def)

lemma names_distinct: "ns_inv ns \<Longrightarrow> distinct (map fm_name (nm_files ns))"
  using table_okD(4) [of ns] by (simp add: ns_inv_def files_ok_def file_names_def)

lemma split_child_length: "ns_validate_logical_path p \<Longrightarrow> ns_split_parent_child MAX_FILENAME_LENGTH p = Some (d, c) \<Longrightarrow>
    length c < MAX_FILENAME_LENGTH"
  using split_join [of p d c] valid_path_name_ok [of p] by (auto simp: name_ok_def split: if_splits)

lemma inv_move_plan:
  assumes "ns_inv ns" "move_plan ns user src d root (nm_files ns) [] = (ns1, plan, problem)" "root \<noteq> src"
    "length root < MAX_FILENAME_LENGTH" "src \<noteq> []"
  shows "ns_inv ns1" "nm_files ns1 = nm_files ns" "\<forall>e\<in>set plan. name_ok (mp_new_path e)" "distinct (map mp_new_path plan)"
    "\<forall>e\<in>set plan. mp_new_path e \<notin> set (file_names ns1)"
proof -
  have "\<forall>m\<in>set (nm_files ns). name_ok (fm_name m)"
    using names_name_ok [OF assms(1)] by blast
  note S = move_plan_spec [OF assms(2,1,3-5) this]
  let ?moved = "take (length plan) (filter (delete_match src d) (nm_files ns))"
  have "distinct (map fm_name (filter (delete_match src d) (nm_files ns)))"
    using names_distinct [OF assms(1)] by (rule distinct_map_filter)
  then have "distinct (map fm_name ?moved)"
    by (metis distinct_take take_map)
  moreover have "\<forall>m\<in>set ?moved. delete_match src d m"
    using set_take_subset by fastforce
  ultimately have "distinct (map (\<lambda>m. root @ drop (length src) (fm_name m)) ?moved)"
    using moved_names_distinct [OF _ assms(5)] by blast
  then show "distinct (map mp_new_path plan)"
    using S by (auto simp: Let_def)
  show "ns_inv ns1" "nm_files ns1 = nm_files ns" "\<forall>e\<in>set plan. name_ok (mp_new_path e)"
    "\<forall>e\<in>set plan. mp_new_path e \<notin> set (file_names ns1)"
    using S by (auto simp: file_names_def)
qed

lemma inv_move_execute:
  assumes "ns_inv ns" "root \<noteq> src" "length root < MAX_FILENAME_LENGTH" "src \<noteq> []"
  shows "ns_inv (fst (move_execute answer now ns cx src d root))"
proof -
  obtain ns3 plan problem where plan: "move_plan ns (cx_username cx) src d root (nm_files ns) [] = (ns3, plan, problem)"
    by (metis prod_cases3)
  note P = inv_move_plan [OF assms(1) plan assms(2-4)]
  let ?ns4 = "acquire_all (move_refs plan) ns3"
  have "ns_inv (foldl (rename_entry now (cx_username cx)) ?ns4 plan)"
    using P by (intro rename_all_inv refs_inv) (simp_all add: file_names_def)
  then show ?thesis
    using P(1) plan by (auto simp: move_execute_def Let_def refs_inv inv_save split: option.split)
qed

lemma inv_move:
  assumes "ns_inv ns"
  shows "ns_inv (fst (ns_move answer now ns cx f))"
proof -
  have run: "ns_inv (fst (move_execute answer now ns2 cx src d root))"
    if "move_target dest base = Some root" "ns_inv ns2" "root \<noteq> src" "ns_validate_logical_path src"
      "ns_split_parent_child MAX_FILENAME_LENGTH src = Some (parent, base)" for src ns2 d root dest base parent
    using move_target_length [OF split_child_length [OF that(4,5)] that(1)] valid_path_name_ok [OF that(4)] that(2,3)
    by (intro inv_move_execute) (simp_all add: name_ok_def)
  show ?thesis
    using assms by (auto simp: ns_move_def Let_def split: prod.split option.split dest: lookup_inv(1) intro: run)
qed

section \<open>Storage server connections\<close>

lemma inv_find_entry: "ns_inv ns \<Longrightarrow> ns_inv (sync_start ns cx)"
  by (simp add: sync_start_def inv_update_server split: option.split)

lemma existing_file_Some:
  assumes "ns_inv ns" "existing_file ns f = Some k"
  shows "k < length (nm_files ns) \<and> fm_name (nm_files ns ! k) = f"
proof -
  have idx: "fi.indexes (nm_index ns) (file_names ns)"
    using assms(1) table_okD(1) by (simp add: ns_inv_def files_ok_def)
  obtain i where i: "index_find (nm_index ns) f = Some i" "k = nat i"
    using assms(2) by (auto simp: existing_file_def file_index_find_def split: option.splits if_splits)
  then obtain j where "i = int j" "j < length (file_names ns)" "file_names ns ! j = f"
    using fi.indexesD(3) [OF idx, of f i] by blast
  then show ?thesis
    using i(2) by simp
qed

lemma existing_file_None:
  assumes "ns_inv ns" "existing_file ns f = None"
  shows "f \<notin> set (file_names ns)"
proof
  assume "f \<in> set (file_names ns)"
  then obtain j where j: "j < length (file_names ns)" "file_names ns ! j = f"
    by (auto simp: in_set_conv_nth)
  have "fi.indexes (nm_index ns) (file_names ns)"
    using assms(1) table_okD(1) by (simp add: ns_inv_def files_ok_def)
  then have "index_find (nm_index ns) f = Some (int j)"
    using fi.indexes_nth j by blast
  then show False
    using assms(2) j(1) by (simp add: existing_file_def file_index_find_def)
qed

lemma parse_csv_wf: "ns_acl_wf (file_acl_parse_csv csv)"
proof -
  have "ns_acl_wf (csv_loop es ts)" if "ns_acl_wf es" for es ts
    using that
  proof (induction es ts rule: csv_loop.induct)
    case (2 es t ts)
    then show ?case
      using fa.wf_add [OF 2(3)] username_ok by (auto simp: Let_def split: prod.split) (metis fst_conv)+
  qed simp
  then show ?thesis
    by (simp add: file_acl_parse_csv_def)
qed

lemma announced_ok [simp]:
  "rights_ok (announced now s f m)" "fm_name (announced now s f m) = fm_name m"
  by (simp_all add: announced_def rights_ok_def parse_csv_wf)

lemma inv_record_file:
  assumes "ns_inv ns" "validate_filename (f ! 1)"
  shows "ns_inv (fst (record_file now ns fd s f))"
proof (cases "existing_file ns (f ! 1)")
  case None
  let ?m = "(announced now s f (zero_metadata\<lparr>fm_name := bounded_copy MAX_FILENAME_LENGTH (f ! 1)\<rparr>))\<lparr>fm_created := now\<rparr>"
  have "rights_ok ?m" "fm_name ?m = f ! 1"
    using filename_name_ok [OF assms(2)] announced_ok(1) [of now s f] by (simp_all add: rights_ok_def)
  then show ?thesis
    using None assms(1) inv_enter_file(1) [OF assms(1), of ?m "f ! 1"] existing_file_None [OF assms(1) None] filename_name_ok [OF assms(2)]
    by (auto simp: record_file_def not_le)
next
  case (Some k)
  note K = existing_file_Some [OF assms(1) Some]
  have "ns_inv (set_file k (announced now s f (nm_files ns ! k)) ns)"
    using K by (intro inv_set_file [OF assms(1)]) simp_all
  then show ?thesis
    using Some K inv_cache_store [of "set_file k (announced now s f (nm_files ns ! k)) ns" k "f ! 1"]
    by (simp add: record_file_def) (simp add: set_file_def)
qed

lemma inv_sync_message:
  assumes "ns_inv ns" "sync_message now ns cx raw = (ns', cx', outs, finished)"
  shows "ns_inv ns'"
proof -
  have up: "ns_inv (update_server a (relay r) ns)" "ns_inv (recalculate_load a ns)" for a r
    using assms(1) by (simp_all add: recalculate_load_def inv_update_server)
  have has: "ns_inv (fst (ss_has_file now ns c g))" for c g
    using assms(1) inv_find_entry inv_record_file
    by (auto simp: ss_has_file_def Let_def case_prod_beta split: option.split)
  show ?thesis
    using assms up has by (auto simp: sync_message_def Let_def split: if_splits prod.splits option.splits) (metis fst_conv)+
qed

lemma inv_write_complete:
  assumes "ns_inv ns"
  shows "ns_inv (write_complete now ns ss f)"
proof (cases "existing_file ns (f ! 1)")
  case (Some k)
  note K = existing_file_Some [OF assms Some]
  let ?m = "(nm_files ns ! k)\<lparr>fm_size := atoll (f ! 2), fm_word_count := atoll (f ! 3), fm_char_count := atoll (f ! 4), fm_modified := now\<rparr>"
  have "ns_inv (set_file k ?m ns)"
    using K file_rights [OF assms] by (intro inv_set_file [OF assms]) (simp_all add: rights_ok_def)
  then have "ns_inv (file_cache_store (set_file k ?m ns) (f ! 1) (int k))"
    using K by (intro inv_cache_store) (simp_all add: set_file_def)
  then show ?thesis
    using Some assms by (simp add: write_complete_def Let_def inv_save inv_update_server split: option.split)
qed (use assms in \<open>simp add: write_complete_def\<close>)

lemma inv_command_message: "ns_inv ns \<Longrightarrow> ns_inv (fst (command_message now ns cx raw))"
  by (simp add: command_message_def Let_def inv_update_server inv_write_complete)

lemma inv_connection_lost: "ns_inv ns \<Longrightarrow> ns_inv (ss_connection_lost ns cx)"
  by (simp add: ss_connection_lost_def inv_update_server split: option.split)

section \<open>Connections and start-up\<close>

lemma files_ok_cong: "nm_files a = nm_files b \<Longrightarrow> nm_index a = nm_index b \<Longrightarrow> nm_cache a = nm_cache b \<Longrightarrow> files_ok a = files_ok b"
  by (simp add: files_ok_def table_ok_def file_names_def)

lemma requests_ok_cong: "nm_requests a = nm_requests b \<Longrightarrow> nm_next_request a = nm_next_request b \<Longrightarrow> requests_ok a = requests_ok b"
  by (simp add: requests_ok_def)

lemma inv_handshake: "ns_inv ns \<Longrightarrow> handshake now ns cx raw = (ns', cx', outs) \<Longrightarrow> ns_inv ns'"
  using hello_frame [of now ns cx raw ns' cx' outs] files_ok_cong [of ns' ns] requests_ok_cong [of ns' ns]
  by (simp add: ns_inv_def)

lemma cleanup_frame:
  "nm_files (connection_cleanup ns cx) = nm_files ns" "nm_index (connection_cleanup ns cx) = nm_index ns"
  "nm_cache (connection_cleanup ns cx) = nm_cache ns" "nm_requests (connection_cleanup ns cx) = nm_requests ns"
  "nm_next_request (connection_cleanup ns cx) = nm_next_request ns"
  by (simp_all add: connection_cleanup_def ss_cleanup_connection_def release_client_def split: option.split)

lemma inv_cleanup: "ns_inv ns \<Longrightarrow> ns_inv (connection_cleanup ns cx)"
  using files_ok_cong [of "connection_cleanup ns cx" ns] requests_ok_cong [of "connection_cleanup ns cx" ns]
    registry_ok_cleanup [of ns cx] by (simp add: ns_inv_def cleanup_frame)

end
