(* ===== verification/NS_Frames.thy ===== *)
theory NS_Frames
  imports NS_Invariant
begin

text \<open>
  What no command of a client changes: the clients, the addresses and sockets of the storage
  servers, and the requests of the mailbox, which are never dropped.
\<close>

section \<open>Clients and storage servers\<close>

definition server_ids :: "name_server \<Rightarrow> (nat \<times> int) list" where
  "server_ids ns = map (\<lambda>s. (si_addr s, si_sockfd s)) (nm_servers ns)"

definition server_core :: "name_server \<Rightarrow> client_info list \<times> (nat \<times> int) list \<times> nat" where
  "server_core ns = (nm_clients ns, server_ids ns, nm_next_addr ns)"

abbreviation grows :: "name_server \<Rightarrow> name_server \<Rightarrow> bool" where
  "grows ns ns' \<equiv> length (nm_requests ns) \<le> length (nm_requests ns')"

lemma server_core_frame [simp]:
  "server_core (ns\<lparr>nm_files := a\<rparr>) = server_core ns" "server_core (ns\<lparr>nm_index := b\<rparr>) = server_core ns"
  "server_core (ns\<lparr>nm_cache := c\<rparr>) = server_core ns" "server_core (ns\<lparr>nm_tick := d\<rparr>) = server_core ns"
  "server_core (ns\<lparr>nm_requests := e\<rparr>) = server_core ns" "server_core (ns\<lparr>nm_next_request := g\<rparr>) = server_core ns"
  "server_core (ns\<lparr>nm_disk := h\<rparr>) = server_core ns" "server_core (ns\<lparr>nm_round_robin := i\<rparr>) = server_core ns"
  by (simp_all add: server_core_def server_ids_def)

lemma server_sockets [simp]:
  "si_sockfd (storage_server_acquire s) = si_sockfd s" "si_sockfd (storage_server_release s) = si_sockfd s"
  "si_sockfd (relay raw s) = si_sockfd s" "si_sockfd (reset_load s) = si_sockfd s" "si_sockfd (forget_load n s) = si_sockfd s"
  "si_sockfd (apply_delta m d s) = si_sockfd s" "si_sockfd (ns_recalculate_server_load_locked ns s) = si_sockfd s"
  by (simp_all add: storage_server_acquire_def storage_server_release_def relay_def
      reset_load_def forget_load_def apply_delta_def ns_recalculate_server_load_locked_def Let_def split: prod.split)

lemma update_core:
  "(\<And>s. si_addr (g s) = si_addr s) \<Longrightarrow> (\<And>s. si_sockfd (g s) = si_sockfd s) \<Longrightarrow> server_core (update_server a g ns) = server_core ns"
  by (simp add: server_core_def server_ids_def update_server_def)

lemma select_loop_ids:
  "map (\<lambda>s. (si_addr s, si_sockfd s)) (fst (select_loop servers best idxs)) = map (\<lambda>s. (si_addr s, si_sockfd s)) servers"
proof (induction servers best idxs rule: select_loop.induct)
  case (2 servers best idx idxs)
  have "map (\<lambda>s. (si_addr s, si_sockfd s)) (servers[idx := clamp_load (servers ! idx)]) = map (\<lambda>s. (si_addr s, si_sockfd s)) servers"
    by (cases "idx < length servers") (simp_all add: map_update list_update_same_conv list_update_beyond clamp_load_def)
  then show ?case
    using 2 by (simp add: Let_def)
qed simp

lemma select_core [simp]: "server_core (fst (ns_select_storage_server_balanced ns)) = server_core ns"
  by (simp add: ns_select_storage_server_balanced_def server_core_def server_ids_def Let_def case_prod_beta select_loop_ids
      split: option.split)

lemma fst_requests [simp]:
  "nm_requests (fst (file_lookup_locked ns f)) = nm_requests ns" "nm_requests (fst (acquire_server ns m)) = nm_requests ns"
  "nm_requests (fst (ns_select_storage_server_balanced ns)) = nm_requests ns"
  "nm_requests (fst (remove_file_metadata_locked ns f)) = nm_requests ns"
  by (metis prod.collapse lookup_same(4), metis prod.collapse acquire_same, metis prod.collapse select_frame(3))
    (use remove_frame [of ns f] in auto)

lemma fst_core [simp]:
  "server_core (fst (file_lookup_locked ns f)) = server_core ns" "server_core (fst (acquire_server ns m)) = server_core ns"
  "server_core (fst (remove_file_metadata_locked ns f)) = server_core ns"
  using lookup_frame [of ns f] remove_frame [of ns f] by (auto simp: acquire_server_def update_core split: option.split)

lemma step_core [simp]:
  "server_core (set_file k m ns) = server_core ns"
  "server_core (modify_file k h ns) = server_core ns" "server_core (ns_save_metadata ns) = server_core ns"
  "server_core (release_server t ns) = server_core ns" "server_core (set_pending i b ns) = server_core ns"
  "server_core (file_cache_store ns f n) = server_core ns" "server_core (cancel_requests f ns) = server_core ns"
  "server_core (enter_file ns m f) = server_core ns"
  "server_core (update_server a storage_server_acquire ns) = server_core ns"
  "server_core (update_server a (\<lambda>s. s\<lparr>si_total_files := si_total_files s + 1\<rparr>) ns) = server_core ns"
  using cache_store_frame [of ns f n]
  by (auto simp: set_file_def modify_file_def ns_save_metadata_def release_server_def set_pending_def update_core
      cancel_requests_def enter_file_def file_index_insert_def file_cache_store_def Let_def split: option.split)

lemma refs_core [simp]:
  "server_core (acquire_all refs ns) = server_core ns" "server_core (release_all refs ns) = server_core ns"
  by (induction refs arbitrary: ns) (simp_all add: acquire_all_def release_all_def update_core)

lemma modify_file_requests [simp]: "nm_requests (modify_file k g ns) = nm_requests ns"
  by (simp add: modify_file_def)

lemma remove_entry_mail [simp]:
  "length (nm_requests (remove_entry ns e)) = length (nm_requests ns)" "server_core (remove_entry ns e) = server_core ns"
  by (simp_all add: remove_entry_def case_prod_beta update_core split: option.split) (simp add: cancel_requests_def)

lemma remove_plan_same:
  "length (nm_requests (remove_plan plan ns)) = length (nm_requests ns) \<and> server_core (remove_plan plan ns) = server_core ns"
proof (induction plan ns rule: remove_plan.induct)
  case (1 plan ns)
  show ?case
  proof (cases "longest_last plan 0 None 0")
    case None
    then show ?thesis
      by (subst (1 2) remove_plan.simps) simp
  next
    case (Some i)
    then show ?thesis
      using 1 [OF Some] by (subst (1 2) remove_plan.simps) simp
  qed
qed

lemmas remove_plan_mail [simp] = remove_plan_same [THEN conjunct1] remove_plan_same [THEN conjunct2]

lemma rename_entry_mail [simp]:
  "nm_requests (rename_entry now u ns e) = nm_requests ns" "server_core (rename_entry now u ns e) = server_core ns"
  by (simp_all add: rename_entry_def Let_def file_index_remove_entry_def file_index_insert_def file_cache_rename_def
      case_prod_beta split: option.split)

lemma rename_all_mail [simp]:
  "nm_requests (foldl (rename_entry now u) ns plan) = nm_requests ns"
  "server_core (foldl (rename_entry now u) ns plan) = server_core ns"
  by (induction plan arbitrary: ns) simp_all

lemma plan_move_entry_mail [simp]:
  "nm_requests (fst (plan_move_entry ns u src root m)) = nm_requests ns"
  "server_core (fst (plan_move_entry ns u src root m)) = server_core ns"
  by (simp_all add: plan_move_entry_def Let_def case_prod_beta split: option.split)

lemma move_plan_mail:
  "nm_requests (fst (move_plan ns u src d root ms plan)) = nm_requests ns \<and>
   server_core (fst (move_plan ns u src d root ms plan)) = server_core ns"
proof (induction ns u src d root ms plan rule: move_plan.induct)
  case (2 ns u src d root m ms plan)
  then show ?case
    using plan_move_entry_mail [of ns u src root m]
    by (cases "plan_move_entry ns u src root m") (auto split: sum.split)
qed simp

lemma move_mail [simp]:
  "nm_requests (fst (ns_move answer now ns cx f)) = nm_requests ns" "server_core (fst (ns_move answer now ns cx f)) = server_core ns"
proof -
  have run: "nm_requests (fst (move_execute answer now ns2 cx src d root)) = nm_requests ns2"
    "server_core (fst (move_execute answer now ns2 cx src d root)) = server_core ns2" for ns2 src d root
    by (simp_all add: move_execute_def Let_def case_prod_beta move_plan_mail split: option.split)
  show "nm_requests (fst (ns_move answer now ns cx f)) = nm_requests ns" "server_core (fst (ns_move answer now ns cx f)) = server_core ns"
    by (simp_all add: ns_move_def Let_def run case_prod_beta split: option.split)
qed

lemma begin_mail:
  "nm_requests (begin_state (ns_add_access_begin ns cx f)) = nm_requests ns"
  "nm_requests (begin_state (ns_rem_access_begin ns cx f)) = nm_requests ns"
  "grows ns (begin_state (ns_approve_begin ns cx f))"
  "nm_requests (begin_state (ns_create_begin now ns cx f)) = nm_requests ns"
  "nm_requests (begin_state (ns_copy_begin ns cx f)) = nm_requests ns"
  "nm_requests (begin_state (ns_exec_begin now ns cx f)) = nm_requests ns"
  "server_core (begin_state (ns_add_access_begin ns cx f)) = server_core ns"
  "server_core (begin_state (ns_rem_access_begin ns cx f)) = server_core ns"
  "server_core (begin_state (ns_approve_begin ns cx f)) = server_core ns"
  "server_core (begin_state (ns_create_begin now ns cx f)) = server_core ns"
  "server_core (begin_state (ns_copy_begin ns cx f)) = server_core ns"
  "server_core (begin_state (ns_exec_begin now ns cx f)) = server_core ns"
  by (simp_all add: ns_add_access_begin_def ns_rem_access_begin_def ns_approve_begin_def ns_create_begin_def ns_copy_begin_def
      ns_exec_begin_def Let_def enter_file_same case_prod_beta split: option.split)

lemma command_mail:
  "grows ns (fst (ns_info ft ns cx f))" "grows ns (fst (ns_request_access ns cx f))" "grows ns (fst (ns_reject ns cx f))"
  "grows ns (fst (ns_create_folder now ns cx f))" "grows ns (fst (ns_view_folder ns cx f))"
  "grows ns (fst (ns_delete answer ns cx f))" "grows ns (fst (ns_req_loc now ns cx f))"
  "server_core (fst (ns_info ft ns cx f)) = server_core ns" "server_core (fst (ns_request_access ns cx f)) = server_core ns"
  "server_core (fst (ns_reject ns cx f)) = server_core ns" "server_core (fst (ns_create_folder now ns cx f)) = server_core ns"
  "server_core (fst (ns_view_folder ns cx f)) = server_core ns" "server_core (fst (ns_delete answer ns cx f)) = server_core ns"
  "server_core (fst (ns_req_loc now ns cx f)) = server_core ns"
  by (simp_all add: ns_info_def ns_request_access_def ns_reject_def ns_create_folder_def ns_view_folder_def ns_delete_def
      ns_req_loc_def Let_def enter_file_same case_prod_beta split: option.split bool.split)

end
