(* ===== verification/NS_Server.thy ===== *)
theory NS_Server
  imports NS_Frames
begin

text \<open>
  The name server as a whole: the dispatch of a client command, the completion of a call to a
  storage server, and the step relation of all connections together.  The
  steps are the stretches of code between acquiring and releasing \<open>state_lock\<close>, in any
  interleaving; a call to a storage server may return any result at any later time.
\<close>

section \<open>Dispatch\<close>

datatype call_kind = Add_call | Rem_call | Approve_call | Create_call | Copy_call | Exec_call

text \<open>What a command needs from outside: the clock, the time zone, the shell, and the
  storage servers for the commands that call them under the lock.\<close>

record surroundings =
  now_is :: int
  time_zone :: "int \<Rightarrow> int"
  run_shell :: "cstring \<Rightarrow> cstring option"
  answers :: "nat \<Rightarrow> cstring list \<Rightarrow> ss_result"

type_synonym command_result = "(name_server \<times> ns_outputs) + (call_kind \<times> name_server \<times> pending)"

definition started :: "call_kind \<Rightarrow> ns_begin \<Rightarrow> command_result" where
  "started k b = (case b of Inl r \<Rightarrow> Inl r | Inr (ns, p) \<Rightarrow> Inr (k, ns, p))"

definition client_command :: "surroundings \<Rightarrow> name_server \<Rightarrow> connection \<Rightarrow> cstring \<Rightarrow> command_result" where
  "client_command w ns cx raw =
     (let f = msg_fields (protocol_parse_message raw); command = f ! 0; now = now_is w in
      if command = ''LIST_USERS'' then Inl (ns, ns_list_users ns cx)
      else if command = ''VIEW'' then Inl (ns, ns_view (time_zone w) ns cx f)
      else if command = ''INFO'' then Inl (ns_info (time_zone w) ns cx f)
      else if command = ''EXEC'' then started Exec_call (ns_exec_begin now ns cx f)
      else if command = ''REQUESTACCESS'' then Inl (ns_request_access ns cx f)
      else if command = ''LISTREQUESTS'' then Inl (ns, ns_list_requests ns cx)
      else if command = ''APPROVEACCESS'' then started Approve_call (ns_approve_begin ns cx f)
      else if command = ''REJECTACCESS'' then Inl (ns_reject ns cx f)
      else if command = ''COPY'' then started Copy_call (ns_copy_begin ns cx f)
      else if command = ''CREATE'' then started Create_call (ns_create_begin now ns cx f)
      else if command = ''CREATEFOLDER'' then Inl (ns_create_folder now ns cx f)
      else if command = ''VIEWFOLDER'' then Inl (ns_view_folder ns cx f)
      else if command = ''MOVE'' then Inl (ns_move (answers w) now ns cx f)
      else if command = ''DELETE'' then Inl (ns_delete (answers w) ns cx f)
      else if command = ''REQ_LOC'' then Inl (ns_req_loc now ns cx f)
      else if command = ''ADDACCESS'' then started Add_call (ns_add_access_begin ns cx f)
      else if command = ''REMACCESS'' then started Rem_call (ns_rem_access_begin ns cx f)
      else Inl (ns, send_error_and_log (cx_fd cx) ERR_INVALID_REQUEST ''Unknown client command.''))"

definition finish_call :: "surroundings \<Rightarrow> name_server \<Rightarrow> call_kind \<Rightarrow> pending \<Rightarrow> ss_result \<Rightarrow> name_server \<times> ns_outputs" where
  "finish_call w ns k p r = (case k of
       Add_call \<Rightarrow> ns_add_access_finish ns p r
     | Rem_call \<Rightarrow> ns_rem_access_finish ns p r
     | Approve_call \<Rightarrow> ns_approve_finish ns p r
     | Create_call \<Rightarrow> ns_create_finish ns p r
     | Copy_call \<Rightarrow> ns_copy_finish (now_is w) ns p r
     | Exec_call \<Rightarrow> ns_exec_finish (run_shell w) ns p r)"

section \<open>The system\<close>

text \<open>
  Where the thread of a connection stands.  A client connection waits for a command or for the
  result of a call; that of a storage server is before the first loop, in it, in the second
  loop, or behind it.
\<close>

datatype thread = Client_at connection | Calling connection call_kind pending
  | Joining connection | Syncing connection | Serving connection | Leaving connection

primrec thread_cx :: "thread \<Rightarrow> connection" where
  "thread_cx (Client_at cx) = cx"
| "thread_cx (Calling cx k p) = cx"
| "thread_cx (Joining cx) = cx"
| "thread_cx (Syncing cx) = cx"
| "thread_cx (Serving cx) = cx"
| "thread_cx (Leaving cx) = cx"

text \<open>\<open>accept\<close> returns a descriptor that no open connection has.\<close>

definition fresh_fd :: "int \<Rightarrow> thread list \<Rightarrow> bool" where
  "fresh_fd fd ts \<longleftrightarrow> 0 \<le> fd \<and> (\<forall>t\<in>set ts. cx_fd (thread_cx t) \<noteq> fd)"

record system =
  sy_ns :: name_server
  sy_threads :: "thread list"

inductive ns_step :: "system \<Rightarrow> ns_outputs \<Rightarrow> system \<Rightarrow> bool" where
  client_hello: "fresh_fd fd ts \<Longrightarrow> handshake now ns (new_connection fd ip port) raw = (ns', cx, outs) \<Longrightarrow> cx_is_client cx \<Longrightarrow>
     ns_step \<lparr>sy_ns = ns, sy_threads = ts\<rparr> outs \<lparr>sy_ns = ns', sy_threads = Client_at cx # ts\<rparr>"
| ss_hello: "fresh_fd fd ts \<Longrightarrow> handshake now ns (new_connection fd ip port) raw = (ns', cx, outs) \<Longrightarrow> cx_is_ss cx \<Longrightarrow>
     ns_step \<lparr>sy_ns = ns, sy_threads = ts\<rparr> outs \<lparr>sy_ns = ns', sy_threads = Joining cx # ts\<rparr>"
| refused: "fresh_fd fd ts \<Longrightarrow> handshake now ns (new_connection fd ip port) raw = (ns', cx, outs) \<Longrightarrow>
     \<not> cx_is_client cx \<Longrightarrow> \<not> cx_is_ss cx \<Longrightarrow>
     ns_step \<lparr>sy_ns = ns, sy_threads = ts\<rparr> outs \<lparr>sy_ns = connection_cleanup ns' cx, sy_threads = ts\<rparr>"
| command: "client_command w ns cx raw = Inl (ns', outs) \<Longrightarrow>
     ns_step \<lparr>sy_ns = ns, sy_threads = as @ Client_at cx # bs\<rparr> outs \<lparr>sy_ns = ns', sy_threads = as @ Client_at cx # bs\<rparr>"
| call: "client_command w ns cx raw = Inr (k, ns', p) \<Longrightarrow>
     ns_step \<lparr>sy_ns = ns, sy_threads = as @ Client_at cx # bs\<rparr> [] \<lparr>sy_ns = ns', sy_threads = as @ Calling cx k p # bs\<rparr>"
| return: "finish_call w ns k p r = (ns', outs) \<Longrightarrow>
     ns_step \<lparr>sy_ns = ns, sy_threads = as @ Calling cx k p # bs\<rparr> outs \<lparr>sy_ns = ns', sy_threads = as @ Client_at cx # bs\<rparr>"
| join: "ns_step \<lparr>sy_ns = ns, sy_threads = as @ Joining cx # bs\<rparr> []
     \<lparr>sy_ns = sync_start ns cx, sy_threads = as @ Syncing cx # bs\<rparr>"
| sync: "sync_message now ns cx raw = (ns', cx', outs, False) \<Longrightarrow>
     ns_step \<lparr>sy_ns = ns, sy_threads = as @ Syncing cx # bs\<rparr> outs \<lparr>sy_ns = ns', sy_threads = as @ Syncing cx' # bs\<rparr>"
| synced: "sync_message now ns cx raw = (ns', cx', outs, True) \<Longrightarrow>
     ns_step \<lparr>sy_ns = ns, sy_threads = as @ Syncing cx # bs\<rparr> outs \<lparr>sy_ns = ns', sy_threads = as @ Serving cx' # bs\<rparr>"
| serve: "command_message now ns cx raw = (ns', cx') \<Longrightarrow>
     ns_step \<lparr>sy_ns = ns, sy_threads = as @ Serving cx # bs\<rparr> [] \<lparr>sy_ns = ns', sy_threads = as @ Serving cx' # bs\<rparr>"
| client_gone: "ns_step \<lparr>sy_ns = ns, sy_threads = as @ Client_at cx # bs\<rparr> []
     \<lparr>sy_ns = connection_cleanup ns cx, sy_threads = as @ bs\<rparr>"
| ss_lost: "t = Syncing cx \<or> t = Serving cx \<Longrightarrow> ns_step \<lparr>sy_ns = ns, sy_threads = as @ t # bs\<rparr> []
     \<lparr>sy_ns = ss_connection_lost ns cx, sy_threads = as @ Leaving cx # bs\<rparr>"
| ss_gone: "ns_step \<lparr>sy_ns = ns, sy_threads = as @ Leaving cx # bs\<rparr> []
     \<lparr>sy_ns = connection_cleanup ns cx, sy_threads = as @ bs\<rparr>"

text \<open>The database at start-up is missing or one that the server could have saved.\<close>

definition db_ok :: "disk \<Rightarrow> bool" where
  "db_ok d \<longleftrightarrow> fopen_read d NS_DB_PATH = None \<or> (\<exists>ms. fopen_read d NS_DB_PATH = Some (db_text ms) \<and>
     (\<forall>m\<in>set ms. db_savable m) \<and> distinct (map fm_name ms) \<and> length ms \<le> NS_MAX_FILES)"

inductive ns_reachable :: "system \<Rightarrow> bool" where
  start: "db_ok d \<Longrightarrow> ns_reachable \<lparr>sy_ns = ns_init port d, sy_threads = []\<rparr>"
| step: "ns_reachable s \<Longrightarrow> ns_step s outs s' \<Longrightarrow> ns_reachable s'"

section \<open>The invariant of the whole server\<close>

definition command_state :: "command_result \<Rightarrow> name_server" where
  "command_state r = (case r of Inl (ns, outs) \<Rightarrow> ns | Inr (k, ns, p) \<Rightarrow> ns)"

lemma command_state_simps [simp]:
  "command_state (Inl (ns, outs)) = ns" "command_state (Inr (k, ns, p)) = ns"
  "command_state (Inl r) = fst r" "command_state (started k b) = begin_state b"
  by (simp_all add: command_state_def started_def begin_state_def split: sum.split prod.split)

text \<open>What a call under way relies on when its result arrives.\<close>

definition call_ok :: "name_server \<Rightarrow> call_kind \<Rightarrow> pending \<Rightarrow> bool" where
  "call_ok ns k p \<longleftrightarrow> (k = Add_call \<or> k = Rem_call \<longrightarrow> user_ok (pd_fields p ! 2)) \<and>
     (k = Approve_call \<longrightarrow> pd_request p < length (nm_requests ns))"

fun thread_ok :: "name_server \<Rightarrow> thread \<Rightarrow> bool" where
  "thread_ok ns (Calling cx k p) = call_ok ns k p"
| "thread_ok ns t = True"

definition system_ok :: "system \<Rightarrow> bool" where
  "system_ok s \<longleftrightarrow> ns_inv (sy_ns s) \<and> list_all (thread_ok (sy_ns s)) (sy_threads s)"

lemma thread_ok_grows: "grows ns ns' \<Longrightarrow> thread_ok ns t \<Longrightarrow> thread_ok ns' t"
  by (cases t) (auto simp: call_ok_def)

lemma threads_ok_grows: "grows ns ns' \<Longrightarrow> list_all (thread_ok ns) ts \<Longrightarrow> list_all (thread_ok ns') ts"
  using thread_ok_grows by (auto simp: list_all_iff)

lemma inv_fst:
  "ns_inv ns \<Longrightarrow> ns_inv (fst (ns_info ft ns cx f))" "ns_inv ns \<Longrightarrow> ns_inv (fst (ns_view_folder ns cx f))"
  "ns_inv ns \<Longrightarrow> ns_inv (fst (ns_req_loc now ns cx f))" "ns_inv ns \<Longrightarrow> ns_inv (fst (ns_request_access ns cx f))"
  "ns_inv ns \<Longrightarrow> ns_inv (fst (ns_reject ns cx f))"
  using inv_info inv_view_folder inv_req_loc inv_request_access inv_reject by (metis prod.collapse)+

lemma inv_command: "ns_inv ns \<Longrightarrow> ns_inv (command_state (client_command w ns cx raw))"
  by (simp add: client_command_def Let_def inv_fst inv_add_begin inv_rem_begin inv_approve_begin inv_create_begin
      inv_copy_begin inv_exec_begin inv_create_folder inv_move inv_delete)

lemma command_grows: "grows ns (command_state (client_command w ns cx raw))"
  by (simp add: client_command_def Let_def command_mail begin_mail)

lemma command_core: "server_core (command_state (client_command w ns cx raw)) = server_core ns"
  by (simp add: client_command_def Let_def command_mail begin_mail)

lemma add_begin_user: "ns_add_access_begin ns cx f = Inr (ns', p) \<Longrightarrow> user_ok (pd_fields p ! 2)"
  by (auto simp: ns_add_access_begin_def Let_def username_ok split: if_splits option.splits prod.splits)

lemma rem_begin_user: "ns_rem_access_begin ns cx f = Inr (ns', p) \<Longrightarrow> user_ok (pd_fields p ! 2)"
  by (auto simp: ns_rem_access_begin_def Let_def username_ok split: if_splits option.splits prod.splits)

lemma approve_begin_request:
  assumes "ns_approve_begin ns cx f = Inr (ns', p)"
  shows "pd_request p < length (nm_requests ns')"
proof -
  have "pd_request p < length (nm_requests ns)"
    using assms by (auto simp: ns_approve_begin_def Let_def split: if_splits option.splits prod.splits dest: first_index_bound)
  also have "\<dots> \<le> length (nm_requests ns')"
    using begin_mail(3) [of ns cx f] assms by simp
  finally show ?thesis .
qed

lemma started_Inr: "started k b = Inr (k', ns', p) \<longleftrightarrow> k' = k \<and> b = Inr (ns', p)"
  by (auto simp: started_def split: sum.splits)

lemma command_call_ok: "client_command w ns cx raw = Inr (k, ns', p) \<Longrightarrow> call_ok ns' k p"
  by (auto simp: client_command_def Let_def started_Inr call_ok_def add_begin_user rem_begin_user approve_begin_request
      split: if_splits)

lemma finish_mail:
  "grows ns (fst (finish_call w ns k p r))" "server_core (fst (finish_call w ns k p r)) = server_core ns"
  by (auto simp: finish_call_def ns_add_access_finish_def ns_rem_access_finish_def ns_approve_finish_def ns_create_finish_def
      ns_copy_finish_def ns_exec_finish_def Let_def split: call_kind.split option.split ss_result.split)

lemma inv_finish: "ns_inv ns \<Longrightarrow> call_ok ns k p \<Longrightarrow> ns_inv (fst (finish_call w ns k p r))"
  by (auto simp: finish_call_def call_ok_def inv_add_finish inv_rem_finish inv_approve_finish inv_create_finish inv_copy_finish
      inv_exec_finish split: call_kind.split)


section \<open>Connections and entries\<close>

text \<open>The user of a client thread and the descriptor and entry of a thread that serves a storage server.\<close>

primrec live_user :: "thread \<Rightarrow> cstring list" where
  "live_user (Client_at cx) = [cx_username cx]"
| "live_user (Calling cx k p) = [cx_username cx]"
| "live_user (Joining cx) = []"
| "live_user (Syncing cx) = []"
| "live_user (Serving cx) = []"
| "live_user (Leaving cx) = []"

primrec thread_socket :: "thread \<Rightarrow> (int \<times> nat option) list" where
  "thread_socket (Client_at cx) = []"
| "thread_socket (Calling cx k p) = []"
| "thread_socket (Joining cx) = [(cx_fd cx, cx_ss_info cx)]"
| "thread_socket (Syncing cx) = [(cx_fd cx, cx_ss_info cx)]"
| "thread_socket (Serving cx) = [(cx_fd cx, cx_ss_info cx)]"
| "thread_socket (Leaving cx) = []"

definition flags_ok :: "thread \<Rightarrow> bool" where
  "flags_ok t \<longleftrightarrow> (let cx = thread_cx t in 0 \<le> cx_fd cx \<and> cx_is_ss cx = (live_user t = []) \<and> cx_is_client cx = (live_user t \<noteq> []) \<and>
     (cx_is_client cx \<longrightarrow> cx_username cx \<noteq> []) \<and> (thread_socket t \<noteq> [] \<longrightarrow> cx_ss_info cx \<noteq> None))"

definition live_users :: "thread list \<Rightarrow> cstring list" where
  "live_users ts = concat (map live_user ts)"

definition thread_fds :: "thread list \<Rightarrow> int list" where
  "thread_fds ts = map (\<lambda>t. cx_fd (thread_cx t)) ts"

definition users_ok :: "client_info list \<Rightarrow> thread list \<Rightarrow> bool" where
  "users_ok cs ts \<longleftrightarrow> distinct (live_users ts) \<and> (\<forall>u\<in>set (live_users ts). \<exists>c\<in>set cs. ci_username c = u \<and> ci_connected c)"

definition sockets_ok :: "(nat \<times> int) list \<Rightarrow> thread list \<Rightarrow> bool" where
  "sockets_ok ids ts \<longleftrightarrow> distinct (thread_fds ts) \<and>
     (\<forall>(a, fd)\<in>set ids. fd = -1 \<or> (\<exists>t\<in>set ts. thread_socket t = [(fd, Some a)]))"

definition links_ok :: "name_server \<Rightarrow> thread list \<Rightarrow> bool" where
  "links_ok ns ts \<longleftrightarrow> list_all flags_ok ts \<and> users_ok (nm_clients ns) ts \<and> sockets_ok (server_ids ns) ts \<and>
     nm_next_addr ns = length (server_ids ns)"

lemma live_users_simps [simp]:
  "live_users [] = []" "live_users (t # ts) = live_user t @ live_users ts" "live_users (as @ bs) = live_users as @ live_users bs"
  "thread_fds [] = []" "thread_fds (t # ts) = cx_fd (thread_cx t) # thread_fds ts" "thread_fds (as @ bs) = thread_fds as @ thread_fds bs"
  by (simp_all add: live_users_def thread_fds_def)

lemma thread_fds_mem: "t \<in> set ts \<Longrightarrow> cx_fd (thread_cx t) \<in> set (thread_fds ts)"
  by (simp add: thread_fds_def)

lemma update_other_mem: "i \<noteq> j \<Longrightarrow> j < length xs \<Longrightarrow> xs ! j \<in> set (xs[i := x])"
  by (metis length_list_update nth_list_update_neq nth_mem)

lemma find_snoc: "find P xs = None \<Longrightarrow> P x \<Longrightarrow> find P (xs @ [x]) = Some x"
  by (induction xs) (auto split: if_splits)

lemma links_quiet:
  assumes "links_ok ns (as @ t # bs)" "server_core ns' = server_core ns"
    "thread_cx t' = thread_cx t" "live_user t' = live_user t" "thread_socket t' = thread_socket t"
  shows "links_ok ns' (as @ t' # bs)"
  using assms by (simp add: links_ok_def users_ok_def sockets_ok_def flags_ok_def server_core_def)

lemma links_core: "server_core ns' = server_core ns \<Longrightarrow> links_ok ns' ts = links_ok ns ts"
  by (simp add: links_ok_def server_core_def)

lemma links_drop:
  assumes "links_ok ns (as @ t # bs)" "thread_socket t = []" "live_user t = []"
  shows "links_ok ns (as @ bs)"
  using assms by (auto simp: links_ok_def users_ok_def sockets_ok_def)

lemma sync_core:
  "server_core (sync_start ns cx) = server_core ns"
  "sync_message now ns cx raw = (ns', cx', outs, b) \<Longrightarrow> server_core ns' = server_core ns"
  "command_message now ns cx raw = (ns', cx') \<Longrightarrow> server_core ns' = server_core ns"
proof -
  show 1: "server_core (sync_start ns cx) = server_core ns" for ns cx
    by (simp add: sync_start_def update_core split: option.split)
  have 2: "server_core (fst (ss_has_file now ns c g)) = server_core ns" for c g
    using 1 by (simp add: ss_has_file_def record_file_def Let_def case_prod_beta split: option.split)
  have "server_core (recalculate_load a ns) = server_core ns" for a
    by (simp add: recalculate_load_def update_core)
  then show "sync_message now ns cx raw = (ns', cx', outs, b) \<Longrightarrow> server_core ns' = server_core ns"
    using 2 by (auto simp: sync_message_def Let_def update_core split: if_splits prod.splits option.splits) (metis fst_conv)+
  have "server_core (write_complete now ns ss f) = server_core ns" for ss f
    by (simp add: write_complete_def Let_def update_core split: option.split)
  then show "command_message now ns cx raw = (ns', cx') \<Longrightarrow> server_core ns' = server_core ns"
    by (auto simp: command_message_def Let_def update_core split: if_splits)
qed

lemma sync_requests:
  "nm_requests (sync_start ns cx) = nm_requests ns"
  "sync_message now ns cx raw = (ns', cx', outs, b) \<Longrightarrow> nm_requests ns' = nm_requests ns"
  "command_message now ns cx raw = (ns', cx') \<Longrightarrow> nm_requests ns' = nm_requests ns"
proof -
  show 1: "nm_requests (sync_start ns cx) = nm_requests ns" for ns cx
    by (simp add: sync_start_def split: option.split)
  have 2: "nm_requests (fst (ss_has_file now ns c g)) = nm_requests ns" for c g
    using 1 by (simp add: ss_has_file_def record_file_def Let_def case_prod_beta enter_file_same split: option.split)
  have "nm_requests (recalculate_load a ns) = nm_requests ns" for a
    by (simp add: recalculate_load_def)
  then show "sync_message now ns cx raw = (ns', cx', outs, b) \<Longrightarrow> nm_requests ns' = nm_requests ns"
    using 2 by (auto simp: sync_message_def Let_def split: if_splits prod.splits option.splits) (metis fst_conv)+
  have "nm_requests (write_complete now ns ss f) = nm_requests ns" for ss f
    by (simp add: write_complete_def Let_def split: option.split)
  then show "command_message now ns cx raw = (ns', cx') \<Longrightarrow> nm_requests ns' = nm_requests ns"
    by (auto simp: command_message_def Let_def split: if_splits)
qed

lemma known_entry:
  assumes "cx_ss_info cx = Some a"
  shows "sync_message now ns cx raw = (ns', cx', outs, b) \<Longrightarrow> cx' = cx" "command_message now ns cx raw = (ns', cx') \<Longrightarrow> cx' = cx"
  using assms by (auto simp: sync_message_def command_message_def find_ss_entry_def ss_has_file_def Let_def
      split: if_splits prod.splits option.splits)

text \<open>What the handshake did, by the flags that it leaves.\<close>

lemma handshake_client:
  assumes "handshake now ns (new_connection fd ip port) raw = (ns', cx, outs)" "cx_is_client cx"
  obtains u where "validate_username u" "ns_register_client ns u fd = (ns', True)" "cx_username cx = u" "cx_fd cx = fd" "\<not> cx_is_ss cx"
proof -
  have b: "bounded_copy MAX_USERNAME_LENGTH u = u" if "validate_username u" for u
    using username_ok [OF that] by (simp add: bounded_copy_id)
  show ?thesis
    using assms that
    by (auto simp: handshake_def hello_client_def hello_ss_def new_connection_def Let_def b split: if_splits prod.splits bool.splits)
qed

lemma handshake_ss:
  assumes "handshake now ns (new_connection fd ip port) raw = (ns', cx, outs)" "cx_is_ss cx"
  obtains i p ci cp where "ns_register_storage_server now ns i p ci cp fd = (ns', True)" "cx_fd cx = fd" "\<not> cx_is_client cx"
    "cx_ss_info cx = find_storage_server_by_sockfd ns' fd"
  using assms that
  by (auto simp: handshake_def hello_client_def hello_ss_def new_connection_def Let_def split: if_splits prod.splits bool.splits)

lemma handshake_refused:
  assumes "handshake now ns (new_connection fd ip port) raw = (ns', cx, outs)" "\<not> cx_is_client cx" "\<not> cx_is_ss cx"
  shows "ns' = ns"
  using assms
  by (auto simp: handshake_def hello_client_def hello_ss_def new_connection_def Let_def ns_register_client_def
      ns_register_storage_server_def split: if_splits prod.splits bool.splits option.splits)

lemma registered_client:
  assumes "ns_register_client ns u fd = (ns', True)" "distinct (map ci_username (nm_clients ns))"
    "bounded_copy MAX_USERNAME_LENGTH u = u" and live: "\<forall>v\<in>set us. \<exists>c\<in>set (nm_clients ns). ci_username c = v \<and> ci_connected c"
  shows "u \<notin> set us \<and> (\<exists>c\<in>set (nm_clients ns'). ci_username c = u \<and> ci_connected c) \<and>
      (\<forall>v\<in>set us. \<exists>c\<in>set (nm_clients ns'). ci_username c = v \<and> ci_connected c)"
proof (cases "client_index u (nm_clients ns)")
  case None
  then have "u \<notin> ci_username ` set (nm_clients ns)"
    by (simp add: client_index_None)
  then show ?thesis
    using assms(1) None live assms(3) by (auto simp: ns_register_client_def split: if_splits)
next
  case (Some i)
  note i = client_index_Some [OF Some]
  have off: "\<not> ci_connected (nm_clients ns ! i)" and
    ns': "nm_clients ns' = (nm_clients ns)[i := (nm_clients ns ! i)\<lparr>ci_sockfd := fd, ci_connected := True\<rparr>]"
    using assms(1) Some by (auto simp: ns_register_client_def split: if_splits)
  have only: "c = nm_clients ns ! i" if c: "c \<in> set (nm_clients ns)" "ci_username c = u" for c
  proof -
    obtain j where "j < length (nm_clients ns)" "c = nm_clients ns ! j"
      using c(1) by (auto simp: in_set_conv_nth)
    then show ?thesis
      using assms(2) i c(2) by (auto simp: distinct_conv_nth)
  qed
  have "u \<notin> set us"
    using live only off by blast
  moreover have "\<exists>c\<in>set (nm_clients ns'). ci_username c = v \<and> ci_connected c" if v: "v \<in> set us" for v
  proof -
    obtain j where "j < length (nm_clients ns)" "ci_username (nm_clients ns ! j) = v" "ci_connected (nm_clients ns ! j)"
      using live v by (metis in_set_conv_nth)
    then show ?thesis
      using ns' off update_other_mem [of i j "nm_clients ns"] by (cases "i = j") auto
  qed
  moreover have "\<exists>c\<in>set (nm_clients ns'). ci_username c = u \<and> ci_connected c"
    unfolding ns' using i by (intro bexI [OF _ set_update_memI]) auto
  ultimately show ?thesis
    by blast
qed

lemma links_client_hello:
  assumes "links_ok ns ts" "registry_ok ns" "fresh_fd fd ts" "handshake now ns (new_connection fd ip port) raw = (ns', cx, outs)"
    "cx_is_client cx"
  shows "links_ok ns' (Client_at cx # ts)"
proof -
  obtain u where u: "validate_username u" "ns_register_client ns u fd = (ns', True)" "cx_username cx = u" "cx_fd cx = fd" "\<not> cx_is_ss cx"
    using handshake_client [OF assms(4,5)] .
  have b: "bounded_copy MAX_USERNAME_LENGTH u = u" "u \<noteq> []"
    using u(1) username_ok [OF u(1)] by (auto simp: bounded_copy_id validate_username_def)
  have same: "server_ids ns' = server_ids ns" "nm_next_addr ns' = nm_next_addr ns"
    using u(2) by (auto simp: ns_register_client_def server_ids_def split: option.splits if_splits)
  have live: "\<forall>v\<in>set (live_users ts). \<exists>c\<in>set (nm_clients ns). ci_username c = v \<and> ci_connected c" "distinct (live_users ts)"
    using assms(1) by (simp_all add: links_ok_def users_ok_def)
  note clients = registered_client [OF u(2) _ b(1) live(1)]
  have dist: "distinct (map ci_username (nm_clients ns))"
    using assms(2) by (simp add: registry_ok_def)
  have "fd \<notin> set (thread_fds ts)" "0 \<le> fd"
    using assms(3) by (auto simp: fresh_fd_def thread_fds_def)
  then show ?thesis
    using assms(1,5) u clients [OF dist] same b live by (auto simp: links_ok_def users_ok_def sockets_ok_def flags_ok_def Let_def)
qed

lemma socket_fd: "thread_socket t = [(fd, i)] \<Longrightarrow> cx_fd (thread_cx t) = fd \<and> cx_ss_info (thread_cx t) = i"
  by (cases t) auto

lemma links_ss_hello:
  assumes "links_ok ns ts" "fresh_fd fd ts" "handshake now ns (new_connection fd ip port) raw = (ns', cx, outs)" "cx_is_ss cx"
  shows "links_ok ns' (Joining cx # ts)"
proof -
  obtain i p ci cp where r: "ns_register_storage_server now ns i p ci cp fd = (ns', True)" "cx_fd cx = fd" "\<not> cx_is_client cx"
    "cx_ss_info cx = find_storage_server_by_sockfd ns' fd"
    using handshake_ss [OF assms(3,4)] .
  have same: "nm_clients ns' = nm_clients ns" "nm_next_addr ns' = nm_next_addr ns + 1"
    "server_ids ns' = server_ids ns @ [(nm_next_addr ns, fd)]"
    using r(1) by (auto simp: ns_register_storage_server_def server_ids_def storage_server_comm_init_def split: if_splits)
  have fd: "fd \<notin> set (thread_fds ts)" "0 \<le> fd"
    using assms(2) by (auto simp: fresh_fd_def thread_fds_def)
  have sock: "x \<in> set ts \<Longrightarrow> thread_socket x = [(g, b)] \<Longrightarrow> g \<in> set (thread_fds ts)" for x g b
    using socket_fd [of x g b] by (auto simp: thread_fds_def)
  have old: "si_sockfd s \<noteq> fd" if "s \<in> set (nm_servers ns)" for s
  proof -
    have "(si_addr s, si_sockfd s) \<in> set (server_ids ns)"
      using that by (simp add: server_ids_def)
    then have "si_sockfd s = -1 \<or> (\<exists>t\<in>set ts. thread_socket t = [(si_sockfd s, Some (si_addr s))])"
      using assms(1) by (fastforce simp: links_ok_def sockets_ok_def)
    then show ?thesis
      using fd sock by fastforce
  qed
  have "find (\<lambda>s. si_sockfd s = fd) (nm_servers ns) = None"
    using old by (simp add: find_None_iff)
  then have "find_storage_server_by_sockfd ns' fd = Some (nm_next_addr ns)"
    using r(1) by (auto simp: ns_register_storage_server_def find_storage_server_by_sockfd_def storage_server_comm_init_def
        find_snoc split: if_splits)
  then show ?thesis
    using assms(1,4) r same fd
    by (auto simp: links_ok_def users_ok_def sockets_ok_def flags_ok_def Let_def)
qed

lemma links_client_gone:
  assumes "links_ok ns (as @ Client_at cx # bs)"
  shows "links_ok (connection_cleanup ns cx) (as @ bs)"
proof -
  let ?u = "cx_username cx" and ?ts = "as @ bs"
  have fl: "cx_is_client cx" "\<not> cx_is_ss cx" "?u \<noteq> []"
    using assms by (simp_all add: links_ok_def flags_ok_def Let_def)
  have same: "server_ids (connection_cleanup ns cx) = server_ids ns" "nm_next_addr (connection_cleanup ns cx) = nm_next_addr ns"
    using fl by (auto simp: connection_cleanup_def ss_cleanup_connection_def release_client_def server_ids_def split: option.split)
  have live: "?u \<notin> set (live_users ?ts)" "\<forall>v\<in>set (live_users ?ts). \<exists>c\<in>set (nm_clients ns). ci_username c = v \<and> ci_connected c"
    using assms by (auto simp: links_ok_def users_ok_def)
  have "\<exists>c\<in>set (nm_clients (connection_cleanup ns cx)). ci_username c = v \<and> ci_connected c" if v: "v \<in> set (live_users ?ts)" for v
  proof (cases "client_index ?u (nm_clients ns)")
    case None
    then show ?thesis
      using fl live v by (auto simp: connection_cleanup_def ss_cleanup_connection_def release_client_def)
  next
    case (Some i)
    obtain j where j: "j < length (nm_clients ns)" "ci_username (nm_clients ns ! j) = v" "ci_connected (nm_clients ns ! j)"
      using live(2) v by (metis in_set_conv_nth)
    then have "i \<noteq> j"
      using client_index_Some [OF Some] live(1) v by auto
    then show ?thesis
      using fl Some j update_other_mem [of i j "nm_clients ns"]
      by (auto simp: connection_cleanup_def ss_cleanup_connection_def release_client_def)
  qed
  then show ?thesis
    using assms same by (auto simp: links_ok_def users_ok_def sockets_ok_def)
qed

lemma links_ss_lost:
  assumes "links_ok ns (as @ t # bs)" "t = Syncing cx \<or> t = Serving cx"
  shows "links_ok (ss_connection_lost ns cx) (as @ Leaving cx # bs)"
proof -
  obtain a where a: "cx_ss_info cx = Some a"
    using assms by (auto simp: links_ok_def flags_ok_def Let_def)
  have ids: "server_ids (ss_connection_lost ns cx) = map (\<lambda>(b, fd). (b, if b = a then -1 else fd)) (server_ids ns)"
    using a by (simp add: ss_connection_lost_def update_server_def server_ids_def storage_server_signal_failure_def Let_def)
  have same: "nm_clients (ss_connection_lost ns cx) = nm_clients ns" "nm_next_addr (ss_connection_lost ns cx) = nm_next_addr ns"
    using a by (simp_all add: ss_connection_lost_def update_server_def)
  have entries: "fd = -1 \<or> (\<exists>x\<in>set (as @ t # bs). thread_socket x = [(fd, Some b)])" if "(b, fd) \<in> set (server_ids ns)" for b fd
    using assms(1) that by (fastforce simp: links_ok_def sockets_ok_def)
  have "fd = -1 \<or> (\<exists>x\<in>set (as @ Leaving cx # bs). thread_socket x = [(fd, Some b)])"
    if "(b, fd) \<in> set (server_ids (ss_connection_lost ns cx))" for b fd
  proof (cases "b = a")
    case False
    then have "(b, fd) \<in> set (server_ids ns)"
      using that ids by auto
    then show ?thesis
      using entries [of b fd] assms(2) a False by auto
  qed (use that ids in auto)
  moreover have "distinct (thread_fds (as @ Leaving cx # bs))"
    using assms by (auto simp: links_ok_def sockets_ok_def)
  ultimately have "sockets_ok (server_ids (ss_connection_lost ns cx)) (as @ Leaving cx # bs)"
    unfolding sockets_ok_def by blast
  moreover have "users_ok (nm_clients ns) (as @ Leaving cx # bs)" "list_all flags_ok (as @ Leaving cx # bs)"
    using assms by (auto simp: links_ok_def users_ok_def flags_ok_def Let_def)
  ultimately show ?thesis
    using assms(1) ids same by (simp add: links_ok_def)
qed

text \<open>The connection that ends is no longer the socket of any entry, so that none is removed.\<close>

lemma links_ss_gone:
  assumes "links_ok ns (as @ Leaving cx # bs)"
  shows "connection_cleanup ns cx = ns"
proof -
  have fl: "\<not> cx_is_client cx" "0 \<le> cx_fd cx"
    using assms by (simp_all add: links_ok_def flags_ok_def Let_def)
  have "si_sockfd s \<noteq> cx_fd cx" if "s \<in> set (nm_servers ns)" for s
  proof -
    have "(si_addr s, si_sockfd s) \<in> set (server_ids ns)"
      using that by (simp add: server_ids_def)
    then have "si_sockfd s = -1 \<or> (\<exists>t\<in>set (as @ Leaving cx # bs). thread_socket t = [(si_sockfd s, Some (si_addr s))])"
      using assms by (fastforce simp: links_ok_def sockets_ok_def)
    moreover have "cx_fd (thread_cx t) \<noteq> cx_fd cx" if "t \<in> set (as @ bs)" for t
      using assms that thread_fds_mem [of t as] thread_fds_mem [of t bs] by (auto simp: links_ok_def sockets_ok_def)
    ultimately show ?thesis
      using fl socket_fd by fastforce
  qed
  then have "first_index (\<lambda>s. si_sockfd s = cx_fd cx) (nm_servers ns) = None"
    by (simp add: first_index_None)
  then show ?thesis
    using fl by (simp add: connection_cleanup_def release_client_def ss_cleanup_connection_def)
qed

text \<open>Every step keeps the links between the threads and the tables.\<close>

lemma links_step:
  assumes "ns_step s outs s'" "links_ok (sy_ns s) (sy_threads s)" "ns_inv (sy_ns s)"
  shows "links_ok (sy_ns s') (sy_threads s')"
  using assms
proof (induction s outs s' rule: ns_step.induct)
  case (client_hello fd ts now ns ip port raw ns' cx outs)
  then show ?case
    using links_client_hello by (simp add: ns_inv_def)
next
  case (ss_hello fd ts now ns ip port raw ns' cx outs)
  then show ?case
    using links_ss_hello by simp
next
  case (refused fd ts now ns ip port raw ns' cx outs)
  then show ?case
    using handshake_refused [OF refused(2-4)]
    by (simp add: connection_cleanup_def ss_cleanup_connection_def release_client_def)
next
  case (command w ns cx raw ns' outs as bs)
  then show ?case
    using command_core [of w ns cx raw] links_core [of ns' ns] by simp
next
  case (call w ns cx raw k ns' p as bs)
  then show ?case
    using command_core [of w ns cx raw] by (auto intro: links_quiet)
next
  case (return w ns k p r ns' outs as cx bs)
  then show ?case
    using finish_mail(2) [of w ns k p r] by (auto intro: links_quiet)
next
  case (join ns as cx bs)
  then show ?case
    using sync_core(1) by (auto intro: links_quiet)
next
  case (sync now ns cx raw ns' cx' outs as bs)
  then obtain a where "cx_ss_info cx = Some a"
    by (auto simp: links_ok_def flags_ok_def Let_def)
  then have "cx' = cx"
    using known_entry(1) sync(1) by blast
  then show ?case
    using sync sync_core(2) [OF sync(1)] by (auto intro: links_quiet)
next
  case (synced now ns cx raw ns' cx' outs as bs)
  then obtain a where "cx_ss_info cx = Some a"
    by (auto simp: links_ok_def flags_ok_def Let_def)
  then have "cx' = cx"
    using known_entry(1) synced(1) by blast
  then show ?case
    using synced sync_core(2) [OF synced(1)] by (auto intro: links_quiet)
next
  case (serve now ns cx raw ns' cx' as bs)
  then obtain a where "cx_ss_info cx = Some a"
    by (auto simp: links_ok_def flags_ok_def Let_def)
  then have "cx' = cx"
    using known_entry(2) serve(1) by blast
  then show ?case
    using serve sync_core(3) [OF serve(1)] by (auto intro: links_quiet)
next
  case (client_gone ns as cx bs)
  then show ?case
    using links_client_gone by simp
next
  case (ss_lost t cx ns as bs)
  then show ?case
    using links_ss_lost by simp
next
  case (ss_gone ns as cx bs)
  then show ?case
    using links_ss_gone links_drop [of ns as "Leaving cx" bs] by simp
qed

lemma system_ok_step:
  assumes "ns_step s outs s'" "system_ok s"
  shows "system_ok s'"
proof -
  have move: "list_all (thread_ok ns') (as @ t' # bs)"
    if "list_all (thread_ok ns) (as @ t # bs)" "grows ns ns'" "thread_ok ns' t'" for as bs t t' ns ns'
    using that threads_ok_grows [of ns ns'] by simp
  show ?thesis
    using assms
  proof (induction s outs s' rule: ns_step.induct)
    case (client_hello fd ts now ns ip port raw ns' cx outs)
    then show ?case
      using inv_handshake [OF _ client_hello(2)] hello_frame [OF client_hello(2)] threads_ok_grows [of ns ns' ts] by (simp add: system_ok_def)
  next
    case (ss_hello fd ts now ns ip port raw ns' cx outs)
    then show ?case
      using inv_handshake [OF _ ss_hello(2)] hello_frame [OF ss_hello(2)] threads_ok_grows [of ns ns' ts] by (simp add: system_ok_def)
  next
    case (refused fd ts now ns ip port raw ns' cx outs)
    then show ?case
      using handshake_refused [OF refused(2-4)] inv_cleanup [of ns cx] cleanup_frame(4) [of ns cx]
        threads_ok_grows [of ns "connection_cleanup ns cx" ts] by (simp add: system_ok_def)
  next
    case (command w ns cx raw ns' outs as bs)
    then show ?case
      using inv_command [of ns w cx raw] command_grows [of ns w cx raw] threads_ok_grows [of ns ns'] by (simp add: system_ok_def)
  next
    case (call w ns cx raw k ns' p as bs)
    then show ?case
      using inv_command [of ns w cx raw] command_grows [of ns w cx raw] threads_ok_grows [of ns ns'] command_call_ok [OF call(1)]
      by (simp add: system_ok_def)
  next
    case (return w ns k p r ns' outs as cx bs)
    then show ?case
      using inv_finish [of ns k p w r] finish_mail(1) [of ns w k p r] threads_ok_grows [of ns ns'] by (simp add: system_ok_def)
  next
    case (join ns as cx bs)
    then show ?case
      using inv_find_entry [of ns cx] sync_requests(1) [of ns cx] threads_ok_grows [of ns "sync_start ns cx"] by (simp add: system_ok_def)
  next
    case (sync now ns cx raw ns' cx' outs as bs)
    then show ?case
      using inv_sync_message [OF _ sync(1)] sync_requests(2) [OF sync(1)] threads_ok_grows [of ns ns'] by (simp add: system_ok_def)
  next
    case (synced now ns cx raw ns' cx' outs as bs)
    then show ?case
      using inv_sync_message [OF _ synced(1)] sync_requests(2) [OF synced(1)] threads_ok_grows [of ns ns'] by (simp add: system_ok_def)
  next
    case (serve now ns cx raw ns' cx' as bs)
    then show ?case
      using inv_command_message [of ns now cx raw] sync_requests(3) [OF serve(1)] threads_ok_grows [of ns ns'] by (simp add: system_ok_def)
  next
    case (client_gone ns as cx bs)
    then show ?case
      using inv_cleanup [of ns cx] cleanup_frame(4) [of ns cx] threads_ok_grows [of ns "connection_cleanup ns cx"]
      by (simp add: system_ok_def)
  next
    case (ss_lost t cx ns as bs)
    have "nm_requests (ss_connection_lost ns cx) = nm_requests ns"
      by (simp add: ss_connection_lost_def split: option.split)
    then show ?case
      using ss_lost inv_connection_lost [of ns cx] threads_ok_grows [of ns "ss_connection_lost ns cx"] by (simp add: system_ok_def)
  next
    case (ss_gone ns as cx bs)
    then show ?case
      using inv_cleanup [of ns cx] cleanup_frame(4) [of ns cx] threads_ok_grows [of ns "connection_cleanup ns cx"]
      by (simp add: system_ok_def)
  qed
qed

section \<open>Reachable states\<close>

lemma load_line_core:
  "server_core (fst (load_db_line st l)) = server_core (fst st)" "nm_requests (fst (load_db_line st l)) = nm_requests (fst st)"
  by (simp_all add: load_db_line_def case_prod_beta Let_def file_index_insert_def split: option.split)

lemma load_loop_core:
  "server_core (fst (load_db_loop st ls)) = server_core (fst st) \<and> nm_requests (fst (load_db_loop st ls)) = nm_requests (fst st)"
  by (induction st ls rule: load_db_loop.induct) (simp_all add: load_line_core)

lemma init_core:
  "server_core (ns_init port d) = ([], [], 0)" "nm_requests (ns_init port d) = []"
proof -
  have "server_core (ns_init port d) = server_core (empty_name_server port d)"
    by (simp add: ns_init_def ns_load_metadata_def Let_def ns_clear_file_index_def load_loop_core split: option.split list.split)
  then show "server_core (ns_init port d) = ([], [], 0)"
    by (simp add: empty_name_server_def server_core_def server_ids_def)
  show "nm_requests (ns_init port d) = []"
    by (simp add: ns_init_def ns_load_metadata_def Let_def ns_clear_file_index_def load_loop_core empty_name_server_def
        split: option.split list.split)
qed

lemma recovered_rights: "list_all rights_ok ms \<Longrightarrow> list_all rights_ok (recovered k ms) \<and> length (recovered k ms) \<le> length ms"
  by (induction ms arbitrary: k) (auto simp: without_rights_def rights_ok_def)

lemma init_inv:
  assumes "db_ok d"
  shows "ns_inv (ns_init port d)"
proof -
  let ?ns = "empty_name_server port d"
  have files: "files_ok (ns_init port d)"
  proof (cases "fopen_read d NS_DB_PATH")
    case None
    then have "ns_init port d = ?ns"
      by (simp add: ns_init_def ns_load_metadata_def empty_name_server_def)
    then show ?thesis
      using table_ok_empty [of ?ns] by (simp add: files_ok_def empty_name_server_def)
  next
    case (Some content)
    then obtain ms where ms: "fopen_read d NS_DB_PATH = Some (db_text ms)" "\<forall>m\<in>set ms. db_savable m" "distinct (map fm_name ms)"
      "length ms \<le> NS_MAX_FILES"
      using assms by (auto simp: db_ok_def)
    have "list_all rights_ok ms"
      using ms(2) by (simp add: list_all_iff db_savable_def)
    then show ?thesis
      using load_saved_db [OF ms(2-4), of ?ns] ms recovered_rights [of ms 0]
      by (simp add: files_ok_def ns_init_def empty_name_server_def)
  qed
  have "registry_ok (ns_init port d)" "requests_ok (ns_init port d)"
    using init_core [of port d] by (simp_all add: server_core_def server_ids_def registry_ok_def requests_ok_def)
  then show ?thesis
    using files by (simp add: ns_inv_def)
qed

lemma reachable_ok:
  assumes "ns_reachable s"
  shows "system_ok s \<and> links_ok (sy_ns s) (sy_threads s)"
  using assms
proof (induction rule: ns_reachable.induct)
  case (start d port)
  then show ?case
    using init_inv [of d port] init_core [of port d]
    by (simp add: system_ok_def links_ok_def users_ok_def sockets_ok_def server_core_def)
next
  case (step s outs s')
  then show ?case
    using system_ok_step links_step by (simp add: system_ok_def)
qed

end
