(* ===== verification/NS_Properties.thy ===== *)
theory NS_Properties
  imports NS_Server
begin

text \<open>
  What the name server guarantees in every reachable state: sound tables, lookups that agree
  with the table, one connection per user, a bounded registry.  \<open>demo_ns_reachable\<close> is a
  state with one client and one folder on which the properties are instantiated.
\<close>

section \<open>A small system\<close>

definition demo_dir :: disk where
  "demo_dir = \<lparr>dk_files = Map.empty, dk_dirs = [''.''], dk_denied = (\<lambda>p. False), dk_limit = Map.empty\<rparr>"

definition demo_world :: surroundings where
  "demo_world = \<lparr>now_is = 5, time_zone = (\<lambda>t. 0), run_shell = (\<lambda>c. None), answers = (\<lambda>a c. Failed (-1))\<rparr>"

definition demo_ann :: connection where
  "demo_ann = (new_connection 4 ''10.0.0.9'' 4000)\<lparr>cx_is_client := True, cx_username := ''ann''\<rparr>"

definition demo_docs :: file_metadata where
  "demo_docs = (new_entry 5 ''docs'' ''ann'')\<lparr>fm_is_directory := True\<rparr>"

lemma demo_messages:
  "msg_fields (protocol_parse_message ''HELLO_CLIENT|ann'') = [''HELLO_CLIENT'', ''ann'']"
  "msg_fields (protocol_parse_message ''CREATEFOLDER|docs'') = [''CREATEFOLDER'', ''docs'']"
  by (simp_all add: parse_line PROTOCOL_DELIMITER_def MAX_MESSAGE_SIZE_def MAX_FIELDS_def strip_terminator_def newline_def)

lemma demo_names:
  "validate_username ''ann''" "ns_validate_logical_path ''docs''"
  "ns_split_parent_child MAX_FILENAME_LENGTH ''docs'' = Some ([], ''docs'')"
  "bounded_copy MAX_USERNAME_LENGTH ''ann'' = ''ann''" "bounded_copy MAX_FILENAME_LENGTH ''docs'' = ''docs''"
  by code_simp+

lemma demo_init: "db_ok demo_dir" "ns_init 8000 demo_dir = empty_name_server 8000 demo_dir"
  by (simp_all add: db_ok_def ns_init_def ns_load_metadata_def demo_dir_def empty_name_server_def fopen_read_def)

lemma demo_hello:
  obtains ns outs where "handshake 5 (ns_init 8000 demo_dir) (new_connection 4 ''10.0.0.9'' 4000) ''HELLO_CLIENT|ann'' = (ns, demo_ann, outs)"
    "nm_files ns = []"
  using that
  by (simp add: demo_init handshake_def demo_messages demo_names hello_client_def new_connection_def demo_ann_def ns_register_client_def
      empty_name_server_def NS_MAX_CLIENTS_def)

lemma demo_folder:
  assumes "ns_inv ns" "nm_files ns = []"
  obtains ns' outs where "client_command demo_world ns demo_ann ''CREATEFOLDER|docs'' = Inl (ns', outs)"
    "nm_files ns' = [demo_docs]"
proof -
  obtain ns1 r where look: "file_lookup_locked ns ''docs'' = (ns1, r)"
    by fastforce
  have r: "r = None"
    using lookup_inv(2) [OF look assms(1)] assms(2) by (simp add: first_index_None)
  have files: "nm_files (enter_file ns1 m ''docs'') = [m]" if "fm_name m = ''docs''" "rights_ok m" for m
    using inv_enter_file(2) [OF lookup_inv(1) [OF look assms(1)] that(1), of] lookup_same(1) [OF look] assms(2) that
      valid_path_name_ok [OF demo_names(2)]
    by (simp add: file_names_def NS_MAX_FILES_def)
  show ?thesis
    using that files demo_messages demo_names look r assms(2)
    by (simp add: client_command_def Let_def ns_create_folder_def demo_ann_def demo_docs_def demo_world_def NS_MAX_FILES_def new_connection_def)
qed

lemma demo_ns_reachable:
  obtains s where "ns_reachable s" "sy_threads s = [Client_at demo_ann]" "nm_files (sy_ns s) = [demo_docs]"
proof -
  obtain ns outs where hello: "handshake 5 (ns_init 8000 demo_dir) (new_connection 4 ''10.0.0.9'' 4000) ''HELLO_CLIENT|ann'' = (ns, demo_ann, outs)"
    "nm_files ns = []"
    using demo_hello .
  have "ns_step \<lparr>sy_ns = ns_init 8000 demo_dir, sy_threads = []\<rparr> outs \<lparr>sy_ns = ns, sy_threads = [Client_at demo_ann]\<rparr>"
    by (rule client_hello [OF _ hello(1)]) (simp_all add: fresh_fd_def demo_ann_def)
  then have r: "ns_reachable \<lparr>sy_ns = ns, sy_threads = [] @ Client_at demo_ann # []\<rparr>"
    using start [OF demo_init(1)] step by fastforce
  then have "ns_inv ns"
    using reachable_ok by (fastforce simp: system_ok_def)
  then obtain ns' outs' where "client_command demo_world ns demo_ann ''CREATEFOLDER|docs'' = Inl (ns', outs')"
    "nm_files ns' = [demo_docs]"
    using demo_folder hello(2) by blast
  then show ?thesis
    using step [OF r command] that [of "\<lparr>sy_ns = ns', sy_threads = [] @ Client_at demo_ann # []\<rparr>"] by simp
qed

lemma demo_docs_name [simp]: "fm_name demo_docs = ''docs''"
  by (simp add: demo_docs_def demo_names)

section \<open>Reachable states\<close>

text \<open>C5. In every reachable state of the name server the table, the hash index and the cache agree, the
  rights of every file are well formed, addresses, users and request numbers are unique,
  and no array has more entries than its size.\<close>

theorem reachable_tables_sound:
  assumes "ns_reachable s"
  shows "ns_inv (sy_ns s)"
  using reachable_ok [OF assms] by (simp add: system_ok_def)

theorem reachable_tables_sound_witness:
  "\<exists>s. ns_reachable s \<and> nm_files (sy_ns s) = [demo_docs] \<and> ns_inv (sy_ns s)"
  using demo_ns_reachable reachable_tables_sound by metis

text \<open>In every reachable state a lookup through cache and hash index gives the position of the name in
  the table, or nothing when the name is not there, and the table stays as it is.\<close>

theorem lookup_agrees_with_table:
  assumes "ns_reachable s"
  shows "snd (file_lookup_locked (sy_ns s) f) = first_index (\<lambda>m. fm_name m = f) (nm_files (sy_ns s)) \<and>
    nm_files (fst (file_lookup_locked (sy_ns s) f)) = nm_files (sy_ns s)"
proof
  have inv: "ns_inv (sy_ns s)"
    using reachable_ok [OF assms] by (simp add: system_ok_def)
  show "snd (file_lookup_locked (sy_ns s) f) = first_index (\<lambda>m. fm_name m = f) (nm_files (sy_ns s))"
    by (rule lookup_inv(2) [OF prod.collapse [symmetric] inv])
  show "nm_files (fst (file_lookup_locked (sy_ns s) f)) = nm_files (sy_ns s)"
    by (rule lookup_same(1) [OF prod.collapse [symmetric]])
qed

theorem lookup_agrees_with_table_witness:
  "\<exists>s. ns_reachable s \<and> snd (file_lookup_locked (sy_ns s) ''docs'') = Some 0 \<and> snd (file_lookup_locked (sy_ns s) ''other'') = None"
proof -
  obtain s where s: "ns_reachable s" "nm_files (sy_ns s) = [demo_docs]"
    using demo_ns_reachable by metis
  then show ?thesis
    using lookup_agrees_with_table [OF s(1), of "''docs''"] lookup_agrees_with_table [OF s(1), of "''other''"]
    by (intro exI [of _ s]) (simp add: first_index_None)
qed

text \<open>C29. In every reachable state the users of the live client connections are pairwise different, and each of
  them is marked as connected in the table of clients.\<close>

theorem one_connection_per_user:
  assumes "ns_reachable s"
  shows "distinct (live_users (sy_threads s)) \<and>
    (\<forall>u\<in>set (live_users (sy_threads s)). \<exists>c\<in>set (nm_clients (sy_ns s)). ci_username c = u \<and> ci_connected c)"
  using reachable_ok [OF assms] by (simp add: links_ok_def users_ok_def)

theorem one_connection_per_user_witness:
  "\<exists>s. ns_reachable s \<and> live_users (sy_threads s) = [''ann''] \<and> (\<exists>c\<in>set (nm_clients (sy_ns s)). ci_username c = ''ann'' \<and> ci_connected c)"
proof -
  obtain s where s: "ns_reachable s" "sy_threads s = [Client_at demo_ann]"
    using demo_ns_reachable by metis
  then have "live_users (sy_threads s) = [''ann'']"
    by (simp add: demo_ann_def)
  then show ?thesis
    using s(1) one_connection_per_user [OF s(1)] by auto
qed

text \<open>C35. The registry of storage servers never loses an entry, not even when a server disconnects: its size is
  the number of registrations since the start.  So at most 100 registrations ever succeed.\<close>

theorem registrations_bounded:
  assumes "ns_reachable s"
  shows "length (nm_servers (sy_ns s)) = nm_next_addr (sy_ns s) \<and> nm_next_addr (sy_ns s) \<le> NS_MAX_STORAGE_SERVERS"
  using reachable_ok [OF assms] by (simp_all add: links_ok_def server_ids_def system_ok_def ns_inv_def registry_ok_def)

theorem registrations_bounded_witness: "\<exists>s. ns_reachable s \<and> nm_next_addr (sy_ns s) \<le> 100"
proof -
  obtain s where "ns_reachable s"
    using demo_ns_reachable by metis
  then show ?thesis
    using registrations_bounded [of s] by (auto simp: NS_MAX_STORAGE_SERVERS_def)
qed

end
