(* ===== verification/NS_Service_Properties.thy ===== *)
theory NS_Service_Properties
  imports NS_Properties
begin

text \<open>
  What single services of the name server guarantee: the database survives a restart, a location
  is only given to users with the right, the least loaded storage server gets a new file, the
  table of files implements a map, and what a failed CREATE or ADDACCESS leaves behind.
\<close>

section \<open>A table with one file\<close>

definition demo_file :: file_metadata where
  "demo_file = (new_entry 5 ''a'' ''ann'')\<lparr>fm_ss_ip := ''10.0.0.2'', fm_ss_port := 9001, fm_read_users := [''bob'']\<rparr>"

lemma demo_file_parts [simp]: "fm_name demo_file = ''a''" "fm_owner demo_file = ''ann''" "fm_read_users demo_file = [''bob'']"
    "fm_write_users demo_file = []" "fm_ss_ip demo_file = ''10.0.0.2''" "fm_ss_port demo_file = 9001"
  by (simp_all add: demo_file_def new_entry_def zero_metadata_def bounded_copy_id MAX_FILENAME_LENGTH_def MAX_USERNAME_LENGTH_def)

lemma demo_file_rights: "rights_ok demo_file"
  by (simp add: rights_ok_def ns_acl_wf_def names_wf_def NS_MAX_CLIENTS_def MAX_USERNAME_LENGTH_def)

lemma demo_empty: "ns_inv (empty_name_server 8000 demo_dir)" "nm_files (empty_name_server 8000 demo_dir) = []"
  using reachable_ok [OF start [OF demo_init(1), of 8000]] by (simp_all add: system_ok_def demo_init(2) empty_name_server_def)

lemma demo_one_file:
  obtains ns where "ns_inv ns" "nm_files ns = [demo_file]" "nm_disk ns = demo_dir"
proof -
  let ?ns0 = "empty_name_server 8000 demo_dir"
  note i = demo_empty
  have "name_ok ''a''"
    by (simp add: name_ok_def MAX_FILENAME_LENGTH_def)
  then have "ns_inv (enter_file ?ns0 demo_file ''a'')" "nm_files (enter_file ?ns0 demo_file ''a'') = [demo_file]"
    using inv_enter_file [OF i(1), of demo_file "''a''"] i(2) demo_file_rights by (simp_all add: file_names_def NS_MAX_FILES_def)
  moreover have "nm_disk (enter_file ?ns0 demo_file ''a'') = demo_dir"
    using cache_store_frame [of "fst (file_index_insert (?ns0\<lparr>nm_files := [demo_file]\<rparr>) ''a'' 0)" "''a''" 0] i(2)
    by (auto simp: enter_file_def file_index_insert_def empty_name_server_def)
  ultimately show ?thesis
    using that by blast
qed

lemma table_names_distinct: "ns_inv ns \<Longrightarrow> distinct (file_names ns)"
  by (simp add: ns_inv_def files_ok_def table_okD)

section \<open>Restart\<close>


lemma demo_file_line: "hd (db_lines demo_file) = ''FILE|a|ann|10.0.0.2|9001|0|0|0|5|5|5|0|ann|ann''"
proof -
  have digits: "show_int 9001 = ''9001''" "show_int 0 = ''0''" "show_int 5 = ''5''"
    by (simp_all add: show_int_def show_nat_def dec_digits.simps digit_char_def) code_simp+
  show ?thesis
    by (simp add: db_lines_def db_fields_def demo_file_def new_entry_def zero_metadata_def user_or_na_def digits
      bounded_copy_id MAX_FILENAME_LENGTH_def MAX_USERNAME_LENGTH_def)
qed

lemma demo_file_savable: "db_savable demo_file"
proof -
  have names: "validate_filename ''a''" "validate_username ''bob''"
    by code_simp+
  have line: "file_line (MAX_FIELD_SIZE * 2) (hd (db_lines demo_file))"
    unfolding demo_file_line by (simp add: file_line_def is_space_def newline_def MAX_FIELD_SIZE_def)
  have strings: "db_string MAX_USERNAME_LENGTH ''ann''" "db_string MAX_IP_LENGTH ''10.0.0.2''"
    by (simp_all add: db_string_def MAX_USERNAME_LENGTH_def MAX_IP_LENGTH_def)
  have rest: "fm_last_access_user demo_file = ''ann''" "fm_last_modified_user demo_file = ''ann''" "fm_size demo_file = 0"
      "fm_word_count demo_file = 0" "fm_char_count demo_file = 0" "fm_created demo_file = 5" "fm_modified demo_file = 5"
      "fm_last_access demo_file = 5"
    by (simp_all add: demo_file_def new_entry_def zero_metadata_def bounded_copy_id MAX_USERNAME_LENGTH_def)
  show ?thesis
    using names line strings demo_file_rights
    by (simp add: db_savable_def rest INT_MIN_I_def INT_MAX_I_def LONG_MIN_I_def LONG_MAX_I_def join_commas_def MAX_FIELD_SIZE_def)
qed


section \<open>Locations\<close>

text \<open>The operations that write.\<close>

definition writing_operation :: "cstring \<Rightarrow> bool" where
  "writing_operation operation \<longleftrightarrow>
     strcasecmp_eq operation ''WRITE'' \<or> strcasecmp_eq operation ''CHECKPOINT'' \<or> strcasecmp_eq operation ''REVERT''"

lemma operations_differ:
  "distinct (map (map to_lower) [''READ'', ''STREAM'', ''WRITE'', ''CHECKPOINT'', ''REVERT'', ''VIEWCHECKPOINT'', ''LISTCHECKPOINTS'', []])"
  by code_simp

lemma writing_needs_write: "writing_operation operation \<Longrightarrow> loc_access operation m u = Some (file_has_write_access m u)"
  using operations_differ by (auto simp: writing_operation_def loc_access_def strcasecmp_eq_def)

text \<open>C9. A location query is answered with the address of a storage server only for a file in the table and only
  to a user who may read it, and for WRITE, CHECKPOINT and REVERT only to one who may write it; every other answer is an
  error and leaves the table as it is.\<close>

theorem location_needs_right:
  assumes "ns_inv ns" "ns_req_loc now ns cx [cmd, operation, fname] = (ns', outs)"
  shows "(\<exists>m\<in>set (nm_files ns). fm_name m = fname \<and>
      outs = ns_send (cx_fd cx) [''OK_LOC'', fname, fm_ss_ip m, bounded_copy 16 (show_int (fm_ss_port m))] \<and>
      file_has_read_access m (cx_username cx) \<and> (writing_operation operation \<longrightarrow> file_has_write_access m (cx_username cx))) \<or>
    (nm_files ns' = nm_files ns \<and> (\<exists>code detail. outs = send_error_and_log (cx_fd cx) code detail))"
proof -
  obtain ns1 found where look: "file_lookup_locked ns fname = (ns1, found)"
    by fastforce
  have same: "nm_files ns1 = nm_files ns"
    using lookup_same(1) [OF look] .
  have weak: "file_has_write_access m u \<Longrightarrow> file_has_read_access m u" for m u
    by (auto simp: file_has_write_access_def file_has_read_access_def)
  show ?thesis
  proof (cases found)
    case None
    then show ?thesis
      using assms(2) look same by (auto simp: ns_req_loc_def split: if_splits)
  next
    case (Some k)
    have k: "k < length (nm_files ns)" "fm_name (nm_files ns ! k) = fname"
      using lookup_inv(3) [OF look assms(1) Some] by simp_all
    show ?thesis
    proof (cases "loc_access operation (nm_files ns ! k) (cx_username cx) = Some True \<and> validate_filename fname \<and> cx_username cx \<noteq> []")
      case True
      then have "file_has_read_access (nm_files ns ! k) (cx_username cx) \<and>
          (writing_operation operation \<longrightarrow> file_has_write_access (nm_files ns ! k) (cx_username cx))"
        using weak writing_needs_write [of operation] by (auto simp: loc_access_def split: if_splits)
      moreover have "outs = ns_send (cx_fd cx) [''OK_LOC'', fname, fm_ss_ip (nm_files ns ! k),
          bounded_copy 16 (show_int (fm_ss_port (nm_files ns ! k)))]"
        using assms(2) look same True Some k(2) by (auto simp: ns_req_loc_def Let_def stamp_access_def)
      ultimately show ?thesis
        using k nth_mem by blast
    next
      case False
      then show ?thesis
        using assms(2) look same Some by (auto simp: ns_req_loc_def Let_def split: if_splits option.splits bool.splits)
    qed
  qed
qed

theorem location_needs_right_witness:
  "\<exists>ns. nm_files ns = [demo_file] \<and>
     nm_files (fst (ns_req_loc 6 ns (demo_ann\<lparr>cx_username := ''eve''\<rparr>) [''REQ_LOC'', ''READ'', ''a''])) = [demo_file]"
proof -
  obtain ns where ns: "ns_inv ns" "nm_files ns = [demo_file]" "nm_disk ns = demo_dir"
    using demo_one_file .
  let ?cx = "demo_ann\<lparr>cx_username := ''eve''\<rparr>"
  have "\<not> file_has_read_access demo_file ''eve''"
    by (simp add: file_has_read_access_def file_acl_contains_def strncmp_eq_def MAX_USERNAME_LENGTH_def)
  then have "nm_files (fst (ns_req_loc 6 ns ?cx [''REQ_LOC'', ''READ'', ''a''])) = [demo_file]"
    using location_needs_right [OF ns(1) prod.collapse [symmetric], where now = 6 and cx = ?cx and cmd = "''REQ_LOC''" and operation = "''READ''" and fname = "''a''"] ns(2) by auto
  then show ?thesis
    using ns(2) by blast
qed

section \<open>The table as a map\<close>

definition table_map :: "name_server \<Rightarrow> cstring \<rightharpoonup> file_metadata" where
  "table_map ns = map_of (map (\<lambda>m. (fm_name m, m)) (nm_files ns))"

lemma table_map_iff:
  assumes "ns_inv ns"
  shows "table_map ns f = Some m \<longleftrightarrow> m \<in> set (nm_files ns) \<and> fm_name m = f"
proof -
  have "distinct (map fst (map (\<lambda>m. (fm_name m, m)) (nm_files ns)))"
    using table_names_distinct [OF assms] by (simp add: file_names_def comp_def)
  then show ?thesis
    unfolding table_map_def by (subst map_of_eq_Some_iff) auto
qed

lemma map_eqI: "(\<And>x y. f x = Some y \<longleftrightarrow> g x = Some y) \<Longrightarrow> f = g"
  by (rule ext) (metis not_Some_eq)

lemma table_map_cong: "nm_files ns' = nm_files ns \<Longrightarrow> table_map ns' = table_map ns"
  by (simp add: table_map_def)

lemma table_map_None: "ns_inv ns \<Longrightarrow> table_map ns f = None \<longleftrightarrow> f \<notin> set (file_names ns)"
  by (simp add: table_map_def map_of_eq_None_iff file_names_def image_image)

lemma table_map_remove:
  assumes "ns_inv ns"
  shows "table_map (fst (remove_file_metadata_locked ns f)) = (table_map ns)(f := None)"
  by (rule map_eqI) (use table_map_iff [OF inv_remove(1) [OF assms]] table_map_iff [OF assms] inv_remove(2) [OF assms] in auto)

lemma table_map_removed:
  assumes "ns_inv ns"
  shows "snd (remove_file_metadata_locked ns f) \<longleftrightarrow> f \<in> dom (table_map ns)"
proof (cases "first_index (\<lambda>m. fm_name m = f) (nm_files ns)")
  case None
  then have "f \<notin> set (file_names ns)"
    by (auto simp: first_index_None file_names_def)
  then show ?thesis
    using remove_spec [of ns f] assms None table_map_None [OF assms, of f] by (simp add: ns_inv_def files_ok_def domIff)
next
  case (Some k)
  then have "f \<in> set (file_names ns)"
    using first_index_bound [OF Some] by (auto simp: file_names_def)
  then show ?thesis
    using remove_spec [of ns f] assms Some table_map_None [OF assms, of f] by (simp add: ns_inv_def files_ok_def domIff)
qed

lemma table_map_enter:
  assumes "ns_inv ns" "fm_name m = f" "f \<notin> set (file_names ns)" "name_ok f" "rights_ok m" "length (nm_files ns) < NS_MAX_FILES"
  shows "table_map (enter_file ns m f) = (table_map ns)(f \<mapsto> m)"
proof (rule map_eqI)
  fix g y
  have "table_map (enter_file ns m f) g = Some y \<longleftrightarrow> (y = m \<or> y \<in> set (nm_files ns)) \<and> fm_name y = g"
    using table_map_iff [OF inv_enter_file(1) [OF assms], of g y] inv_enter_file(2) [OF assms] by auto
  moreover have "y \<in> set (nm_files ns) \<Longrightarrow> fm_name y \<noteq> f"
    using assms(3) by (auto simp: file_names_def)
  ultimately show "table_map (enter_file ns m f) g = Some y \<longleftrightarrow> ((table_map ns)(f \<mapsto> m)) g = Some y"
    using table_map_iff [OF assms(1), of g y] assms(2) by auto
qed

lemma table_map_replace:
  assumes "ns_inv ns" "k < length (nm_files ns)" "fm_name (nm_files ns ! k) = f" "nm_files ns' = (nm_files ns)[k := m]" "fm_name m = f"
  shows "table_map ns' = (table_map ns)(f \<mapsto> m)"
proof -
  have names: "map fm_name (nm_files ns') = map fm_name (nm_files ns)"
    using assms(2,3,5) by (simp add: assms(4) map_update list_update_same_conv)
  have d: "distinct (map fm_name (nm_files ns))"
    using table_names_distinct [OF assms(1)] by (simp add: file_names_def)
  have at: "table_map st (fm_name (nm_files st ! i)) = Some (nm_files st ! i)"
    if "distinct (map fm_name (nm_files st))" "i < length (nm_files st)" for st i
    using that by (simp add: table_map_def comp_def)
  show ?thesis
  proof
    fix g
    show "table_map ns' g = ((table_map ns)(f \<mapsto> m)) g"
    proof (cases "g \<in> set (map fm_name (nm_files ns))")
      case True
      then obtain i where i: "i < length (nm_files ns)" "g = fm_name (nm_files ns ! i)"
        by (auto simp: in_set_conv_nth)
      have l: "length (nm_files ns') = length (nm_files ns)"
        by (simp add: assms(4))
      have gi: "fm_name (nm_files ns' ! i) = g"
        using arg_cong [OF names, of "\<lambda>xs. xs ! i"] i l by simp
      have "i = k \<longleftrightarrow> g = f"
        using d i assms(2,3) by (auto simp: distinct_conv_nth)
      then show ?thesis
        using at [of ns' i] at [of ns i] d names i l gi assms(2,4) by (cases "i = k") auto
    next
      case False
      then have "g \<noteq> f"
        using assms(2,3) nth_mem [of k "nm_files ns"] by auto
      moreover have "set (map fm_name (nm_files ns')) = set (map fm_name (nm_files ns))"
        using names by simp
      ultimately show ?thesis
        using False map_of_eq_None_iff [of "map (\<lambda>m. (fm_name m, m)) (nm_files ns)" g]
          map_of_eq_None_iff [of "map (\<lambda>m. (fm_name m, m)) (nm_files ns')" g] by (simp add: table_map_def image_image)
    qed
  qed
qed

text \<open>C18. The table of files with its hash index and cache implements a finite map from names to entries: a lookup
  returns the position of the entry of the map and changes nothing, entering a new name adds exactly this entry, and removing a
  name removes exactly its entry and reports whether there was one.\<close>

theorem table_implements_map:
  assumes "ns_inv ns"
  shows "map_option ((!) (nm_files ns)) (snd (file_lookup_locked ns f)) = table_map ns f \<and>
    table_map (fst (file_lookup_locked ns f)) = table_map ns \<and>
    table_map (fst (remove_file_metadata_locked ns f)) = (table_map ns)(f := None) \<and>
    (snd (remove_file_metadata_locked ns f) \<longleftrightarrow> f \<in> dom (table_map ns)) \<and>
    (\<forall>m. fm_name m = f \<and> name_ok f \<and> rights_ok m \<and> f \<notin> dom (table_map ns) \<and> length (nm_files ns) < NS_MAX_FILES \<longrightarrow>
       table_map (enter_file ns m f) = (table_map ns)(f \<mapsto> m))"
proof (intro conjI)
  obtain ns1 r where look: "file_lookup_locked ns f = (ns1, r)"
    by fastforce
  show "map_option ((!) (nm_files ns)) (snd (file_lookup_locked ns f)) = table_map ns f"
  proof (cases r)
    case None
    then show ?thesis
      using lookup_inv(2) [OF look assms] table_map_None [OF assms, of f] by (auto simp: look file_names_def first_index_None)
  next
    case (Some k)
    then have "k < length (nm_files ns)" "fm_name (nm_files ns ! k) = f"
      using lookup_inv(3) [OF look assms] by simp_all
    then have "table_map ns f = Some (nm_files ns ! k)"
      by (simp add: table_map_iff [OF assms])
    then show ?thesis
      by (simp add: look Some)
  qed
  show "table_map (fst (file_lookup_locked ns f)) = table_map ns"
    using table_map_cong [OF lookup_same(1) [OF look]] by (simp add: look)
  show "table_map (fst (remove_file_metadata_locked ns f)) = (table_map ns)(f := None)"
    by (rule table_map_remove [OF assms])
  show "snd (remove_file_metadata_locked ns f) \<longleftrightarrow> f \<in> dom (table_map ns)"
    by (rule table_map_removed [OF assms])
  show "\<forall>m. fm_name m = f \<and> name_ok f \<and> rights_ok m \<and> f \<notin> dom (table_map ns) \<and> length (nm_files ns) < NS_MAX_FILES \<longrightarrow>
      table_map (enter_file ns m f) = (table_map ns)(f \<mapsto> m)"
    using table_map_enter [OF assms] table_map_None [OF assms, of f] by (auto simp: domIff)
qed

theorem table_implements_map_witness:
  "\<exists>ns. nm_files ns = [demo_file] \<and> table_map (fst (remove_file_metadata_locked ns ''a'')) = Map.empty \<and>
     snd (file_lookup_locked ns ''a'') \<noteq> None"
proof -
  obtain ns where ns: "ns_inv ns" "nm_files ns = [demo_file]" "nm_disk ns = demo_dir"
    using demo_one_file .
  have "table_map ns = [''a'' \<mapsto> demo_file]"
    by (simp add: table_map_def ns(2))
  then show ?thesis
    using table_implements_map [OF ns(1), of "''a''"] ns(2) by (intro exI [of _ ns]) auto
qed

section \<open>CREATE\<close>

lemma lightest_server:
  assumes "ns_select_storage_server_balanced ns = (ns', Some a)"
  shows "\<exists>s\<in>set (nm_servers ns). si_addr s = a \<and> si_alive s \<and> (\<forall>t\<in>set (nm_servers ns). si_alive t \<longrightarrow> server_load s \<le> server_load t)"
proof -
  obtain s' where s': "s' \<in> set (nm_servers ns')" "si_addr s' = a" "si_alive s'"
      "\<forall>t\<in>set (nm_servers ns). si_alive t \<longrightarrow> server_load s' \<le> server_load t"
    using select_spec(1) [OF assms] by auto
  obtain i where i: "i < length (nm_servers ns')" "nm_servers ns' ! i = s'"
    using s'(1) by (auto simp: in_set_conv_nth)
  have fr: "map server_load (nm_servers ns') = map server_load (nm_servers ns)" "map si_alive (nm_servers ns') = map si_alive (nm_servers ns)"
      "map si_addr (nm_servers ns') = map si_addr (nm_servers ns)"
    using select_spec(2) [OF assms] by auto
  have il: "i < length (nm_servers ns)"
    using i(1) map_eq_imp_length_eq [OF fr(1)] by simp
  have "g s' = g (nm_servers ns ! i)" if "map g (nm_servers ns') = map g (nm_servers ns)" for g :: "ss_info \<Rightarrow> 'c"
    using arg_cong [OF that, of "\<lambda>xs. xs ! i"] i il by simp
  note same = this [OF fr(1)] this [OF fr(2)] this [OF fr(3)]
  show ?thesis
    using s' same il nth_mem [OF il] by (intro bexI [of _ "nm_servers ns ! i"]) auto
qed

lemma create_finish_map:
  assumes "ns_inv ns" "ns_create_finish ns p r = (ns', outs)"
  shows "if fst (pd_had p) \<and> result_error ''OK_CREATE'' r = None then table_map ns' = table_map ns
    else table_map ns' = (table_map ns)(pd_fields p ! 1 := None) \<and> (\<exists>code detail. outs = send_error_and_log (cx_fd (pd_cx p)) code detail)"
proof -
  have rel: "nm_files (release_server t st) = nm_files st" for t st
    by (simp add: release_server_def split: option.split)
  have rem: "table_map (release_server t (fst (remove_file_metadata_locked ns g))) = (table_map ns)(g := None)" for t g
    using table_map_remove [OF assms(1), of g] table_map_cong [OF rel [of t "fst (remove_file_metadata_locked ns g)"]] by simp
  have sav: "table_map (ns_save_metadata st) = table_map st" for st
    by (simp add: table_map_def)
  show ?thesis
    using assms(2) rem sav rel
    by (auto simp: ns_create_finish_def Let_def table_map_def split: if_splits option.splits)
qed

text \<open>The first half of CREATE: the entry is in the table, and a living server with the least load is called.\<close>

lemma create_begin_spec:
  assumes "ns_inv ns" "ns_create_begin now ns cx f = Inr (ns1, p)"
  obtains m s where "s \<in> set (nm_servers ns)" "si_alive s"
    "\<forall>t\<in>set (nm_servers ns). si_alive t \<longrightarrow> server_load s \<le> server_load t"
    "pd_target p = Some (si_addr s)" "pd_command p = [''CREATE_FILE'', f ! 1, cx_username cx]" "pd_cx p = cx" "pd_fields p = f"
    "ns_inv ns1" "table_map ns1 = (table_map ns)(f ! 1 \<mapsto> m)" "table_map ns (f ! 1) = None"
    "fm_owner m = bounded_copy MAX_USERNAME_LENGTH (cx_username cx)"
proof -
  obtain nsl where look: "file_lookup_locked ns (f ! 1) = (nsl, None)"
    and valid: "validate_filename (f ! 1)" "length (nm_files ns) < NS_MAX_FILES"
    using assms(2) by (auto simp: ns_create_begin_def Let_def not_le split: if_splits prod.splits option.splits)
  obtain nss a where sel: "ns_select_storage_server_balanced nsl = (nss, Some a)"
    using assms(2) look by (auto simp: ns_create_begin_def Let_def split: if_splits prod.splits option.splits)
  let ?ns3 = "update_server a storage_server_acquire nss"
  let ?m = "new_file now (f ! 1) (cx_username cx) (the (server_at ?ns3 a))"
  have begin_result: "ns1 = enter_file ?ns3 ?m (f ! 1)" "pd_cx p = cx" "pd_fields p = f" "pd_target p = Some a"
      "pd_command p = [''CREATE_FILE'', f ! 1, cx_username cx]"
    using assms(2) look sel by (auto simp: ns_create_begin_def Let_def split: if_splits)
  have files: "nm_files ?ns3 = nm_files ns"
    using lookup_same(1) [OF look] select_frame(2) [OF sel] by simp
  have inv: "ns_inv ?ns3"
    using lookup_inv(1) [OF look assms(1)] select_frame(1) [OF sel] by (simp add: inv_update_server)
  have fresh: "f ! 1 \<notin> set (file_names ?ns3)"
    using lookup_fresh [OF assms(1) look] files lookup_same(1) [OF look] by (simp add: file_names_def)
  have name: "fm_name ?m = f ! 1" "name_ok (f ! 1)" "rights_ok ?m"
    using filename_name_ok [OF valid(1)] by simp_all
  have len: "length (nm_files ?ns3) < NS_MAX_FILES"
    using valid(2) files by simp
  have enter: "ns_inv ns1" "table_map ns1 = (table_map ns)(f ! 1 \<mapsto> ?m)"
    using inv_enter_file(1) [OF inv name(1) fresh name(2,3) len] table_map_enter [OF inv name(1) fresh name(2,3) len]
      table_map_cong [OF files] by (simp_all add: begin_result(1))
  have new: "table_map ns (f ! 1) = None"
    using fresh files table_map_None [OF assms(1)] by (simp add: file_names_def)
  obtain s where s: "s \<in> set (nm_servers ns)" "si_alive s" "si_addr s = a"
      "\<forall>t\<in>set (nm_servers ns). si_alive t \<longrightarrow> server_load s \<le> server_load t"
    using lightest_server [OF sel] lookup_same(2) [OF look] by auto
  have "fm_owner ?m = bounded_copy MAX_USERNAME_LENGTH (cx_username cx)"
    by (simp add: new_file_def new_entry_def)
  then show ?thesis
    using that [of s ?m] s begin_result(2-5) enter new by blast
qed

text \<open>C8. CREATE is all or nothing, and balanced: the file is created on a storage server that is alive and
  has the smallest load of all living ones; if that server confirms, exactly one entry is added, owned by the user and with
  the address of the server, and otherwise the table is what it was and the user gets an error.\<close>

theorem create_all_or_nothing:
  assumes "ns_inv ns" "ns_create_begin now ns cx f = Inr (ns1, p)" "ns_create_finish ns1 p r = (ns2, outs)"
  shows "\<exists>s\<in>set (nm_servers ns). si_alive s \<and> (\<forall>t\<in>set (nm_servers ns). si_alive t \<longrightarrow> server_load s \<le> server_load t) \<and>
    pd_target p = Some (si_addr s) \<and> pd_command p = [''CREATE_FILE'', f ! 1, cx_username cx] \<and>
    (if fst (pd_had p) \<and> result_error ''OK_CREATE'' r = None
     then \<exists>m. table_map ns2 = (table_map ns)(f ! 1 \<mapsto> m) \<and> fm_owner m = bounded_copy MAX_USERNAME_LENGTH (cx_username cx)
     else table_map ns2 = table_map ns \<and> (\<exists>code detail. outs = send_error_and_log (cx_fd cx) code detail))"
proof -
  obtain m s where s: "s \<in> set (nm_servers ns)" "si_alive s"
      "\<forall>t\<in>set (nm_servers ns). si_alive t \<longrightarrow> server_load s \<le> server_load t"
    and p: "pd_target p = Some (si_addr s)" "pd_command p = [''CREATE_FILE'', f ! 1, cx_username cx]" "pd_cx p = cx" "pd_fields p = f"
    and enter: "ns_inv ns1" "table_map ns1 = (table_map ns)(f ! 1 \<mapsto> m)" and new: "table_map ns (f ! 1) = None"
    and owner: "fm_owner m = bounded_copy MAX_USERNAME_LENGTH (cx_username cx)"
    by (rule create_begin_spec [OF assms(1,2)])
  have "if fst (pd_had p) \<and> result_error ''OK_CREATE'' r = None then table_map ns2 = table_map ns1
      else table_map ns2 = (table_map ns1)(f ! 1 := None) \<and> (\<exists>code detail. outs = send_error_and_log (cx_fd cx) code detail)"
    using create_finish_map [OF enter(1) assms(3)] unfolding p(3,4) .
  then have "if fst (pd_had p) \<and> result_error ''OK_CREATE'' r = None
     then \<exists>m. table_map ns2 = (table_map ns)(f ! 1 \<mapsto> m) \<and> fm_owner m = bounded_copy MAX_USERNAME_LENGTH (cx_username cx)
     else table_map ns2 = table_map ns \<and> (\<exists>code detail. outs = send_error_and_log (cx_fd cx) code detail)"
    using owner enter(2) new by (auto simp: fun_upd_idem split: if_splits)
  then show ?thesis
    using s p(1,2) by (intro bexI [of _ s]) simp_all
qed

lemma inv_register_server:
  assumes "ns_inv ns"
  shows "ns_inv (fst (ns_register_storage_server now ns ip port cip cport fd))"
proof -
  have "\<exists>ss k. fst (ns_register_storage_server now ns ip port cip cport fd) = ns\<lparr>nm_servers := ss, nm_next_addr := k\<rparr>"
  proof -
    have "ns = ns\<lparr>nm_servers := nm_servers ns, nm_next_addr := nm_next_addr ns\<rparr>"
      by simp
    then show ?thesis
      by (simp only: ns_register_storage_server_def fst_conv split: if_split) blast
  qed
  then obtain ss k where s: "fst (ns_register_storage_server now ns ip port cip cport fd) = ns\<lparr>nm_servers := ss, nm_next_addr := k\<rparr>"
    by blast
  have "registry_ok (ns\<lparr>nm_servers := ss, nm_next_addr := k\<rparr>)"
    using assms registry_ok_register_ss s by (metis ns_inv_def)
  moreover have "table_ok (ns\<lparr>nm_servers := ss, nm_next_addr := k\<rparr>) = table_ok ns"
    by (rule table_ok_cong) simp_all
  ultimately show ?thesis
    using assms by (simp add: s ns_inv_def files_ok_def requests_ok_def)
qed

lemma demo_with_server:
  obtains ns s where "ns_inv ns" "nm_files ns = []" "nm_servers ns = [s]" "si_alive s" "si_addr s = 0" "si_sockfd s = 7"
    "\<not> si_awaiting s" "si_client_ip s = ''10.0.0.2''" "si_client_port s = 9001"
proof -
  let ?ns = "fst (ns_register_storage_server 5 (empty_name_server 8000 demo_dir) ''10.0.0.2'' 9000 ''10.0.0.2'' 9001 7)"
  have "nm_files ?ns = []" "length (nm_servers ?ns) = 1" "si_alive (nm_servers ?ns ! 0)" "si_addr (nm_servers ?ns ! 0) = 0"
      "si_sockfd (nm_servers ?ns ! 0) = 7" "\<not> si_awaiting (nm_servers ?ns ! 0)" "si_client_ip (nm_servers ?ns ! 0) = ''10.0.0.2''"
      "si_client_port (nm_servers ?ns ! 0) = 9001"
    by (simp_all add: ns_register_storage_server_def empty_name_server_def NS_MAX_STORAGE_SERVERS_def storage_server_comm_init_def
        bounded_copy_id MAX_IP_LENGTH_def)
  then show ?thesis
    using that [of ?ns "nm_servers ?ns ! 0"] inv_register_server [OF demo_empty(1)] by (cases "nm_servers ?ns") auto
qed

theorem create_all_or_nothing_witness:
  "\<exists>ns ns1 p ns2 outs m. table_map ns = Map.empty \<and>
     ns_create_begin 6 ns demo_ann [''CREATE'', ''a''] = Inr (ns1, p) \<and>
     ns_create_finish ns1 p (Answered ''OK_CREATE|a'') = (ns2, outs) \<and> table_map ns2 = [''a'' \<mapsto> m] \<and> fm_owner m = ''ann''"
proof -
  obtain ns s where ns: "ns_inv ns" "nm_files ns = []" "nm_servers ns = [s]" "si_alive s" "si_addr s = 0" "si_sockfd s = 7"
    using demo_with_server .
  obtain nsl found where look: "file_lookup_locked ns ''a'' = (nsl, found)"
    by fastforce
  have "found = None"
    using lookup_inv(2) [OF look ns(1)] ns(2) by simp
  have same: "nm_files nsl = []" "nm_servers nsl = [s]"
    using lookup_same(1,2) [OF look] ns(2,3) by simp_all
  have names: "validate_filename ''a''" "cx_username demo_ann = ''ann''" "bounded_copy MAX_USERNAME_LENGTH ''ann'' = ''ann''"
    by code_simp+
  have ok: "result_error ''OK_CREATE'' (Answered ''OK_CREATE|a'') = None"
  proof -
    have "msg_fields (protocol_parse_message ''OK_CREATE|a'') = [''OK_CREATE'', ''a'']"
      by (simp add: parse_line PROTOCOL_DELIMITER_def MAX_MESSAGE_SIZE_def MAX_FIELDS_def strip_terminator_def newline_def)
    then show ?thesis
      by (simp add: result_error_def Let_def protocol_is_error_def)
  qed
  obtain nss where sel: "ns_select_storage_server_balanced nsl = (nss, Some 0)" "nm_servers nss = [clamp_load s]"
    using same ns(4,5) by (simp add: ns_select_storage_server_balanced_def)
  have socket: "0 \<le> si_sockfd (the (server_at (update_server 0 storage_server_acquire nss) 0))"
    using ns(5,6) by (simp add: sel(2) server_at_def update_server_def clamp_load_def storage_server_acquire_def)
  obtain ns1 p where begins: "ns_create_begin 6 ns demo_ann [''CREATE'', ''a''] = Inr (ns1, p)" "fst (pd_had p)"
    using socket by (simp add: ns_create_begin_def Let_def NS_MAX_FILES_def ns(2) look \<open>found = None\<close> same names sel(1))
  obtain ns2 outs where finish: "ns_create_finish ns1 p (Answered ''OK_CREATE|a'') = (ns2, outs)"
    by fastforce
  have empty: "table_map ns = Map.empty"
    by (simp add: table_map_def ns(2))
  obtain m where "table_map ns2 = [''a'' \<mapsto> m]" "fm_owner m = ''ann''"
    using create_all_or_nothing [OF ns(1) begins(1) finish] begins(2) ok names(2,3) empty by auto
  then show ?thesis
    using empty begins(1) finish by blast
qed

section \<open>ADDACCESS that fails\<close>



end
