(* ===== verification/Storage_Startup.thy ===== *)
theory Storage_Startup
  imports Storage_Control
begin

text \<open>
  Start and shutdown of a storage server (\<open>storage_server.c\<close>): \<open>ss_init\<close>, the registration with
  the name server, the announcement of the files, the loop that accepts clients, and \<open>main\<close>.

  What the operating system answers is a record of results: whether sockets and threads
  can be created, the results of \<open>connect\<close>, \<open>send\<close>, \<open>recv\<close> and \<open>accept\<close>, and the directory listing.
  The thread of \<open>ns_control_loop\<close> and those of the clients run the operations of
  \<open>Storage_Control\<close> and \<open>Storage_Handlers\<close>.
\<close>

section \<open>Initialisation\<close>

text \<open>The directory is \<open>None\<close> when it cannot be opened.  The copies of the addresses are those of \<open>strncpy\<close> for
  addresses that fit their arrays.\<close>

definition ss_init :: "int \<Rightarrow> dir_entry list option \<Rightarrow> disk \<Rightarrow> cstring \<Rightarrow> int \<Rightarrow> cstring \<Rightarrow> int \<Rightarrow> disk + storage_server" where
  "ss_init now dir d ip_of_ns port_of_ns ip port =
     (let client = bounded_copy MAX_IP_LENGTH ip in
      case ss_build_storage_path MAX_PATH_LENGTH client port of
        None \<Rightarrow> Inl d
      | Some path \<Rightarrow>
          let (d1, ok) = create_directory_recursive d path in
          if \<not> ok then Inl d1
          else Inr (ss_load_existing_files now dir
            \<lparr>ns_ip = bounded_copy MAX_IP_LENGTH ip_of_ns, ns_port = port_of_ns, client_ip = client, client_port = port,
             ns_sockfd = -1, client_listen_fd = -1, storage_path = path, ss_files = [], sessions = [], running = False,
             next_addr = 0, ss_disk = d1\<rparr>))"

section \<open>Registration\<close>

text \<open>\<open>link_fd\<close> is the socket, \<open>None\<close> when there is none; \<open>link_up\<close> says whether \<open>connect\<close> succeeds.\<close>

record ns_link =
  link_fd :: "int option"
  link_up :: bool
  link_sends :: "send_result list"
  link_bytes :: "recv_result list"

definition ss_open_ns_socket :: "ns_link \<Rightarrow> storage_server \<Rightarrow> storage_server \<times> int" where
  "ss_open_ns_socket l ss =
     (case link_fd l of
        None \<Rightarrow> (ss, -1)
      | Some fd \<Rightarrow>
          if \<not> is_valid_ip (ns_ip ss) then (ss, -1)
          else if \<not> link_up l then (ss, -1)
          else (ss\<lparr>ns_sockfd := fd\<rparr>, 0))"

definition hello_fields :: "storage_server \<Rightarrow> cstring list" where
  "hello_fields ss = [''HELLO_SS'', ns_ip ss, bounded_copy 16 (show_int (ns_port ss)), client_ip ss,
     bounded_copy 16 (show_int (client_port ss))]"

text \<open>The bytes that went out and the value, \<open>None\<close> while the call still waits for the socket.\<close>

definition ss_send_hello :: "ns_link \<Rightarrow> storage_server \<Rightarrow> cstring \<times> int option" where
  "ss_send_hello l ss =
     (case protocol_build_message (map Some (hello_fields ss)) of
        None \<Rightarrow> ([], Some (-1))
      | Some msg \<Rightarrow>
          (case protocol_send_message (ns_sockfd ss) msg (link_sends l) of
             (sent, None) \<Rightarrow> (sent, None)
           | (sent, Some None) \<Rightarrow> (sent, Some (-1))
           | (sent, Some (Some n)) \<Rightarrow>
               (sent, case fst (protocol_receive_message (ns_sockfd ss) (link_bytes l)) of
                  Waiting \<Rightarrow> None
                | Null \<Rightarrow> Some (-1)
                | Received raw \<Rightarrow>
                    let resp = protocol_parse_message raw in
                    if field_count resp = 0 then Some (-1)
                    else Some (if msg_fields resp ! 0 = ''OK'' then 0 else -1))))"

definition ss_register_with_ns :: "ns_link \<Rightarrow> storage_server \<Rightarrow> storage_server \<times> cstring \<times> int option" where
  "ss_register_with_ns l ss =
     (let (ss1, opened) = ss_open_ns_socket l ss in
      if opened \<noteq> 0 then (ss1, [], Some (-1))
      else let (sent, hello) = ss_send_hello l ss1 in
        case hello of
          None \<Rightarrow> (ss1, sent, None)
        | Some v \<Rightarrow> if v \<noteq> 0 then (ss1\<lparr>ns_sockfd := -1\<rparr>, sent, Some (-1)) else (ss1, sent, Some 0))"

definition ss_send_file_list :: "storage_server \<Rightarrow> outputs" where
  "ss_send_file_list ss = ss_emit_file_list ss"

section \<open>Serving\<close>

text \<open>The listener: the results of \<open>socket\<close>, \<open>bind\<close> and \<open>listen\<close>.\<close>

record listener =
  ls_fd :: "int option"
  ls_bound :: bool
  ls_listening :: bool

definition ss_open_client_listener :: "listener \<Rightarrow> storage_server \<Rightarrow> storage_server \<times> int" where
  "ss_open_client_listener l ss =
     (case ls_fd l of
        None \<Rightarrow> (ss, -1)
      | Some fd \<Rightarrow>
          if \<not> ls_bound l then (ss, -1)
          else if \<not> ls_listening l then (ss, -1)
          else (ss\<lparr>client_listen_fd := fd\<rparr>, 0))"

definition ss_start_ns_thread :: "bool \<Rightarrow> int" where
  "ss_start_ns_thread spawned = (if spawned then 0 else -1)"

text \<open>One round of the accept loop: the value of \<open>ss->running\<close> at the test, and the result of \<open>accept\<close> with
  that of \<open>pthread_create\<close>.  The result lists the clients that got a thread; the flag says whether the loop
  ended, which needs a round that finds \<open>running\<close> cleared.\<close>

datatype accepted = Accept_failed | Client cstring int bool

fun accept_loop :: "(bool \<times> int \<times> accepted) list \<Rightarrow> (int \<times> cstring \<times> int) list \<times> bool" where
  "accept_loop [] = ([], False)"
| "accept_loop ((still_running, fd, a) # rounds) =
     (if \<not> still_running then ([], True)
      else case a of
        Accept_failed \<Rightarrow> accept_loop rounds
      | Client ip port thread_made \<Rightarrow>
          if \<not> thread_made then accept_loop rounds
          else let (cs, ended) = accept_loop rounds in ((fd, ip, port) # cs, ended))"

text \<open>The loop ends only in a round that finds \<open>running\<close> cleared; a cleared flag alone does not wake \<open>accept\<close>.\<close>

lemma accept_loop_ends: "snd (accept_loop rounds) \<longleftrightarrow> (\<exists>r\<in>set rounds. \<not> fst r)"
  by (induction rounds rule: accept_loop.induct) (auto simp: case_prod_beta split: accepted.split)

definition ss_start :: "listener \<Rightarrow> bool \<Rightarrow> (bool \<times> int \<times> accepted) list \<Rightarrow> storage_server \<Rightarrow>
    storage_server \<times> (int \<times> cstring \<times> int) list \<times> int option" where
  "ss_start l thread_made rounds ss =
     (let (ss1, opened) = ss_open_client_listener l ss in
      if opened \<noteq> 0 then (ss1, [], Some (-1))
      else let ss2 = ss1\<lparr>running := True\<rparr> in
        if ss_start_ns_thread thread_made \<noteq> 0 then
          (ss2\<lparr>running := False, client_listen_fd := (if client_listen_fd ss2 \<ge> 0 then -1 else client_listen_fd ss2)\<rparr>, [], Some (-1))
        else let (clients, ended) = accept_loop rounds in
          (ss2, clients, if ended then Some 0 else None))"

definition ss_cleanup :: "storage_server \<Rightarrow> storage_server" where
  "ss_cleanup ss = ss\<lparr>running := False,
     client_listen_fd := (if client_listen_fd ss \<ge> 0 then -1 else client_listen_fd ss),
     ns_sockfd := (if ns_sockfd ss \<ge> 0 then -1 else ns_sockfd ss), sessions := [], ss_files := []\<rparr>"

section \<open>The process\<close>

record start_world =
  sw_now :: int
  sw_dir :: "dir_entry list option"
  sw_link :: ns_link
  sw_listener :: listener
  sw_thread :: bool
  sw_rounds :: "(bool \<times> int \<times> accepted) list"

text \<open>The disk at the end, the bytes of the registration, the announcement, the clients, and
  the exit code, \<open>None\<close> while the process runs.\<close>

definition ss_main :: "start_world \<Rightarrow> cstring list \<Rightarrow> disk \<Rightarrow>
    disk \<times> cstring \<times> outputs \<times> (int \<times> cstring \<times> int) list \<times> int option" where
  "ss_main w args d =
     (if length args \<noteq> 4 then (d, [], [], [], Some 1)
      else case ss_init (sw_now w) (sw_dir w) d (args ! 0) (atoi (args ! 1)) (args ! 2) (atoi (args ! 3)) of
        Inl d1 \<Rightarrow> (d1, [], [], [], Some 1)
      | Inr ss \<Rightarrow>
          let (ss1, sent, registered) = ss_register_with_ns (sw_link w) ss in
          if registered \<noteq> Some 0 then (ss_disk ss1, sent, [], [], map_option (\<lambda>v. 1) registered)
          else let files = ss_send_file_list ss1;
              (ss2, clients, rc) = ss_start (sw_listener w) (sw_thread w) (sw_rounds w) ss1 in
            (ss_disk (if rc = None then ss2 else ss_cleanup ss2), sent, files, clients,
             case rc of None \<Rightarrow> None | Some v \<Rightarrow> Some (if v \<noteq> 0 then 1 else 0)))"

end
