(* ===== verification/Client_IO.thy ===== *)
theory Client_IO
  imports Text_Files Protocol
begin

text \<open>
  What the client (\<open>src/client/client.c\<close>) has around it: the C library calls that read its
  commands (\<open>sscanf\<close>, \<open>fgets\<close>), the padding of \<open>printf\<close>, the state of the process and the
  helpers that send, receive and print one message.

  The process is sequential, so the world is what its blocking calls will return: the lines
  the Name Server and the open storage connection will deliver, the outcome of the next
  connection attempts and sends, and the rest of the standard input.  A connection is lost when
  its lines are used up; past the end of the list of outcomes sends succeed and
  connection attempts are refused.  What the client does is the trace of its events.

  The receiving loops of the handlers are steps over one message, run by \<open>receive_loop\<close>.
\<close>

section \<open>Scanning commands\<close>

definition CLIENT_BUFFER_SIZE :: nat where "CLIENT_BUFFER_SIZE = 8192"

text \<open>\<open>%s\<close> with an optional width: leading white space is skipped and the rest of
  a word that is too long stays in the input.\<close>

definition scan_word :: "nat option \<Rightarrow> cstring \<Rightarrow> (cstring \<times> cstring) option" where
  "scan_word width s =
     (let t = dropWhile is_space s; w = takeWhile (\<lambda>c. \<not> is_space c) t;
          n = (case width of None \<Rightarrow> length w | Some k \<Rightarrow> min k (length w)) in
      if w = [] then None else Some (take n t, drop n t))"

text \<open>\<open>%d\<close>: a decimal number with an optional sign; the C library stores the low 32 bits of the
  clamped 64-bit value.\<close>

definition scan_int :: "cstring \<Rightarrow> (int \<times> cstring) option" where
  "scan_int s =
     (let t = snd (strtol_sign (dropWhile is_space s)) in
      if takeWhile is_digit t = [] then None else Some (atoi s, dropWhile is_digit t))"

text \<open>The arguments of a command: \<open>%*s\<close> and then words with the given widths.\<close>

fun scan_words :: "nat list \<Rightarrow> cstring \<Rightarrow> (cstring list \<times> cstring) option" where
  "scan_words [] s = Some ([], s)"
| "scan_words (w # ws) s = (case scan_word (Some w) s of
       None \<Rightarrow> None
     | Some (a, s') \<Rightarrow> map_option (\<lambda>(as, t). (a # as, t)) (scan_words ws s'))"

definition scan_args :: "nat list \<Rightarrow> cstring \<Rightarrow> (cstring list \<times> cstring) option" where
  "scan_args widths s = (case scan_word None s of None \<Rightarrow> None | Some (_, t) \<Rightarrow> scan_words widths t)"

section \<open>Lines of the standard input\<close>

definition fgets_next :: "nat \<Rightarrow> cstring \<Rightarrow> (cstring \<times> cstring) option" where
  "fgets_next n s = (if s = [] \<or> n < 2 then None
     else let k = min (n - 1) (Suc (length (takeWhile (\<lambda>c. c \<noteq> newline) s))) in
       Some (take k s, drop k s))"

lemma fgets_shorter: "fgets_next n s = Some (l, t) \<Longrightarrow> length t < length s"
  by (auto simp: fgets_next_def Let_def split: if_splits)

lemma fgets_line: "newline \<notin> set l \<Longrightarrow> length l + 2 \<le> n \<Longrightarrow> fgets_next n (l @ newline # t) = Some (l @ [newline], t)"
proof -
  assume a: "newline \<notin> set l" "length l + 2 \<le> n"
  then have "takeWhile (\<lambda>c. c \<noteq> newline) (l @ newline # t) = l"
    by (subst takeWhile_append2) auto
  then have "min (n - 1) (Suc (length (takeWhile (\<lambda>c. c \<noteq> newline) (l @ newline # t)))) = Suc (length l)"
    using a by simp
  then show ?thesis
    using a unfolding fgets_next_def Let_def by simp
qed

section \<open>Padding\<close>

definition pad_right :: "nat \<Rightarrow> cstring \<Rightarrow> cstring" where
  "pad_right n s = s @ replicate (n - length s) (CHR '' '')"

definition pad_left :: "nat \<Rightarrow> cstring \<Rightarrow> cstring" where
  "pad_left n s = replicate (n - length s) (CHR '' '') @ s"

section \<open>The process and its world\<close>

record client =
  cl_username :: cstring
  cl_ns_ip :: cstring
  cl_ns_port :: int
  cl_ns_sockfd :: int

datatype event =
    Printed cstring
  | Complained cstring
  | Sent_ns cstring
  | Sent_ss cstring
  | Dialled cstring int
  | Closed_ns
  | Closed_ss

datatype dial = No_socket | Refused | Link "cstring list"

record io =
  from_ns :: "cstring list"
  from_ss :: "cstring list"
  dials :: "dial list"
  sends :: "bool list"
  stdin_text :: cstring
  trace :: "event list"

definition note_event :: "event \<Rightarrow> io \<Rightarrow> io" where
  "note_event e io = io\<lparr>trace := trace io @ [e]\<rparr>"

definition say :: "cstring \<Rightarrow> io \<Rightarrow> io" where
  "say s io = note_event (Printed s) io"

definition say_line :: "cstring \<Rightarrow> io \<Rightarrow> io" where
  "say_line s io = say (s @ [newline]) io"

text \<open>A send: the event is recorded when it succeeds.\<close>

definition transmit :: "event \<Rightarrow> io \<Rightarrow> io \<times> bool" where
  "transmit e io = (case sends io of
       [] \<Rightarrow> (note_event e io, True)
     | ok # rest \<Rightarrow> if ok then (note_event e (io\<lparr>sends := rest\<rparr>), True) else (io\<lparr>sends := rest\<rparr>, False))"

definition next_dial :: "io \<Rightarrow> io \<times> dial" where
  "next_dial io = (case dials io of [] \<Rightarrow> (io, Refused) | d # rest \<Rightarrow> (io\<lparr>dials := rest\<rparr>, d))"

text \<open>All the text a trace shows on the standard output, and the messages it sends.\<close>

fun shown :: "event list \<Rightarrow> cstring" where
  "shown [] = []"
| "shown (Printed s # es) = s @ shown es"
| "shown (_ # es) = shown es"

fun ns_messages :: "event list \<Rightarrow> cstring list" where
  "ns_messages [] = []"
| "ns_messages (Sent_ns m # es) = m # ns_messages es"
| "ns_messages (_ # es) = ns_messages es"

fun ss_messages :: "event list \<Rightarrow> cstring list" where
  "ss_messages [] = []"
| "ss_messages (Sent_ss m # es) = m # ss_messages es"
| "ss_messages (_ # es) = ss_messages es"

section \<open>Sending, receiving and printing one message\<close>

definition client_send_message :: "client \<Rightarrow> cstring \<Rightarrow> io \<Rightarrow> io \<times> bool" where
  "client_send_message cl message io =
     (if cl_ns_sockfd cl < 0 then (io, False) else transmit (Sent_ns message) io)"

definition client_read_response :: "client \<Rightarrow> io \<Rightarrow> io \<times> protocol_message option" where
  "client_read_response cl io =
     (if cl_ns_sockfd cl < 0 then (io, None)
      else case from_ns io of [] \<Rightarrow> (io, None)
      | raw # rest \<Rightarrow> (io\<lparr>from_ns := rest\<rparr>, Some (protocol_parse_message raw)))"

definition client_receive_ss_message :: "io \<Rightarrow> io \<times> protocol_message option" where
  "client_receive_ss_message io =
     (case from_ss io of [] \<Rightarrow> (io, None)
      | raw # rest \<Rightarrow>
          let m = protocol_parse_message raw in
          if field_count m = 0 then (io\<lparr>from_ss := rest\<rparr>, None) else (io\<lparr>from_ss := rest\<rparr>, Some m))"

definition ns_response_text :: "protocol_message \<Rightarrow> cstring" where
  "ns_response_text m =
     (if protocol_is_error m then ''Error: '' @ (if field_count m \<ge> 3 then msg_fields m ! 2 else ''Unknown error'') @ [newline]
      else if field_count m \<ge> 2 then msg_fields m ! 1 @ [newline]
      else ''OK'' @ [newline])"

definition client_print_ns_response :: "protocol_message \<Rightarrow> io \<Rightarrow> io" where
  "client_print_ns_response m io = say (ns_response_text m) io"

section \<open>Receiving loops\<close>

text \<open>A loop body reads one message, prints, changes its local variables and goes
  on or returns.  \<open>receive_loop\<close> gives what is printed, the locals, the result (\<open>None\<close> when the
  connection was lost) and the lines that are left.\<close>

datatype verdict = More | Return int

type_synonym 's loop_body = "'s \<Rightarrow> protocol_message \<Rightarrow> cstring list \<times> 's \<times> verdict"

fun receive_loop :: "'s loop_body \<Rightarrow> 's \<Rightarrow> cstring list \<Rightarrow> cstring list \<times> 's \<times> int option \<times> cstring list" where
  "receive_loop body s [] = ([], s, None, [])"
| "receive_loop body s (raw # rest) =
     (case body s (protocol_parse_message raw) of
        (out, s', Return rc) \<Rightarrow> (out, s', Some rc, rest)
      | (out, s', More) \<Rightarrow>
          let (out', t, rc, rest') = receive_loop body s' rest in (out @ out', t, rc, rest'))"

definition say_all :: "cstring list \<Rightarrow> io \<Rightarrow> io" where
  "say_all out io = io\<lparr>trace := trace io @ map Printed out\<rparr>"

text \<open>The loop on the Name Server's connection and on a storage connection.\<close>

definition loop_ns :: "'s loop_body \<Rightarrow> 's \<Rightarrow> io \<Rightarrow> io \<times> 's \<times> int option" where
  "loop_ns body s io = (let (out, t, rc, rest) = receive_loop body s (from_ns io) in
     (say_all out (io\<lparr>from_ns := rest\<rparr>), t, rc))"

definition loop_ss :: "'s loop_body \<Rightarrow> 's \<Rightarrow> io \<Rightarrow> io \<times> 's \<times> int option" where
  "loop_ss body s io = (let (out, t, rc, rest) = receive_loop body s (from_ss io) in
     (say_all out (io\<lparr>from_ss := rest\<rparr>), t, rc))"

section \<open>Lemmas\<close>

lemma receive_loop_skip:
  assumes "\<forall>m\<in>set ms. body s (protocol_parse_message m) = (f m, s, More)"
  shows "receive_loop body s (ms @ rest) =
    (let (out, t, rc, left) = receive_loop body s rest in (concat (map f ms) @ out, t, rc, left))"
  using assms by (induction ms) (auto simp: case_prod_beta Let_def)

lemma receive_loop_return:
  "body s (protocol_parse_message m) = (out, s', Return rc) \<Longrightarrow> receive_loop body s (m # rest) = (out, s', Some rc, rest)"
  by simp

text \<open>A loop that returns has read up to the first message its body returns on, and leaves the rest.\<close>

lemma receive_loop_suffix: "\<exists>used. ms = used @ snd (snd (snd (receive_loop body s ms)))"
proof (induction ms arbitrary: s)
  case (Cons m ms)
  obtain out s' v where b: "body s (protocol_parse_message m) = (out, s', v)"
    by (metis surj_pair)
  show ?case
    using b Cons.IH [of s'] by (cases v) (auto simp: case_prod_beta Let_def intro: exI [of _ "m # _"])
qed simp

lemma shown_append [simp]: "shown (es @ fs) = shown es @ shown fs"
  by (induction es rule: shown.induct) auto

lemma ns_messages_append [simp]: "ns_messages (es @ fs) = ns_messages es @ ns_messages fs"
  by (induction es rule: ns_messages.induct) auto

lemma ss_messages_append [simp]: "ss_messages (es @ fs) = ss_messages es @ ss_messages fs"
  by (induction es rule: ss_messages.induct) auto

lemma shown_printed [simp]: "shown (map Printed out) = concat out" "ns_messages (map Printed out) = []"
    "ss_messages (map Printed out) = []"
  by (induction out) auto

named_theorems io_simps

lemmas [io_simps] = note_event_def say_def say_line_def transmit_def client_print_ns_response_def say_all_def

lemma stdin_kept [simp]:
  "stdin_text (note_event e io) = stdin_text io" "stdin_text (say s io) = stdin_text io"
  "stdin_text (say_line s io) = stdin_text io" "stdin_text (say_all out io) = stdin_text io"
  "stdin_text (fst (transmit e io)) = stdin_text io" "stdin_text (fst (next_dial io)) = stdin_text io"
  "stdin_text (client_print_ns_response m io) = stdin_text io"
  "stdin_text (fst (client_send_message cl message io)) = stdin_text io"
  "stdin_text (fst (client_read_response cl io)) = stdin_text io"
  "stdin_text (fst (client_receive_ss_message io)) = stdin_text io"
  "stdin_text (fst (loop_ns body st io)) = stdin_text io" "stdin_text (fst (loop_ss body st io)) = stdin_text io"
  by (auto simp: io_simps next_dial_def client_send_message_def client_read_response_def client_receive_ss_message_def
    loop_ns_def loop_ss_def case_prod_beta Let_def split: list.splits)

end
