(* ===== verification/Client_Commands.thy ===== *)
theory Client_Commands
  imports Client_IO
begin

text \<open>
  The commands of the client that only talk to the Name Server (\<open>client.c\<close>, lines 498 to 1247
  and \<open>client_handle_exec\<close>): VIEW, LIST, the access and request commands, CREATE, DELETE,
  the folder commands, COPY, INFO and EXEC.  Result 0 is success, -1 anything else.

  Every handler builds one message, sends it, and reads one response or runs a receiving
  loop; the common part is \<open>start_command\<close> and \<open>ask_ns\<close>.
\<close>

section \<open>Sending a command\<close>

definition start_command :: "client \<Rightarrow> cstring list \<Rightarrow> cstring \<Rightarrow> io \<Rightarrow> io \<times> bool" where
  "start_command cl flds what io = (case protocol_build_message (map Some flds) of
       None \<Rightarrow> (io, False)
     | Some message \<Rightarrow>
         let (io1, ok) = client_send_message cl message io in
         if ok then (io1, True) else (say_line (''Failed to send '' @ what @ '' command'') io1, False))"

definition ask_ns :: "client \<Rightarrow> cstring list \<Rightarrow> cstring \<Rightarrow> io \<Rightarrow> io \<times> protocol_message option" where
  "ask_ns cl flds what io =
     (let (io1, ok) = start_command cl flds what io in
      if \<not> ok then (io1, None)
      else case client_read_response cl io1 of
        (io2, None) \<Rightarrow> (say_line (''No response from Name Server for '' @ what) io2, None)
      | (io2, Some resp) \<Rightarrow> (client_print_ns_response resp io2, Some resp))"

text \<open>Some handlers return 0 whatever the response says, the others -1 for an error.\<close>

definition ask_and_forget :: "client \<Rightarrow> cstring list \<Rightarrow> cstring \<Rightarrow> io \<Rightarrow> io \<times> int" where
  "ask_and_forget cl flds what io = (case ask_ns cl flds what io of
       (io', None) \<Rightarrow> (io', -1) | (io', Some resp) \<Rightarrow> (io', 0))"

definition ask_and_check :: "client \<Rightarrow> cstring list \<Rightarrow> cstring \<Rightarrow> io \<Rightarrow> io \<times> int" where
  "ask_and_check cl flds what io = (case ask_ns cl flds what io of
       (io', None) \<Rightarrow> (io', -1) | (io', Some resp) \<Rightarrow> (io', if protocol_is_error resp then -1 else 0))"

section \<open>VIEW and LIST\<close>

text \<open>The flag string is scanned up to the first unknown character.\<close>

primrec view_flag_scan :: "cstring \<Rightarrow> bool \<Rightarrow> bool \<Rightarrow> (bool \<times> bool) option" where
  "view_flag_scan [] request_all request_details = Some (request_all, request_details)"
| "view_flag_scan (p # ps) request_all request_details =
     (if p = CHR ''-'' \<or> p = CHR '' '' \<or> p = CHR 0x09 then view_flag_scan ps request_all request_details
      else if p = CHR ''a'' \<or> p = CHR ''A'' then view_flag_scan ps True request_details
      else if p = CHR ''l'' \<or> p = CHR ''L'' then view_flag_scan ps request_all True
      else None)"

definition view_rule :: cstring where
  "view_rule = replicate 57 (CHR ''-'') @ [newline]"

definition view_header :: cstring where
  "view_header = view_rule @
     ''|  Filename  | Words | Chars | Last Access Time | Owner |'' @ [newline] @
     ''|------------|-------|-------|------------------|-------|'' @ [newline]"

definition view_row :: "cstring list \<Rightarrow> cstring" where
  "view_row f = ''| '' @ pad_right 10 (f ! 1) @ '' | '' @ pad_left 5 (f ! 3) @ '' | '' @ pad_left 5 (f ! 4) @
     '' | '' @ pad_right 16 (f ! 5) @ '' | '' @ pad_right 5 (if f ! 2 \<noteq> [] then f ! 2 else ''N/A'') @ '' |'' @ [newline]"

definition view_body :: "bool \<Rightarrow> unit loop_body" where
  "view_body request_details s m =
     (let f = msg_fields m in
      if field_count m > 0 \<and> f ! 0 = ''OK_VIEW_END'' then ([], s, Return 0)
      else if field_count m \<ge> 2 \<and> f ! 0 = ''OK_VIEW_L'' then
        (if request_details \<and> field_count m \<ge> 6 then [view_row f]
         else if \<not> request_details then [''--> '' @ f ! 1 @ [newline]] else [], s, More)
      else if protocol_is_error m then ([ns_response_text m], s, Return (-1))
      else ([], s, More))"

definition client_handle_view :: "client \<Rightarrow> cstring option \<Rightarrow> io \<Rightarrow> io \<times> int" where
  "client_handle_view cl flags io =
     (if cl_ns_sockfd cl < 0 then (io, -1)
      else case view_flag_scan (case flags of Some f \<Rightarrow> f | None \<Rightarrow> []) False False of
        None \<Rightarrow> (say_line ''Invalid VIEW flag. Use -a, -l, or -al.'' io, -1)
      | Some (request_all, request_details) \<Rightarrow>
          let flds = (case flags of Some f \<Rightarrow> if f \<noteq> [] then [''VIEW'', f] else [''VIEW''] | None \<Rightarrow> [''VIEW'']);
              (io1, ok) = start_command cl flds ''VIEW'' io in
          if \<not> ok then (io1, -1)
          else let io2 = (if request_details then say view_header io1 else io1) in
            case loop_ns (view_body request_details) () io2 of
              (io3, _, None) \<Rightarrow> (say_line ''Connection lost while viewing files'' io3, -1)
            | (io3, _, Some rc) \<Rightarrow>
                if rc \<noteq> 0 then (io3, -1)
                else (if request_details then say view_rule io3 else io3, 0))"

definition list_body :: "unit loop_body" where
  "list_body s m =
     (let f = msg_fields m in
      if field_count m > 0 \<and> f ! 0 = ''OK_LIST_END'' then ([], s, Return 0)
      else if field_count m \<ge> 2 \<and> f ! 0 = ''OK_LIST'' then (['' - '' @ f ! 1 @ [newline]], s, More)
      else if protocol_is_error m then ([ns_response_text m], s, Return (-1))
      else ([], s, More))"

definition client_handle_list :: "client \<Rightarrow> io \<Rightarrow> io \<times> int" where
  "client_handle_list cl io =
     (if cl_ns_sockfd cl < 0 then (io, -1)
      else let (io1, ok) = start_command cl [''LIST_USERS''] ''LIST'' io in
        if \<not> ok then (io1, -1)
        else case loop_ns list_body () (say_line ''Users:'' io1) of
            (io2, _, None) \<Rightarrow> (say_line ''Connection lost while listing users'' io2, -1)
          | (io2, _, Some rc) \<Rightarrow> (io2, rc))"

section \<open>Access rights and requests\<close>

definition client_handle_addaccess :: "client \<Rightarrow> cstring \<Rightarrow> cstring \<Rightarrow> cstring \<Rightarrow> io \<Rightarrow> io \<times> int" where
  "client_handle_addaccess cl perm_flag fname user io =
     (if cl_ns_sockfd cl < 0 then (io, -1)
      else let permission_to_send = (case perm_flag of
             c # t \<Rightarrow> if c = CHR ''-'' then if t = [] then perm_flag else t else perm_flag
           | [] \<Rightarrow> perm_flag) in
        ask_and_forget cl [''ADDACCESS'', fname, user, permission_to_send] ''ADDACCESS'' io)"

definition client_handle_remaccess :: "client \<Rightarrow> cstring \<Rightarrow> cstring \<Rightarrow> io \<Rightarrow> io \<times> int" where
  "client_handle_remaccess cl fname user io =
     (if cl_ns_sockfd cl < 0 then (io, -1)
      else ask_and_forget cl [''REMACCESS'', fname, user] ''REMACCESS'' io)"

text \<open>Letters are raised to upper case before the check; the first character that is
  neither R nor W ends the loop.\<close>

definition raise_letter :: "char \<Rightarrow> char" where
  "raise_letter c = (if of_char c \<ge> (97 :: nat) \<and> of_char c \<le> (122 :: nat) then char_of ((of_char c :: nat) - 97 + 65) else c)"

definition client_handle_requestaccess :: "client \<Rightarrow> cstring \<Rightarrow> cstring \<Rightarrow> io \<Rightarrow> io \<times> int" where
  "client_handle_requestaccess cl fname permission io =
     (if cl_ns_sockfd cl < 0 then (io, -1)
      else if \<not> validate_filename fname then (say_line ''Invalid filename.'' io, -1)
      else case safe_strcpy 16 permission of
        None \<Rightarrow> (say_line ''Permission flag is too long.'' io, -1)
      | Some perm_buffer \<Rightarrow>
          let perm_token = map raise_letter (dropWhile (\<lambda>c. c = CHR ''-'') perm_buffer) in
          if \<not> list_all (\<lambda>c. c = CHR ''R'' \<or> c = CHR ''W'') perm_token then
            (say_line ''Permission must contain only R or W.'' io, -1)
          else if perm_token = [] then (say_line ''Permission flag must include R or W.'' io, -1)
          else ask_and_forget cl [''REQUESTACCESS'', fname, perm_token] ''REQUESTACCESS'' io)"

text \<open>The local state is \<open>printed_any\<close>.\<close>

definition requests_body :: "bool loop_body" where
  "requests_body printed_any m =
     (let f = msg_fields m in
      if field_count m = 0 then
        ([''Malformed response while listing requests'' @ [newline]], printed_any, Return (-1))
      else if f ! 0 = ''OK_REQUEST_LIST_END'' then ([], printed_any, Return 0)
      else if f ! 0 = ''OK_REQUEST_LIST'' \<and> field_count m \<ge> 5 then
        ([''  #'' @ f ! 1 @ '' '' @ f ! 3 @ '' -> '' @ f ! 2 @ '' ('' @ f ! 4 @ '' access)'' @ [newline]], True, More)
      else if protocol_is_error m then ([ns_response_text m], printed_any, Return (-1))
      else ([], printed_any, More))"

definition client_handle_listrequests :: "client \<Rightarrow> io \<Rightarrow> io \<times> int" where
  "client_handle_listrequests cl io =
     (if cl_ns_sockfd cl < 0 then (io, -1)
      else let (io1, ok) = start_command cl [''LISTREQUESTS''] ''LISTREQUESTS'' io in
        if \<not> ok then (io1, -1)
        else case loop_ns requests_body False io1 of
            (io2, _, None) \<Rightarrow> (say_line ''Connection lost while listing requests'' io2, -1)
          | (io2, printed_any, Some rc) \<Rightarrow>
              if rc \<noteq> 0 then (io2, -1)
              else (if printed_any then io2 else say_line ''No pending access requests.'' io2, 0))"

definition client_handle_approveaccess :: "client \<Rightarrow> int \<Rightarrow> io \<Rightarrow> io \<times> int" where
  "client_handle_approveaccess cl request_id io =
     (if cl_ns_sockfd cl < 0 then (io, -1)
      else if request_id \<le> 0 then (say_line ''Request ID must be positive.'' io, -1)
      else ask_and_forget cl [''APPROVEACCESS'', bounded_copy 16 (show_int request_id)] ''APPROVEACCESS'' io)"

definition client_handle_rejectaccess :: "client \<Rightarrow> int \<Rightarrow> io \<Rightarrow> io \<times> int" where
  "client_handle_rejectaccess cl request_id io =
     (if cl_ns_sockfd cl < 0 then (io, -1)
      else if request_id \<le> 0 then (say_line ''Request ID must be positive.'' io, -1)
      else ask_and_forget cl [''REJECTACCESS'', bounded_copy 16 (show_int request_id)] ''REJECTACCESS'' io)"

section \<open>Files and folders\<close>

definition client_handle_create :: "client \<Rightarrow> cstring \<Rightarrow> io \<Rightarrow> io \<times> int" where
  "client_handle_create cl fname io =
     (if cl_ns_sockfd cl < 0 then (io, -1)
      else if \<not> validate_filename fname then (say_line ''Invalid filename.'' io, -1)
      else ask_and_check cl [''CREATE'', fname] ''CREATE'' io)"

definition client_handle_delete :: "client \<Rightarrow> cstring \<Rightarrow> io \<Rightarrow> io \<times> int" where
  "client_handle_delete cl fname io =
     (if cl_ns_sockfd cl < 0 then (io, -1)
      else if \<not> validate_filename fname then (say_line ''Invalid filename.'' io, -1)
      else ask_and_check cl [''DELETE'', fname] ''DELETE'' io)"

definition client_handle_createfolder :: "client \<Rightarrow> cstring \<Rightarrow> io \<Rightarrow> io \<times> int" where
  "client_handle_createfolder cl path io =
     (if cl_ns_sockfd cl < 0 then (io, -1)
      else if path = [] then (say_line ''Folder path cannot be empty.'' io, -1)
      else ask_and_check cl [''CREATEFOLDER'', path] ''CREATEFOLDER'' io)"

definition client_handle_move :: "client \<Rightarrow> cstring \<Rightarrow> cstring \<Rightarrow> io \<Rightarrow> io \<times> int" where
  "client_handle_move cl source destination io =
     (if cl_ns_sockfd cl < 0 then (io, -1)
      else if source = [] \<or> destination = [] then
        (say_line ''Source and destination paths cannot be empty.'' io, -1)
      else ask_and_check cl [''MOVE'', source, destination] ''MOVE'' io)"

definition folder_body :: "bool loop_body" where
  "folder_body printed_any m =
     (let f = msg_fields m in
      if field_count m = 0 then ([], printed_any, More)
      else if f ! 0 = ''OK_VIEWFOLDER_END'' then ([], printed_any, Return 0)
      else if f ! 0 = ''OK_VIEWFOLDER'' \<and> field_count m \<ge> 2 then (['' - '' @ f ! 1 @ [newline]], True, More)
      else if protocol_is_error m then ([ns_response_text m], printed_any, Return (-1))
      else ([], printed_any, More))"

definition client_handle_viewfolder :: "client \<Rightarrow> cstring \<Rightarrow> io \<Rightarrow> io \<times> int" where
  "client_handle_viewfolder cl path io =
     (if cl_ns_sockfd cl < 0 then (io, -1)
      else if path = [] then (say_line ''Folder path cannot be empty.'' io, -1)
      else let (io1, ok) = start_command cl [''VIEWFOLDER'', path] ''VIEWFOLDER'' io in
        if \<not> ok then (io1, -1)
        else case loop_ns folder_body False io1 of
            (io2, _, None) \<Rightarrow> (say_line ''Connection lost while viewing folder'' io2, -1)
          | (io2, printed_any, Some rc) \<Rightarrow>
              if rc \<noteq> 0 then (io2, -1)
              else (if printed_any then io2 else say_line ''(Folder is empty)'' io2, 0))"

definition client_handle_copy :: "client \<Rightarrow> cstring \<Rightarrow> cstring \<Rightarrow> io \<Rightarrow> io \<times> int" where
  "client_handle_copy cl src dest io =
     (if cl_ns_sockfd cl < 0 then (io, -1)
      else if \<not> validate_filename src \<or> \<not> validate_filename dest then (say_line ''Invalid filename(s).'' io, -1)
      else ask_and_check cl [''COPY'', src, dest] ''COPY'' io)"

section \<open>INFO and EXEC\<close>

text \<open>The local state is \<open>info_started\<close> and \<open>display_name\<close>.\<close>

definition info_body :: "(bool \<times> cstring) loop_body" where
  "info_body s m =
     (let (info_started, display_name) = s; f = msg_fields m in
      if field_count m = 0 then ([''Malformed response while receiving info'' @ [newline]], s, Return (-1))
      else if protocol_is_error m then ([ns_response_text m], s, Return (-1))
      else if f ! 0 = ''OK_INFO_START'' then
        let display_name = (if field_count m \<ge> 2 \<and> f ! 1 \<noteq> [] then bounded_copy MAX_FILENAME_LENGTH (f ! 1)
                            else display_name) in
        ([''---- '' @ (if display_name \<noteq> [] then display_name else ''File Info'') @ '' ----'' @ [newline]],
         (True, display_name), More)
      else if f ! 0 = ''INFO_LINE'' then
        if \<not> info_started then ([''Unexpected INFO_LINE without INFO_START'' @ [newline]], s, Return (-1))
        else (if field_count m \<ge> 2 then [f ! 1 @ [newline]] else [], s, More)
      else if f ! 0 = ''OK_INFO_END'' then
        if \<not> info_started then ([''Unexpected INFO_END without INFO_START'' @ [newline]], s, Return (-1))
        else ([[newline]], s, Return 0)
      else ([''Unexpected response while receiving info: '' @ f ! 0 @ [newline]], s, Return (-1)))"

definition client_handle_info :: "client \<Rightarrow> cstring \<Rightarrow> io \<Rightarrow> io \<times> int" where
  "client_handle_info cl fname io =
     (if cl_ns_sockfd cl < 0 then (io, -1)
      else if \<not> validate_filename fname then (say_line ''Invalid filename.'' io, -1)
      else let (io1, ok) = start_command cl [''INFO'', fname] ''INFO'' io in
        if \<not> ok then (io1, -1)
        else case loop_ns info_body (False, bounded_copy MAX_FILENAME_LENGTH fname) io1 of
            (io2, _, None) \<Rightarrow> (say_line ''Connection lost while receiving info'' io2, -1)
          | (io2, _, Some rc) \<Rightarrow> (io2, rc))"

text \<open>The local state is \<open>saw_start\<close>.\<close>

definition exec_body :: "bool loop_body" where
  "exec_body saw_start m =
     (let f = msg_fields m in
      if field_count m = 0 then
        ([''Malformed response from Name Server during EXEC.'' @ [newline]], saw_start, Return (-1))
      else if protocol_is_error m then ([ns_response_text m], saw_start, Return (-1))
      else if f ! 0 = ''OK_EXEC_START'' then ([], True, More)
      else if f ! 0 = ''EXEC_OUT'' then (if field_count m \<ge> 2 then [f ! 1 @ [newline]] else [], saw_start, More)
      else if f ! 0 = ''OK_EXEC_END'' then ([], saw_start, Return 0)
      else ([''Unexpected response from server: '' @ f ! 0 @ [newline]], saw_start, Return (-1)))"

definition client_handle_exec :: "client \<Rightarrow> cstring \<Rightarrow> io \<Rightarrow> io \<times> int" where
  "client_handle_exec cl fname io =
     (if cl_ns_sockfd cl < 0 then (io, -1)
      else if \<not> validate_filename fname then (say_line ''Invalid filename.'' io, -1)
      else let (io1, ok) = start_command cl [''EXEC'', fname] ''EXEC'' io in
        if \<not> ok then (io1, -1)
        else case loop_ns exec_body False io1 of
            (io2, _, None) \<Rightarrow> (say_line ''Connection lost during EXEC.'' io2, -1)
          | (io2, saw_start, Some rc) \<Rightarrow>
              if rc \<noteq> 0 then (io2, -1)
              else if \<not> saw_start then (say_line ''EXEC sequence missing start acknowledgement.'' io2, -1)
              else (io2, 0))"

section \<open>Lemmas\<close>

lemma start_stdin [simp]: "stdin_text (fst (start_command cl flds what io)) = stdin_text io"
  using stdin_kept(8) [of cl _ io]
  by (auto simp: start_command_def case_prod_beta Let_def split: option.splits)

lemma ask_stdin [simp]: "stdin_text (fst (ask_ns cl flds what io)) = stdin_text io"
  using start_stdin [of cl flds what io] stdin_kept(9) [of cl "fst (start_command cl flds what io)"]
  by (auto simp: ask_ns_def case_prod_beta Let_def split: option.splits prod.splits)

end
