(* ===== verification/Client_Storage.thy ===== *)
theory Client_Storage
  imports Client_Commands
begin

text \<open>
  The commands of the client that talk to a storage server (\<open>client.c\<close>, lines 1249 to 2166):
  the location query, the connection, READ and STREAM, UNDO and the checkpoint commands.

  All of them ask the Name Server where the file is, open a connection to that address,
  send one request under the name the Name Server resolved, and read the answer; the common
  opening is \<open>with_storage\<close>.
\<close>

section \<open>Location and connection\<close>

text \<open>The port is a \<open>long\<close> cut to 32 bits before it is checked.\<close>

definition location_of :: "protocol_message \<Rightarrow> io \<Rightarrow> io \<times> (cstring \<times> int \<times> cstring) option" where
  "location_of resp io =
     (let f = msg_fields resp in
      if protocol_is_error resp then (client_print_ns_response resp io, None)
      else if field_count resp < 4 \<or> f ! 0 \<noteq> ''OK_LOC'' then
        (say_line ''Unexpected response from Name Server for REQ_LOC'' io, None)
      else let (port_val, endptr, erange) = strtol64 (f ! 3) in
        if f ! 3 = [] \<or> endptr \<noteq> [] then (say_line ''Invalid port in Name Server response'' io, None)
        else if \<not> is_valid_port (int32_of port_val) then
          (say_line ''Out-of-range port in Name Server response'' io, None)
        else case safe_strcpy MAX_IP_LENGTH (f ! 2) of
            None \<Rightarrow> (say_line ''Failed to copy storage server IP'' io, None)
          | Some ip \<Rightarrow> case safe_strcpy MAX_FILENAME_LENGTH (f ! 1) of
              None \<Rightarrow> (say_line ''Failed to copy resolved filename'' io, None)
            | Some resolved \<Rightarrow> (io, Some (ip, int32_of port_val, resolved)))"

definition client_request_location :: "client \<Rightarrow> cstring \<Rightarrow> cstring \<Rightarrow> io \<Rightarrow> io \<times> (cstring \<times> int \<times> cstring) option" where
  "client_request_location cl operation fname io =
     (if cl_ns_sockfd cl < 0 then (io, None)
      else case protocol_build_message (map Some [''REQ_LOC'', operation, fname]) of
        None \<Rightarrow> (io, None)
      | Some message \<Rightarrow>
          let (io1, ok) = client_send_message cl message io in
          if \<not> ok then (say_line ''Failed to contact Name Server for REQ_LOC'' io1, None)
          else case client_read_response cl io1 of
              (io2, None) \<Rightarrow> (say_line ''No response from Name Server for REQ_LOC'' io2, None)
            | (io2, Some resp) \<Rightarrow> location_of resp io2)"

definition client_connect_to_storage :: "cstring \<Rightarrow> int \<Rightarrow> io \<Rightarrow> io \<times> bool" where
  "client_connect_to_storage ip port io =
     (if \<not> is_valid_port port then (io, False)
      else case next_dial io of
        (io1, No_socket) \<Rightarrow> (say_line ''Failed to create socket to Storage Server'' io1, False)
      | (io1, d) \<Rightarrow>
          if \<not> is_valid_ip ip then
            (note_event Closed_ss (say_line ''Invalid Storage Server IP address'' io1), False)
          else case d of
              Link ls \<Rightarrow> (note_event (Dialled ip port) (io1\<lparr>from_ss := ls\<rparr>), True)
            | _ \<Rightarrow> (note_event Closed_ss (say_line (''Failed to connect to Storage Server '' @ ip @ '':'' @ show_int port)
                      io1), False))"

text \<open>The opening of the handlers: \<open>body\<close> runs on the open connection with the name the
  Name Server gave, or the user's when it gave none.\<close>

definition with_storage :: "client \<Rightarrow> cstring \<Rightarrow> cstring \<Rightarrow> (cstring \<Rightarrow> io \<Rightarrow> io \<times> int) \<Rightarrow> io \<Rightarrow> io \<times> int" where
  "with_storage cl operation fname body io =
     (case client_request_location cl operation fname io of
        (io1, None) \<Rightarrow> (io1, -1)
      | (io1, Some (ip, port, resolved)) \<Rightarrow>
          let (io2, ok) = client_connect_to_storage ip port io1 in
          if \<not> ok then (io2, -1)
          else body (if resolved \<noteq> [] then resolved else fname) io2)"

definition send_request :: "cstring list \<Rightarrow> cstring \<Rightarrow> io \<Rightarrow> io \<times> bool" where
  "send_request flds what io = (case protocol_build_message (map Some flds) of
       None \<Rightarrow> (note_event Closed_ss io, False)
     | Some req \<Rightarrow>
         let (io1, ok) = transmit (Sent_ss req) io in
         if ok then (io1, True)
         else (note_event Closed_ss (say_line (''Failed to send '' @ what @ '' request to Storage Server'') io1), False))"

section \<open>Streams\<close>

text \<open>\<open>client_receive_read_stream\<close>: the locals are \<open>saw_start\<close>, \<open>content_printed\<close> and
  \<open>last_char_newline\<close>.\<close>

definition read_body :: "cstring \<Rightarrow> (bool \<times> bool \<times> bool) loop_body" where
  "read_body display_name s m =
     (let (saw_start, content_printed, last_char_newline) = s; f = msg_fields m in
      if field_count m = 0 then
        ([''Received malformed response from Storage Server'' @ [newline]], s, Return (-1))
      else if protocol_is_error m then ([ns_response_text m], s, Return (-1))
      else if f ! 0 = ''OK_READ_START'' then
        let name = (if field_count m \<ge> 2 \<and> f ! 1 \<noteq> [] then f ! 1 else display_name) in
        ([(if name \<noteq> [] then ''---- '' @ name @ '' ----'' else ''---- File ----'') @ [newline]],
         (True, content_printed, last_char_newline), More)
      else if f ! 0 = ''OK_CONTENT'' then
        if field_count m \<ge> 2 \<and> length (f ! 1) > 0 then
          ([f ! 1], (saw_start, True, last (f ! 1) = newline), More)
        else ([], s, More)
      else if f ! 0 = ''OK_READ_END'' then
        if \<not> saw_start then ([''Unexpected READ_END without READ_START'' @ [newline]], s, Return (-1))
        else (if \<not> content_printed then [''(empty file)'' @ [newline]]
              else if \<not> last_char_newline then [[newline]] else [], s, Return 0)
      else ([''Unexpected response from Storage Server: '' @ f ! 0 @ [newline]], s, Return (-1)))"

definition client_receive_read_stream :: "cstring \<Rightarrow> io \<Rightarrow> io \<times> int" where
  "client_receive_read_stream display_name io =
     (case loop_ss (read_body display_name) (False, False, True) io of
        (io1, _, None) \<Rightarrow> (say_line ''Connection lost while reading file'' io1, -1)
      | (io1, _, Some rc) \<Rightarrow> (io1, rc))"

text \<open>\<open>client_receive_word_stream\<close>: the locals are \<open>saw_start\<close> and \<open>content_printed\<close>.\<close>

definition word_body :: "cstring \<Rightarrow> (bool \<times> bool) loop_body" where
  "word_body display_name s m =
     (let (saw_start, content_printed) = s; f = msg_fields m in
      if field_count m = 0 then
        ([newline # ''Received malformed response from Storage Server'' @ [newline]], s, Return (-1))
      else if protocol_is_error m then ([ns_response_text m], s, Return (-1))
      else if f ! 0 = ''OK_STREAM'' then
        let name = (if field_count m \<ge> 2 \<and> f ! 1 \<noteq> [] then f ! 1 else display_name) in
        ([''--- Streaming '' @ (if name \<noteq> [] then name else ''file'') @ '' ---'' @ [newline]],
         (True, content_printed), More)
      else if f ! 0 = ''OK_CONTENT'' then
        if field_count m \<ge> 2 then ([f ! 1 @ '' ''], (saw_start, True), More) else ([], s, More)
      else if f ! 0 = ''OK_STREAM_END'' then
        ((if \<not> saw_start then [''Unexpected STREAM_END without STREAM_START'' @ [newline]] else []) @
         (if \<not> content_printed then [''(empty file)''] else []) @
         [newline # ''--- End of Stream ---'' @ [newline]], s, Return 0)
      else ([newline # ''Unexpected response from Storage Server: '' @ f ! 0 @ [newline]], s, Return (-1)))"

definition client_receive_word_stream :: "cstring \<Rightarrow> io \<Rightarrow> io \<times> int" where
  "client_receive_word_stream display_name io =
     (case loop_ss (word_body display_name) (False, False) io of
        (io1, _, None) \<Rightarrow> (say_line (newline # ''Connection lost while streaming file'') io1, -1)
      | (io1, _, Some rc) \<Rightarrow> (io1, rc))"

section \<open>READ and STREAM\<close>

text \<open>The end of a handler: the connection is closed.  \<open>request_then\<close> sends the request of a
  handler and runs the rest on the answer.\<close>

definition hang_up :: "io \<times> int \<Rightarrow> io \<times> int" where
  "hang_up r = (note_event Closed_ss (fst r), snd r)"

definition request_then :: "cstring list \<Rightarrow> cstring \<Rightarrow> (io \<Rightarrow> io \<times> int) \<Rightarrow> io \<Rightarrow> io \<times> int" where
  "request_then flds what answer io =
     (let (io1, ok) = send_request flds what io in
      if \<not> ok then (io1, -1) else hang_up (answer io1))"

definition client_handle_read :: "client \<Rightarrow> cstring \<Rightarrow> io \<Rightarrow> io \<times> int" where
  "client_handle_read cl fname io =
     (if cl_ns_sockfd cl < 0 then (io, -1)
      else if \<not> validate_filename fname then (say_line ''Invalid filename.'' io, -1)
      else with_storage cl ''READ'' fname (\<lambda>target io1.
        request_then [''REQ_READ'', cl_username cl, target] ''READ'' (client_receive_read_stream target) io1) io)"

definition client_handle_stream :: "client \<Rightarrow> cstring \<Rightarrow> io \<Rightarrow> io \<times> int" where
  "client_handle_stream cl fname io =
     (if cl_ns_sockfd cl < 0 then (io, -1)
      else if \<not> validate_filename fname then (say_line ''Invalid filename.'' io, -1)
      else with_storage cl ''STREAM'' fname (\<lambda>target io1.
        request_then [''REQ_STREAM'', cl_username cl, target] ''STREAM'' (client_receive_word_stream target) io1) io)"

section \<open>UNDO and checkpoints\<close>

text \<open>One request and one response.\<close>

definition one_answer :: "cstring list \<Rightarrow> cstring \<Rightarrow> io \<Rightarrow> io \<times> int" where
  "one_answer flds what io =
     request_then flds what (\<lambda>io1. case client_receive_ss_message io1 of
         (io2, None) \<Rightarrow> (say_line (''Connection lost waiting for '' @ what @ '' response.'') io2, -1)
       | (io2, Some resp) \<Rightarrow>
           (client_print_ns_response resp io2, if protocol_is_error resp then -1 else 0)) io"

definition client_handle_undo :: "client \<Rightarrow> cstring \<Rightarrow> io \<Rightarrow> io \<times> int" where
  "client_handle_undo cl fname io =
     (if cl_ns_sockfd cl < 0 then (io, -1)
      else if \<not> validate_filename fname then (say_line ''Invalid filename.'' io, -1)
      else with_storage cl ''WRITE'' fname (\<lambda>target io1.
        one_answer [''REQ_UNDO'', cl_username cl, target] ''UNDO'' io1) io)"

definition client_handle_checkpoint :: "client \<Rightarrow> cstring \<Rightarrow> cstring \<Rightarrow> io \<Rightarrow> io \<times> int" where
  "client_handle_checkpoint cl fname tag io =
     (if cl_ns_sockfd cl < 0 then (io, -1)
      else if \<not> validate_filename fname then (say_line ''Invalid filename.'' io, -1)
      else if tag = [] then (say_line ''Checkpoint tag cannot be empty.'' io, -1)
      else with_storage cl ''CHECKPOINT'' fname (\<lambda>target io1.
        one_answer [''REQ_CHECKPOINT'', cl_username cl, target, tag] ''CHECKPOINT'' io1) io)"

definition client_handle_revert :: "client \<Rightarrow> cstring \<Rightarrow> cstring \<Rightarrow> io \<Rightarrow> io \<times> int" where
  "client_handle_revert cl fname tag io =
     (if cl_ns_sockfd cl < 0 then (io, -1)
      else if \<not> validate_filename fname then (say_line ''Invalid filename.'' io, -1)
      else if tag = [] then (say_line ''Checkpoint tag cannot be empty.'' io, -1)
      else with_storage cl ''REVERT'' fname (\<lambda>target io1.
        one_answer [''REQ_REVERT'', cl_username cl, target, tag] ''REVERT'' io1) io)"

definition checkpoints_body :: "unit loop_body" where
  "checkpoints_body s m =
     (let f = msg_fields m in
      if protocol_is_error m then ([ns_response_text m], s, Return (-1))
      else if f ! 0 = ''OK_LIST_CHECKPOINT'' then
        ([''  - '' @ (if field_count m > 1 then f ! 1 else ''(unknown)'') @ [newline]], s, More)
      else if f ! 0 = ''OK_LIST_CHECKPOINT_END'' then ([], s, Return 0)
      else ([''Unexpected response while listing checkpoints: '' @ f ! 0 @ [newline]], s, Return (-1)))"

definition client_handle_listcheckpoints :: "client \<Rightarrow> cstring \<Rightarrow> io \<Rightarrow> io \<times> int" where
  "client_handle_listcheckpoints cl fname io =
     (if cl_ns_sockfd cl < 0 then (io, -1)
      else if \<not> validate_filename fname then (say_line ''Invalid filename.'' io, -1)
      else with_storage cl ''LISTCHECKPOINTS'' fname (\<lambda>target io1.
        request_then [''REQ_LIST_CHECKPOINTS'', cl_username cl, target] ''LISTCHECKPOINTS'' (\<lambda>io2.
          case loop_ss checkpoints_body () (say_line (''Checkpoints for '' @ target @ '':'') io2) of
            (io3, _, None) \<Rightarrow> (say_line ''Connection lost while listing checkpoints.'' io3, -1)
          | (io3, _, Some rc) \<Rightarrow> (io3, rc)) io1) io)"

definition client_handle_viewcheckpoint :: "client \<Rightarrow> cstring \<Rightarrow> cstring \<Rightarrow> io \<Rightarrow> io \<times> int" where
  "client_handle_viewcheckpoint cl fname tag io =
     (if cl_ns_sockfd cl < 0 then (io, -1)
      else if \<not> validate_filename fname then (say_line ''Invalid filename.'' io, -1)
      else if tag = [] then (say_line ''Checkpoint tag cannot be empty.'' io, -1)
      else with_storage cl ''VIEWCHECKPOINT'' fname (\<lambda>target io1.
        request_then [''REQ_VIEWCHECKPOINT'', cl_username cl, target, tag] ''VIEWCHECKPOINT''
          (client_receive_read_stream
            (bounded_copy (MAX_FILENAME_LENGTH + MAX_TAG_LENGTH + 4) (target @ '' ['' @ tag @ '']''))) io1) io)"

section \<open>Lemmas\<close>

lemma location_stdin [simp]: "stdin_text (fst (client_request_location cl operation fname io)) = stdin_text io"
  using stdin_kept(8) [of cl _ io] stdin_kept(9) [of cl "fst (client_send_message cl _ io)"]
  by (auto simp: client_request_location_def location_of_def case_prod_beta Let_def split: option.splits prod.splits)

lemma connect_stdin [simp]: "stdin_text (fst (client_connect_to_storage ip port io)) = stdin_text io"
  using stdin_kept(6) [of io]
  by (auto simp: client_connect_to_storage_def case_prod_beta Let_def split: option.splits prod.splits dial.splits)

lemma send_request_stdin [simp]: "stdin_text (fst (send_request flds what io)) = stdin_text io"
  by (auto simp: send_request_def case_prod_beta Let_def split: option.splits)

end
