(* ===== verification/Client_Session.thy ===== *)
theory Client_Session
  imports Client_Storage
begin

text \<open>
  The interactive part of the client (\<open>client.c\<close>): the write session, the dispatch of
  commands, the main loop, the start of the process and its end.

  A write session has three phases: the lock (\<open>lock_body\<close>), the edits, one line of the
  standard input each (\<open>edit_line\<close>), and the commit.  Both interactive loops end because every
  round reads at least one character of the standard input.
\<close>

section \<open>The write session\<close>

record lock_state =
  got_lock :: bool
  got_content :: bool
  current_sentence :: "cstring option"
  locked_filename :: cstring
  locked_sentence_index :: int

definition lock_progress :: "lock_state \<Rightarrow> cstring list \<times> lock_state \<times> verdict" where
  "lock_progress s = ([], s, if \<not> got_lock s \<or> \<not> got_content s then More else Return 0)"

definition lock_body :: "lock_state loop_body" where
  "lock_body s m =
     (let f = msg_fields m in
      if protocol_is_error m then ([ns_response_text m], s, Return (-1))
      else if f ! 0 = ''OK_LOCKED'' then
        let s1 = s\<lparr>got_lock := True\<rparr>;
            s2 = (if field_count m \<ge> 2 then s1\<lparr>locked_filename := bounded_copy MAX_FILENAME_LENGTH (f ! 1)\<rparr> else s1);
            s3 = (if field_count m \<ge> 3 then
                    let (idx_val, endptr, erange) = strtol64 (f ! 2) in
                    if endptr = [] \<and> idx_val \<ge> 0 \<and> idx_val \<le> INT_MAX_I then s2\<lparr>locked_sentence_index := idx_val\<rparr> else s2
                  else s2) in
        lock_progress s3
      else if f ! 0 = ''OK_CONTENT'' then
        lock_progress (s\<lparr>got_content := True, current_sentence := Some (if field_count m \<ge> 2 then f ! 1 else [])\<rparr>)
      else ([''Unexpected response from Storage Server: '' @ f ! 0 @ [newline]], s, Return (-1)))"

definition sentence_line :: "cstring \<Rightarrow> cstring" where
  "sentence_line t = ''Current sentence: '' @ (if t \<noteq> [] then t else ''(empty)'') @ [newline]"

text \<open>The two loops that wait for the answer to ETIRW and to an edit return 0 when the
  session is over and 1 for a \<open>break\<close>.\<close>

definition commit_body :: "unit loop_body" where
  "commit_body s m =
     (let f = msg_fields m in
      if protocol_is_error m then ([ns_response_text m], s, Return 1)
      else if f ! 0 = ''OK_WRITE_DONE'' then ([''Write committed successfully.'' @ [newline]], s, Return 0)
      else if f ! 0 = ''OK_CONTENT'' then (if field_count m \<ge> 2 then [sentence_line (f ! 1)] else [], s, More)
      else if f ! 0 = ''OK'' then ([(if field_count m \<ge> 2 then f ! 1 else ''OK'') @ [newline]], s, More)
      else ([''Unexpected response from Storage Server: '' @ f ! 0 @ [newline]], s, More))"

definition edit_body :: "unit loop_body" where
  "edit_body s m =
     (let f = msg_fields m in
      if protocol_is_error m then ([ns_response_text m], s, Return 1)
      else if f ! 0 = ''OK'' then ([(if field_count m \<ge> 2 then f ! 1 else ''Edit applied.'') @ [newline]], s, Return 1)
      else if f ! 0 = ''OK_CONTENT'' then (if field_count m \<ge> 2 then [sentence_line (f ! 1)] else [], s, More)
      else if f ! 0 = ''OK_WRITE_DONE'' then ([''Write committed on server.'' @ [newline]], s, Return 0)
      else ([''Unexpected response from Storage Server: '' @ f ! 0 @ [newline]], s, Return 1))"

definition is_blank :: "char \<Rightarrow> bool" where
  "is_blank c \<longleftrightarrow> c = CHR '' '' \<or> c = CHR 0x09"

text \<open>One line of a session: \<open>None\<close> when the session goes on, otherwise the result of the handler.\<close>

definition session_answer :: "unit loop_body \<Rightarrow> cstring \<Rightarrow> io \<Rightarrow> io \<times> int option" where
  "session_answer body lost io = (case loop_ss body () io of
       (io1, _, None) \<Rightarrow> (say_line lost io1, Some (-1))
     | (io1, _, Some rc) \<Rightarrow> (io1, if rc = 0 then Some 0 else None))"

text \<open>A message to the storage server and the wait for its answer; \<open>unbuilt\<close> is what happens when the
  message cannot be built.\<close>

definition exchange :: "cstring list \<Rightarrow> cstring \<Rightarrow> int option \<Rightarrow> unit loop_body \<Rightarrow> cstring \<Rightarrow> io \<Rightarrow> io \<times> int option" where
  "exchange flds what unbuilt body lost io = (case protocol_build_message (map Some flds) of
       None \<Rightarrow> (say_line (''Failed to build '' @ what @ '' message.'') io, unbuilt)
     | Some message \<Rightarrow>
         let (io1, ok) = transmit (Sent_ss message) io in
         if ok then session_answer body lost io1
         else (say_line (''Failed to send '' @ what @ '' to Storage Server.'') io1, Some (-1)))"

definition edit_line :: "cstring \<Rightarrow> io \<Rightarrow> io \<times> int option" where
  "edit_line input_line io =
     (let cursor = dropWhile is_blank (strip_terminator input_line) in
      if cursor = [] then (io, None)
      else if cursor = ''ETIRW'' then
        exchange [''ETIRW''] ''ETIRW'' (Some (-1)) commit_body ''Connection lost while finalizing write.'' io
      else let (idx_val, endptr, erange) = strtol64 cursor in
        if endptr = cursor \<or> erange \<or> idx_val < 0 \<or> idx_val > INT_MAX_I then
          (say_line ''Invalid word index. Use a non-negative integer.'' io, None)
        else exchange [''WRITE_DATA'', bounded_copy 32 (show_int idx_val), dropWhile is_blank endptr]
          ''WRITE_DATA'' None edit_body ''Connection lost while applying edit.'' io)"

lemma session_answer_stdin [simp]: "stdin_text (fst (session_answer body lost io)) = stdin_text io"
  using stdin_kept(12) [where body = body and st = "()" and io = io]
  by (auto simp: session_answer_def case_prod_beta split: option.splits prod.splits)

lemma exchange_stdin [simp]: "stdin_text (fst (exchange flds what unbuilt body lost io)) = stdin_text io"
  by (auto simp: exchange_def case_prod_beta Let_def split: option.splits)

lemma edit_line_stdin [simp]: "stdin_text (fst (edit_line l io)) = stdin_text io"
  by (auto simp: edit_line_def case_prod_beta Let_def)

lemma fgets_stdin: "fgets_next n s = Some p \<Longrightarrow> length (snd p) < length s"
  using fgets_shorter [of n s "fst p" "snd p"] by simp

function edit_loop :: "io \<Rightarrow> io \<times> int" where
  "edit_loop io =
     (let io1 = say ''write> '' io in
      case fgets_next CLIENT_BUFFER_SIZE (stdin_text io) of
        None \<Rightarrow> (say_line (newline # ''Input closed; aborting write session.'') io1, -1)
      | Some p \<Rightarrow> (case snd (edit_line (fst p) (io1\<lparr>stdin_text := snd p\<rparr>)) of
            None \<Rightarrow> edit_loop (fst (edit_line (fst p) (io1\<lparr>stdin_text := snd p\<rparr>)))
          | Some rc \<Rightarrow> (fst (edit_line (fst p) (io1\<lparr>stdin_text := snd p\<rparr>)), rc)))"
  by pat_completeness auto
termination
  by (relation "measure (\<lambda>io. length (stdin_text io))") (auto dest: fgets_stdin)

declare edit_loop.simps [simp del]

definition session_intro :: "cstring \<Rightarrow> lock_state \<Rightarrow> cstring" where
  "session_intro target_filename s =
     ''Locked sentence '' @ show_int (locked_sentence_index s) @ '' in '' @
       (if locked_filename s \<noteq> [] then locked_filename s else target_filename) @ ''.'' @ [newline] @
     sentence_line (case current_sentence s of Some t \<Rightarrow> t | None \<Rightarrow> []) @
     ''Enter '' @ quoted ''<word_index> <content>'' @ '' to edit, or '' @ quoted ''ETIRW'' @ '' to finalize.'' @ [newline] @
     ''Word indices start at 0; punctuation marks (., !, ?) mark sentence boundaries.'' @ [newline]"

definition client_handle_write :: "client \<Rightarrow> cstring \<Rightarrow> int \<Rightarrow> io \<Rightarrow> io \<times> int" where
  "client_handle_write cl fname sentence_index io =
     (if cl_ns_sockfd cl < 0 then (io, -1)
      else if \<not> validate_filename fname then (say_line ''Invalid filename.'' io, -1)
      else if sentence_index < 0 then (say_line ''Sentence index must be a non-negative integer.'' io, -1)
      else with_storage cl ''WRITE'' fname (\<lambda>target io1.
        hang_up (case protocol_build_message (map Some
            [''REQ_WRITE_LOCK'', cl_username cl, target, bounded_copy 32 (show_int sentence_index)]) of
          None \<Rightarrow> (say_line ''Failed to build WRITE lock request.'' io1, -1)
        | Some lock_msg \<Rightarrow>
          let (io2, ok) = transmit (Sent_ss lock_msg) io1 in
          if \<not> ok then (say_line ''Failed to send WRITE lock request to Storage Server.'' io2, -1)
          else case loop_ss lock_body \<lparr>got_lock = False, got_content = False, current_sentence = None,
                 locked_filename = [], locked_sentence_index = sentence_index\<rparr> io2 of
              (io3, s, None) \<Rightarrow> (say_line ''Connection lost while acquiring write lock.'' io3, -1)
            | (io3, s, Some rc) \<Rightarrow>
                if rc \<noteq> 0 then (io3, -1) else edit_loop (say (session_intro target s) io3))) io)"

section \<open>Dispatch of commands\<close>

definition usage :: "cstring \<Rightarrow> io \<Rightarrow> io \<times> int" where
  "usage t io = (say_line (''Usage: '' @ t) io, -1)"

text \<open>A command with word arguments, and one with a request number.\<close>

definition with_args :: "nat list \<Rightarrow> cstring \<Rightarrow> cstring \<Rightarrow> (cstring list \<Rightarrow> io \<Rightarrow> io \<times> int) \<Rightarrow> io \<Rightarrow> io \<times> int" where
  "with_args widths usage_text input run io = (case scan_args widths input of
       None \<Rightarrow> usage usage_text io
     | Some (args, _) \<Rightarrow> run args io)"

definition with_request_id :: "cstring \<Rightarrow> cstring \<Rightarrow> (int \<Rightarrow> io \<Rightarrow> io \<times> int) \<Rightarrow> io \<Rightarrow> io \<times> int" where
  "with_request_id usage_text input run io =
     (case Option.bind (scan_args [] input) (\<lambda>(_, t). scan_int t) of
        None \<Rightarrow> usage usage_text io
      | Some (request_id, _) \<Rightarrow>
          if request_id \<le> 0 then (say_line ''Request ID must be a positive integer.'' io, -1)
          else run request_id io)"

text \<open>The flags of VIEW are everything after the first blank of the input.\<close>

definition view_arguments :: "cstring \<Rightarrow> cstring option" where
  "view_arguments input = (case strchr_tail (CHR '' '') input of
       None \<Rightarrow> None
     | Some t \<Rightarrow>
         let flags = trim_string (bounded_copy CLIENT_BUFFER_SIZE (dropWhile (\<lambda>c. c = CHR '' '') (tl t))) in
         if flags \<noteq> [] then Some flags else None)"

definition command_write :: "client \<Rightarrow> cstring \<Rightarrow> io \<Rightarrow> io \<times> int" where
  "command_write cl input io =
     (case Option.bind (scan_args [511] input) (\<lambda>(args, t). map_option (\<lambda>(i, _). (args ! 0, i)) (scan_int t)) of
        None \<Rightarrow> usage ''WRITE <filename> <sentence_index>'' io
      | Some (fname, sentence_index) \<Rightarrow>
          if sentence_index < 0 then (say_line ''Sentence index must be a non-negative integer.'' io, -1)
          else client_handle_write cl fname sentence_index io)"

text \<open>The second half of the chain of \<open>client_process_command\<close>: folders and checkpoints.\<close>

definition client_folder_command :: "client \<Rightarrow> cstring \<Rightarrow> cstring \<Rightarrow> io \<Rightarrow> io \<times> int" where
  "client_folder_command cl command input io =
     (if strcasecmp_eq command ''CREATEFOLDER'' then
        with_args [511] ''CREATEFOLDER <path>'' input (\<lambda>a. client_handle_createfolder cl (a ! 0)) io
      else if strcasecmp_eq command ''MOVE'' then
        with_args [511, 511] ''MOVE <source_path> <destination_folder>'' input
          (\<lambda>a. client_handle_move cl (a ! 0) (a ! 1)) io
      else if strcasecmp_eq command ''VIEWFOLDER'' then
        with_args [511] ''VIEWFOLDER <path>'' input (\<lambda>a. client_handle_viewfolder cl (a ! 0)) io
      else if strcasecmp_eq command ''CHECKPOINT'' then
        with_args [511, 127] ''CHECKPOINT <filename> <tag>'' input
          (\<lambda>a. client_handle_checkpoint cl (a ! 0) (a ! 1)) io
      else if strcasecmp_eq command ''VIEWCHECKPOINT'' then
        with_args [511, 127] ''VIEWCHECKPOINT <filename> <tag>'' input
          (\<lambda>a. client_handle_viewcheckpoint cl (a ! 0) (a ! 1)) io
      else if strcasecmp_eq command ''REVERT'' then
        with_args [511, 127] ''REVERT <filename> <tag>'' input (\<lambda>a. client_handle_revert cl (a ! 0) (a ! 1)) io
      else if strcasecmp_eq command ''LISTCHECKPOINTS'' then
        with_args [511] ''LISTCHECKPOINTS <filename>'' input (\<lambda>a. client_handle_listcheckpoints cl (a ! 0)) io
      else (say_line (''Unknown command: '' @ command) io, -1))"

definition client_process_command :: "client \<Rightarrow> cstring \<Rightarrow> io \<Rightarrow> io \<times> int" where
  "client_process_command cl input io = (case scan_word None input of
       None \<Rightarrow> (io, -1)
     | Some (command, _) \<Rightarrow>
       if strcasecmp_eq command ''VIEW'' then client_handle_view cl (view_arguments input) io
       else if strcasecmp_eq command ''READ'' then
         with_args [511] ''READ <filename>'' input (\<lambda>a. client_handle_read cl (a ! 0)) io
       else if strcasecmp_eq command ''CREATE'' then
         with_args [511] ''CREATE <filename>'' input (\<lambda>a. client_handle_create cl (a ! 0)) io
       else if strcasecmp_eq command ''WRITE'' then command_write cl input io
       else if strcasecmp_eq command ''UNDO'' then
         with_args [511] ''UNDO <filename>'' input (\<lambda>a. client_handle_undo cl (a ! 0)) io
       else if strcasecmp_eq command ''INFO'' then
         with_args [511] ''INFO <filename>'' input (\<lambda>a. client_handle_info cl (a ! 0)) io
       else if strcasecmp_eq command ''DELETE'' then
         with_args [511] ''DELETE <filename>'' input (\<lambda>a. client_handle_delete cl (a ! 0)) io
       else if strcasecmp_eq command ''COPY'' then
         with_args [511, 511] ''COPY <source_filename> <dest_filename>'' input
           (\<lambda>a. client_handle_copy cl (a ! 0) (a ! 1)) io
       else if strcasecmp_eq command ''STREAM'' then
         with_args [511] ''STREAM <filename>'' input (\<lambda>a. client_handle_stream cl (a ! 0)) io
       else if strcasecmp_eq command ''LIST'' then client_handle_list cl io
       else if strcasecmp_eq command ''REQUESTACCESS'' then
         with_args [511, 15] ''REQUESTACCESS <filename> <R|W|RW>'' input
           (\<lambda>a. client_handle_requestaccess cl (a ! 0) (a ! 1)) io
       else if strcasecmp_eq command ''LISTREQUESTS'' then client_handle_listrequests cl io
       else if strcasecmp_eq command ''ADDACCESS'' then
         with_args [15, 511, 255] ''ADDACCESS -R|-W <filename> <username>'' input
           (\<lambda>a. client_handle_addaccess cl (a ! 0) (a ! 1) (a ! 2)) io
       else if strcasecmp_eq command ''REMACCESS'' then
         with_args [511, 255] ''REMACCESS <filename> <username>'' input
           (\<lambda>a. client_handle_remaccess cl (a ! 0) (a ! 1)) io
       else if strcasecmp_eq command ''APPROVEACCESS'' then
         with_request_id ''APPROVEACCESS <request_id>'' input (client_handle_approveaccess cl) io
       else if strcasecmp_eq command ''REJECTACCESS'' then
         with_request_id ''REJECTACCESS <request_id>'' input (client_handle_rejectaccess cl) io
       else if strcasecmp_eq command ''EXEC'' then
         with_args [511] ''EXEC <filename>'' input (\<lambda>a. client_handle_exec cl (a ! 0)) io
       else client_folder_command cl command input io)"

end
