(* ===== verification/Client_Main.thy ===== *)
theory Client_Main
  imports Client_Session
begin

text \<open>
  The main loop, the connection to the Name Server and \<open>main\<close> of the client (\<open>client.c\<close>, lines 88 to
  197 and 2245 to 2396).  The handlers never push characters back, which is why the loop over the
  standard input ends.
\<close>

section \<open>The handlers leave the standard input or read from it\<close>

definition reads_on :: "(io \<Rightarrow> io \<times> int) \<Rightarrow> bool" where
  "reads_on h \<longleftrightarrow> (\<forall>io. length (stdin_text (fst (h io))) \<le> length (stdin_text io))"

lemma reads_onI: "(\<And>io. stdin_text (fst (h io)) = stdin_text io) \<Longrightarrow> reads_on h"
  by (simp add: reads_on_def)

lemma edit_loop_reads: "reads_on edit_loop"
  unfolding reads_on_def
proof
  fix io
  show "length (stdin_text (fst (edit_loop io))) \<le> length (stdin_text io)"
  proof (induction io rule: edit_loop.induct)
    case (1 io)
    show ?case
    proof (cases "fgets_next CLIENT_BUFFER_SIZE (stdin_text io)")
      case None
      then show ?thesis
        by (subst edit_loop.simps) (simp add: Let_def)
    next
      case (Some p)
      then show ?thesis
        using 1 [OF refl Some] fgets_stdin [OF Some] by (subst edit_loop.simps) (auto simp: Let_def split: option.splits)
    qed
  qed
qed

lemma with_storage_reads:
  assumes "\<And>target. reads_on (body target)"
  shows "reads_on (with_storage cl operation fname body)"
proof -
  have "length (stdin_text (fst (with_storage cl operation fname body io))) \<le> length (stdin_text io)" for io
  proof -
    obtain io1 loc where loc: "client_request_location cl operation fname io = (io1, loc)"
      by fastforce
    have i1: "stdin_text io1 = stdin_text io"
      using location_stdin [of cl operation fname io] by (simp add: loc)
    show ?thesis
    proof (cases loc)
      case (Some a)
      obtain ip port resolved where a: "a = (ip, port, resolved)"
        by (cases a)
      obtain io2 ok where c: "client_connect_to_storage ip port io1 = (io2, ok)"
        by fastforce
      have "stdin_text io2 = stdin_text io"
        using connect_stdin [of ip port io1] by (simp add: c i1)
      then show ?thesis
        using assms [of "if resolved \<noteq> [] then resolved else fname"]
        by (simp add: with_storage_def loc Some a c reads_on_def) (metis order_refl)
    qed (simp add: with_storage_def loc i1)
  qed
  then show ?thesis
    by (simp add: reads_on_def)
qed

lemma hang_up_stdin [simp]: "stdin_text (fst (hang_up r)) = stdin_text (fst r)"
  by (simp add: hang_up_def)

lemma loop_result_stdin:
  "loop_ns body st io = (io1, t, rc) \<Longrightarrow> stdin_text io1 = stdin_text io"
  "loop_ss body st io = (io1, t, rc) \<Longrightarrow> stdin_text io1 = stdin_text io"
  using stdin_kept(11) [where body = body and st = st and io = io] stdin_kept(12) [where body = body and st = st and io = io]
  by simp_all

lemma start_result_stdin: "start_command cl flds what io = (io1, ok) \<Longrightarrow> stdin_text io1 = stdin_text io"
  "ask_ns cl flds what io = (io1, resp) \<Longrightarrow> stdin_text io1 = stdin_text io"
  "send_request flds what io = (io1, ok) \<Longrightarrow> stdin_text io1 = stdin_text io"
  "client_receive_ss_message io = (io1, m) \<Longrightarrow> stdin_text io1 = stdin_text io"
  "transmit e io = (io1, ok) \<Longrightarrow> stdin_text io1 = stdin_text io"
  using start_stdin [of cl flds what io] ask_stdin [of cl flds what io] send_request_stdin [of flds what io]
    stdin_kept(5) [of e io] stdin_kept(10) [of io] by simp_all

lemmas result_stdin = loop_result_stdin start_result_stdin

lemma ask_reads: "reads_on (ask_and_forget cl flds what)" "reads_on (ask_and_check cl flds what)"
  by (rule reads_onI; auto simp: ask_and_forget_def ask_and_check_def split: prod.splits option.splits dest: result_stdin)+

lemma request_reads: "reads_on h \<Longrightarrow> reads_on (request_then flds what h)"
  by (auto simp: reads_on_def request_then_def split: prod.splits dest!: result_stdin) (metis)

lemma streams_read: "reads_on (client_receive_read_stream name)" "reads_on (client_receive_word_stream name)"
  by (rule reads_onI; auto simp: client_receive_read_stream_def client_receive_word_stream_def
    split: prod.splits option.splits dest!: result_stdin)+

lemma one_answer_reads: "reads_on (one_answer flds what)"
proof -
  have "one_answer flds what = request_then flds what (\<lambda>io1. case client_receive_ss_message io1 of
      (io2, None) \<Rightarrow> (say_line (''Connection lost waiting for '' @ what @ '' response.'') io2, -1)
    | (io2, Some resp) \<Rightarrow> (client_print_ns_response resp io2, if protocol_is_error resp then -1 else 0))"
    by (simp add: one_answer_def fun_eq_iff)
  then show ?thesis
    by (simp only:) (rule request_reads, rule reads_onI, auto split: prod.splits option.splits dest!: result_stdin)
qed

lemma list_commands_read: "reads_on (client_handle_view cl flags)" "reads_on (client_handle_list cl)"
    "reads_on (client_handle_listrequests cl)" "reads_on (client_handle_viewfolder cl path)"
    "reads_on (client_handle_info cl path)" "reads_on (client_handle_exec cl path)"
  by (rule reads_onI; auto simp: client_handle_view_def client_handle_list_def client_handle_listrequests_def
    client_handle_viewfolder_def client_handle_info_def client_handle_exec_def Let_def
    split: prod.splits option.splits dest!: result_stdin)+

lemma checkpoints_read: "reads_on (\<lambda>io2. case loop_ss checkpoints_body () (say_line t io2) of
    (io3, _, None) \<Rightarrow> (say_line u io3, -1) | (io3, _, Some rc) \<Rightarrow> (io3, rc))"
  by (rule reads_onI) (auto split: prod.splits option.splits dest!: result_stdin)

lemmas storage_reads = with_storage_reads request_reads streams_read one_answer_reads checkpoints_read

lemmas storage_reads_at = storage_reads [unfolded reads_on_def, rule_format]

lemma storage_commands_read: "reads_on (client_handle_read cl fname)" "reads_on (client_handle_stream cl fname)"
    "reads_on (client_handle_undo cl fname)" "reads_on (client_handle_checkpoint cl fname tag)"
    "reads_on (client_handle_revert cl fname tag)" "reads_on (client_handle_listcheckpoints cl fname)"
    "reads_on (client_handle_viewcheckpoint cl fname tag)"
  unfolding reads_on_def client_handle_read_def client_handle_stream_def client_handle_undo_def
    client_handle_checkpoint_def client_handle_revert_def client_handle_listcheckpoints_def client_handle_viewcheckpoint_def
  by (auto intro!: storage_reads_at)

lemma edit_loop_at: "stdin_text io1 = stdin_text io \<Longrightarrow> length (stdin_text (fst (edit_loop (say t io1)))) \<le> length (stdin_text io)"
  using edit_loop_reads unfolding reads_on_def by (metis stdin_kept(2))

lemma write_reads: "reads_on (client_handle_write cl fname sentence_index)"
  unfolding reads_on_def client_handle_write_def
  by (auto intro!: with_storage_reads [unfolded reads_on_def, rule_format] edit_loop_at
    split: option.splits prod.splits dest!: result_stdin)

lemmas command_reads = ask_reads list_commands_read storage_commands_read write_reads

lemmas command_reads_at = command_reads [unfolded reads_on_def, rule_format]

lemma access_commands_read: "reads_on (client_handle_addaccess cl perm fname user)" "reads_on (client_handle_remaccess cl fname user)"
    "reads_on (client_handle_requestaccess cl fname perm)" "reads_on (client_handle_approveaccess cl i)"
    "reads_on (client_handle_rejectaccess cl i)" "reads_on (client_handle_create cl fname)"
    "reads_on (client_handle_delete cl fname)" "reads_on (client_handle_createfolder cl path)"
    "reads_on (client_handle_move cl src dest)" "reads_on (client_handle_copy cl src dest)"
  unfolding reads_on_def client_handle_addaccess_def client_handle_remaccess_def client_handle_requestaccess_def
    client_handle_approveaccess_def client_handle_rejectaccess_def client_handle_create_def client_handle_delete_def
    client_handle_createfolder_def client_handle_move_def client_handle_copy_def
  by (auto simp: Let_def split: option.splits intro!: command_reads_at)

lemma with_args_reads: "(\<And>a. reads_on (run a)) \<Longrightarrow> reads_on (with_args widths t input run)"
  by (auto simp: reads_on_def with_args_def usage_def split: option.splits)

lemma with_request_id_reads: "(\<And>i. reads_on (run i)) \<Longrightarrow> reads_on (with_request_id t input run)"
  by (auto simp: reads_on_def with_request_id_def usage_def split: option.splits)

lemma command_write_reads: "reads_on (command_write cl input)"
  using write_reads by (auto simp: reads_on_def command_write_def usage_def split: option.splits)

lemmas dispatch_reads = with_args_reads with_request_id_reads command_write_reads command_reads access_commands_read

lemma if_reads: "length (stdin_text (fst r1)) \<le> n \<Longrightarrow> length (stdin_text (fst r2)) \<le> n \<Longrightarrow>
    length (stdin_text (fst (if P then r1 else r2))) \<le> n"
  by simp

lemma process_reads: "reads_on (client_process_command cl input)"
proof (cases "scan_word None input")
  case None
  then show ?thesis
    by (simp add: reads_on_def client_process_command_def)
next
  case (Some a)
  show ?thesis
    unfolding reads_on_def client_process_command_def client_folder_command_def Some option.case prod.case_eq_if
    by (intro allI if_reads dispatch_reads [unfolded reads_on_def, rule_format]) simp
qed

section \<open>The main loop\<close>

definition help_text :: cstring where
  "help_text = concat (map (\<lambda>l. l @ [newline])
     [''Available commands:'', ''  CREATE <filename>'', ''  DELETE <filename>'', ''  COPY <source> <dest>'',
      ''  READ <filename>'', ''  WRITE <filename> <sentence_index>'', ''  VIEW [-a] [-l] [-al]'', ''  VIEWFOLDER <path>'',
      ''  INFO <filename>'', ''  STREAM <filename>'', ''  UNDO <filename>'', ''  EXEC <filename>'', ''  LIST'',
      ''  CREATEFOLDER <path>'', ''  MOVE <source> <destination>'', ''  ADDACCESS -R|-W <filename> <username>'',
      ''  REMACCESS <filename> <username>'', ''  REQUESTACCESS <filename> <R|W|RW>'', ''  LISTREQUESTS'',
      ''  APPROVEACCESS <request_id>'', ''  REJECTACCESS <request_id>'', ''  CHECKPOINT <filename> <tag>'',
      ''  VIEWCHECKPOINT <filename> <tag>'', ''  REVERT <filename> <tag>'', ''  LISTCHECKPOINTS <filename>'',
      ''  quit/exit - Exit the client''])"

definition run_line :: "client \<Rightarrow> cstring \<Rightarrow> io \<Rightarrow> io" where
  "run_line cl input io =
     (if input = ''help'' then say help_text io
      else let (io1, rc) = client_process_command cl input io in
        if rc \<noteq> 0 then say_line ''Error processing command'' io1 else io1)"

lemma run_line_reads: "length (stdin_text (run_line cl input io)) \<le> length (stdin_text io)"
  using process_reads [of cl input] by (auto simp: reads_on_def run_line_def split: prod.splits) (metis fst_conv)+

function command_loop :: "client \<Rightarrow> io \<Rightarrow> io" where
  "command_loop cl io =
     (let io1 = say ''> '' io in
      case fgets_next CLIENT_BUFFER_SIZE (stdin_text io) of
        None \<Rightarrow> io1
      | Some p \<Rightarrow>
          let input = strip_terminator (fst p); io2 = io1\<lparr>stdin_text := snd p\<rparr> in
          if input = ''quit'' \<or> input = ''exit'' then io2
          else command_loop cl (run_line cl input io2))"
  by pat_completeness auto
termination
proof (relation "measure (\<lambda>(cl, io). length (stdin_text io))", goal_cases)
  case (2 cl io io1 p input io2)
  then show ?case
    using run_line_reads [of cl input io2] fgets_stdin [of CLIENT_BUFFER_SIZE "stdin_text io" p] by simp
qed simp

declare command_loop.simps [simp del]

definition client_start :: "client \<Rightarrow> io \<Rightarrow> io" where
  "client_start cl io = command_loop cl
     (say (''Type '' @ quoted ''help'' @ '' for available commands, '' @ quoted ''quit'' @ '' to exit.'' @ [newline, newline])
       (say (''Welcome, '' @ cl_username cl @ ''!'' @ [newline]) io))"

section \<open>Start and end of the process\<close>

definition client_init :: "cstring \<Rightarrow> cstring \<Rightarrow> int \<Rightarrow> io \<Rightarrow> io \<times> client option" where
  "client_init username0 ip port io =
     (if \<not> validate_username username0 then (note_event (Complained (''Invalid username'' @ [newline])) io, None)
      else (io, Some \<lparr>cl_username = bounded_copy MAX_USERNAME_LENGTH username0,
        cl_ns_ip = bounded_copy MAX_IP_LENGTH ip, cl_ns_port = port, cl_ns_sockfd = -1\<rparr>))"

text \<open>The socket's descriptor is a parameter of the kernel: \<open>fd\<close>.\<close>

definition client_connect_to_ns :: "int \<Rightarrow> client \<Rightarrow> io \<Rightarrow> io \<times> client \<times> bool" where
  "client_connect_to_ns fd cl io =
     (case next_dial io of
        (io1, No_socket) \<Rightarrow> (io1, cl\<lparr>cl_ns_sockfd := -1\<rparr>, False)
      | (io1, d) \<Rightarrow>
          let up = cl\<lparr>cl_ns_sockfd := fd\<rparr>; down = cl\<lparr>cl_ns_sockfd := -1\<rparr> in
          if \<not> is_valid_ip (cl_ns_ip cl) then (note_event Closed_ns io1, down, False)
          else case d of
            Link ls \<Rightarrow>
              let io2 = note_event (Dialled (cl_ns_ip cl) (cl_ns_port cl mod 65536)) (io1\<lparr>from_ns := ls\<rparr>) in
              (case protocol_build_message (map Some [''HELLO_CLIENT'', cl_username cl]) of
                 None \<Rightarrow> (note_event Closed_ns io2, down, False)
               | Some handshake \<Rightarrow>
                   let (io3, ok) = transmit (Sent_ns handshake) io2 in
                   if \<not> ok then (note_event Closed_ns io3, down, False)
                   else case client_read_response up io3 of
                       (io4, None) \<Rightarrow> (note_event Closed_ns io4, down, False)
                     | (io4, Some resp) \<Rightarrow>
                         if protocol_is_error resp then (note_event Closed_ns io4, down, False)
                         else (io4, up, True))
          | _ \<Rightarrow> (note_event Closed_ns io1, down, False))"

definition client_cleanup :: "client \<Rightarrow> io \<Rightarrow> io" where
  "client_cleanup cl io = (if cl_ns_sockfd cl \<ge> 0 then note_event Closed_ns io else io)"

text \<open>The user name: a line that does not fit is read to its end.\<close>

definition read_username :: "cstring \<Rightarrow> (cstring \<times> cstring) option" where
  "read_username s = (case fgets_next MAX_USERNAME_LENGTH s of
       None \<Rightarrow> None
     | Some (l, t) \<Rightarrow> Some (trim_string l,
         if newline \<notin> set l then (case strchr_tail newline t of None \<Rightarrow> [] | Some u \<Rightarrow> tl u) else t))"

lemma read_username_shorter: "read_username s = Some p \<Longrightarrow> length (snd p) < length s"
  by (auto simp: read_username_def dest!: fgets_shorter strchr_tail_length split: option.splits if_splits)

function username_loop :: "io \<Rightarrow> io \<times> cstring option" where
  "username_loop io =
     (let io1 = say ''Enter username: '' io in
      case read_username (stdin_text io) of
        None \<Rightarrow> (note_event (Complained (''Failed to read username'' @ [newline])) io1, None)
      | Some p \<Rightarrow>
          let io2 = io1\<lparr>stdin_text := snd p\<rparr> in
          if fst p = [] then username_loop (say_line ''Username cannot be empty.'' io2)
          else if \<not> validate_username (fst p) then username_loop (say_line ''Invalid username. Please try again.'' io2)
          else (io2, Some (fst p)))"
  by pat_completeness auto
termination
  by (relation "measure (\<lambda>io. length (stdin_text io))") (auto dest: read_username_shorter)

declare username_loop.simps [simp del]

definition client_main :: "int \<Rightarrow> cstring list \<Rightarrow> io \<Rightarrow> io \<times> int" where
  "client_main fd argv io =
     (if length argv \<noteq> 3 then
        (note_event (Complained (''Usage: '' @ argv ! 0 @ '' <ns_ip> <ns_port>'' @ [newline])) io, 1)
      else case username_loop io of
        (io1, None) \<Rightarrow> (io1, 1)
      | (io1, Some username0) \<Rightarrow>
          case client_init username0 (argv ! 1) (atoi (argv ! 2)) io1 of
            (io2, None) \<Rightarrow> (note_event (Complained (''Failed to initialize client'' @ [newline])) io2, 1)
          | (io2, Some cl) \<Rightarrow>
              let (io3, cl3, ok) = client_connect_to_ns fd cl io2 in
              if \<not> ok then (client_cleanup cl3 (note_event
                (Complained (''Failed to connect to Name Server'' @ [newline])) io3), 1)
              else (say (''Goodbye!'' @ [newline]) (client_cleanup cl3 (client_start cl3 io3)), 0))"

end
