(* ===== verification/Client_Links.thy ===== *)
theory Client_Links
  imports Client_Main Storage_Handlers
begin

text \<open>
  What joins the client to the storage server: the messages on the wire, the lines the receiving
  function cuts the bytes of a server into (\<open>receive_lines\<close>), the state in which the Name Server
  has named a storage server (\<open>located\<close>), and the dispatch of a request there (\<open>answers_request\<close>).
\<close>

section \<open>Messages on the wire\<close>

definition wire :: "cstring list \<Rightarrow> cstring" where
  "wire fs = join_with PROTOCOL_DELIMITER fs @ [newline]"

lemma build_wire: "fs \<noteq> [] \<Longrightarrow> protocol_build_message (map Some fs) = Some (wire fs)"
  by (simp add: build_some wire_def)

lemma parse_wire: "wf_fields fs \<Longrightarrow> msg_fields (protocol_parse_message (wire fs)) = fs"
  by (simp add: wire_def parse_build)

function receive_lines :: "recv_result list \<Rightarrow> cstring list" where
  "receive_lines rs = (case protocol_receive_message 0 rs of
       (Received m, rs') \<Rightarrow> m # receive_lines rs'
     | _ \<Rightarrow> [])"
  by pat_completeness auto
termination
  by (relation "measure length") (auto dest: receive_shorter [OF sym])

declare receive_lines.simps [simp del]

lemma receive_lines_end: "receive_lines [Recv_eof] = []"
  by (subst receive_lines.simps) (simp add: protocol_receive_message_def recv_loop.simps MAX_MESSAGE_SIZE_def)

lemma receive_lines_wire:
  assumes "\<forall>fs\<in>set fss. wf_fields fs"
  shows "receive_lines (map Byte (concat (map wire fss)) @ [Recv_eof]) = map wire fss"
  using assms
proof (induction fss)
  case (Cons fs fss)
  have "wf_fields fs"
    using Cons.prems by simp
  then have "newline \<notin> set (join_with PROTOCOL_DELIMITER fs)" "length (join_with PROTOCOL_DELIMITER fs) < MAX_MESSAGE_SIZE - 1"
    using wf_fields_join [of fs] by (auto simp: wf_fields_def length_join_with)
  then have "protocol_receive_message 0 (map Byte (wire fs) @ map Byte (concat (map wire fss)) @ [Recv_eof]) =
      (Received (wire fs), map Byte (concat (map wire fss)) @ [Recv_eof])"
    using recv_loop_line [of "join_with PROTOCOL_DELIMITER fs" "[]"] by (simp add: protocol_receive_message_def wire_def)
  then show ?case
    using Cons by (subst receive_lines.simps) simp
qed (simp add: receive_lines_end)

text \<open>What a storage server has sent when its outputs are the given messages.\<close>

definition sent_bytes :: "outputs \<Rightarrow> recv_result list" where
  "sent_bytes out = map Byte (concat (map snd out)) @ [Recv_eof]"

lemma send_fields_wire: "fs \<noteq> [] \<Longrightarrow> send_fields to fs = [(to, wire fs)]"
  by (simp add: send_fields_def build_wire emit_def)

section \<open>Opening a storage connection\<close>

definition plain :: "cstring \<Rightarrow> bool" where
  "plain f \<longleftrightarrow> PROTOCOL_DELIMITER \<notin> set f \<and> newline \<notin> set f"

lemma wf_plain: "wf_fields fs \<longleftrightarrow> fs \<noteq> [] \<and> length fs \<le> MAX_FIELDS \<and> message_size fs + 1 < MAX_MESSAGE_SIZE \<and> list_all plain fs"
  by (simp add: wf_fields_def plain_def [abs_def])

lemma literal_plain: "plain ''OK_LOC''" "plain ''OK_READ_START''" "plain ''OK_CONTENT''" "plain ''OK_READ_END''" "plain ''REQ_READ''"
    "plain ''REQ_STREAM''" "plain ''OK_STREAM''" "plain ''OK_STREAM_END''" "plain ''REQ_WRITE_LOCK''" "plain ''WRITE_DATA''"
    "plain ''ETIRW''" "plain ''OK_LOCKED''" "plain ''OK_WRITE_DONE''" "plain ''OK''" "plain ''WRITE_DATA applied''" "plain []"
  by (simp_all add: plain_def PROTOCOL_DELIMITER_def newline_def)

lemma plain_show_int [simp]: "plain (show_int i)"
  by (simp add: plain_def PROTOCOL_DELIMITER_def)

lemma plain_username: "validate_username u \<Longrightarrow> plain u"
proof -
  have "\<not> is_alnum PROTOCOL_DELIMITER \<and> \<not> is_alnum newline \<and> PROTOCOL_DELIMITER \<noteq> CHR ''_'' \<and> newline \<noteq> CHR ''_''"
    by code_simp
  then show "validate_username u \<Longrightarrow> plain u"
    using validate_username_chars [of u] by (auto simp: plain_def)
qed

lemma plain_filename: "validate_filename f \<Longrightarrow> newline \<notin> set f \<Longrightarrow> plain f"
  using validate_filename_no_pipe [of f] by (simp add: plain_def PROTOCOL_DELIMITER_def)

lemma filename_short: "validate_filename f \<Longrightarrow> f \<noteq> [] \<and> length f < 512"
  by (auto simp: validate_filename_def MAX_FILENAME_LENGTH_def split: if_splits)

lemma username_short: "validate_username u \<Longrightarrow> length u < 256"
  by (auto simp: validate_username_def MAX_USERNAME_LENGTH_def split: if_splits)

text \<open>The Name Server has a place for the file: its next answer names the storage server, and
  the connection will deliver the lines \<open>ls\<close>.\<close>

definition located :: "client \<Rightarrow> cstring \<Rightarrow> cstring \<Rightarrow> int \<Rightarrow> cstring list \<Rightarrow> io \<Rightarrow> bool" where
  "located cl f ip port ls io \<longleftrightarrow> 0 \<le> cl_ns_sockfd cl \<and> validate_username (cl_username cl) \<and>
     validate_filename f \<and> newline \<notin> set f \<and> is_valid_ip ip \<and> plain ip \<and> length ip < MAX_IP_LENGTH \<and> is_valid_port port \<and>
     from_ns io \<noteq> [] \<and> hd (from_ns io) = wire [''OK_LOC'', f, ip, show_int port] \<and>
     dials io \<noteq> [] \<and> hd (dials io) = Link ls \<and> sends io = []"

definition opened :: "cstring \<Rightarrow> cstring \<Rightarrow> cstring \<Rightarrow> int \<Rightarrow> cstring list \<Rightarrow> io \<Rightarrow> io" where
  "opened operation f ip port ls io = io\<lparr>from_ns := tl (from_ns io), dials := tl (dials io), from_ss := ls,
     trace := trace io @ [Sent_ns (wire [''REQ_LOC'', operation, f]), Dialled ip port]\<rparr>"

lemma location_wire:
  assumes "located cl f ip port ls io"
  shows "msg_fields (protocol_parse_message (wire [''OK_LOC'', f, ip, show_int port])) = [''OK_LOC'', f, ip, show_int port]"
proof -
  have "length (show_int port) \<le> 12"
    using assms length_show_int [of port] by (auto simp: located_def is_valid_port_def INT_MIN_I_def INT_MAX_I_def)
  then show ?thesis
    using assms filename_short [of f] plain_filename [of f]
    by (intro parse_wire) (simp add: located_def wf_plain MAX_FIELDS_def MAX_MESSAGE_SIZE_def MAX_IP_LENGTH_def literal_plain)
qed

lemma with_storage_opened:
  assumes "located cl f ip port ls io"
  shows "with_storage cl operation f body io = body f (opened operation f ip port ls io)"
proof -
  obtain rest ds where io: "from_ns io = wire [''OK_LOC'', f, ip, show_int port] # rest" "dials io = Link ls # ds"
    using assms by (cases "from_ns io"; cases "dials io") (auto simp: located_def)
  have a: "0 \<le> cl_ns_sockfd cl" "is_valid_ip ip" "length ip < MAX_IP_LENGTH" "is_valid_port port" "sends io = []"
      "f \<noteq> []" "length f < MAX_FILENAME_LENGTH"
    using assms filename_short [of f] by (auto simp: located_def MAX_FILENAME_LENGTH_def)
  have p: "INT_MIN_I \<le> port" "port \<le> INT_MAX_I"
    using a(4) by (auto simp: is_valid_port_def INT_MIN_I_def INT_MAX_I_def)
  have s: "strtol64 (show_int port) = (port, [], False)"
    using p strtol64_show_int [of port "[]"] by (simp add: INT_MIN_I_def INT_MAX_I_def LONG_MIN_I_def LONG_MAX_I_def)
  let ?m = "protocol_parse_message (wire [''OK_LOC'', f, ip, show_int port])"
  have e: "location_of ?m io1 = (io1, Some (ip, port, f))" for io1
    using a p location_wire [OF assms]
    by (simp add: location_of_def protocol_is_error_def s numeral_2_eq_2 numeral_3_eq_3 int32_of_id safe_strcpy_def
      bounded_copy_id MAX_IP_LENGTH_def MAX_FILENAME_LENGTH_def)
  have b: "protocol_build_message [Some ''REQ_LOC'', Some operation, Some f] = Some (wire [''REQ_LOC'', operation, f])"
    using build_wire [of "[''REQ_LOC'', operation, f]"] by simp
  show ?thesis
    using a io
    by (simp add: with_storage_def client_request_location_def b client_send_message_def client_read_response_def
      transmit_def note_event_def e client_connect_to_storage_def next_dial_def opened_def)
qed

lemma request_then_sent:
  "sends io = [] \<Longrightarrow> flds \<noteq> [] \<Longrightarrow>
     request_then flds what answer io = hang_up (answer (io\<lparr>trace := trace io @ [Sent_ss (wire flds)]\<rparr>))"
  by (simp add: request_then_def send_request_def build_wire transmit_def note_event_def)

lemma opened_sends [simp]: "sends (opened operation f ip port ls io) = sends io" "from_ss (opened operation f ip port ls io) = ls"
    "trace (opened operation f ip port ls io) = trace io @ [Sent_ns (wire [''REQ_LOC'', operation, f]), Dialled ip port]"
    "stdin_text (opened operation f ip port ls io) = stdin_text io"
  by (simp_all add: opened_def)

text \<open>A message the client sends on the storage connection reaches the dispatch of the server with its fields.\<close>

definition answers_request :: "int \<Rightarrow> storage_server \<Rightarrow> int \<Rightarrow> cstring list \<Rightarrow> storage_server \<times> outputs" where
  "answers_request now ss fd flds = client_dispatch now ss fd (msg_fields (protocol_parse_message (wire flds)))"

lemma request_wf:
  assumes "validate_username u" "validate_filename f" "newline \<notin> set f" "plain cmd" "length cmd < 100"
  shows "wf_fields [cmd, u, f]"
  using assms filename_short [of f] username_short [of u] plain_filename [of f] plain_username [of u]
  by (simp add: wf_plain MAX_FIELDS_def MAX_MESSAGE_SIZE_def)

end
