(* ===== verification/NS_Joining.thy ===== *)
theory NS_Joining
  imports NS_Service_Properties Storage_Startup Client_Links
begin

text \<open>
  A storage server joins: the registration of \<open>Storage_Startup\<close> meets the handshake of the name server, and
  the announcement of the files meets the first loop of \<open>run_ss_loop\<close> (\<open>NS_Sync\<close>).
\<close>

section \<open>The announcement\<close>

text \<open>The first loop of \<open>run_ss_loop\<close> on the messages that arrive.\<close>

fun sync_loop :: "int \<Rightarrow> name_server \<Rightarrow> connection \<Rightarrow> cstring list \<Rightarrow> name_server \<times> connection \<times> ns_outputs \<times> bool" where
  "sync_loop now ns cx [] = (ns, cx, [], False)"
| "sync_loop now ns cx (raw # raws) =
     (let (ns1, cx1, outs, finished) = sync_message now ns cx raw in
      if finished then (ns1, cx1, outs, True)
      else let (ns2, cx2, outs2, finished2) = sync_loop now ns1 cx1 raws in (ns2, cx2, outs @ outs2, finished2))"

text \<open>What the name server knows of an announced file.\<close>

definition known_as :: "ss_info \<Rightarrow> disk \<Rightarrow> file_record \<Rightarrow> file_metadata \<Rightarrow> bool" where
  "known_as s d r m \<longleftrightarrow> fm_owner m = owner r \<and> fm_ss_ip m = bounded_copy MAX_IP_LENGTH (si_client_ip s) \<and>
     fm_ss_port m = si_client_port s \<and> fm_size m = get_file_size d (filepath r) \<and>
     fm_read_users m = read_users r \<and> fm_write_users m = write_users r"

text \<open>A record whose line fits a message and whose lists fit their fields.\<close>

definition announceable :: "disk \<Rightarrow> file_record \<Rightarrow> bool" where
  "announceable d r \<longleftrightarrow> validate_filename (filename r) \<and> validate_username (owner r) \<and>
     (\<forall>us\<in>{read_users r, write_users r}. list_all validate_username us \<and> ns_acl_wf us \<and> length (join_commas us) < MAX_FIELD_SIZE) \<and>
     get_file_size d (filepath r) \<le> LONG_MAX_I \<and> wf_fields (has_file_fields d r)"

lemma no_commas: "join_commas [] = []" "join_commas [v] = v"
  by (simp_all add: join_commas_def)

lemma join_acl_joins:
  assumes "list_all (\<lambda>u. u \<noteq> [] \<and> length u < MAX_USERNAME_LENGTH) (us @ vs)" "length (join_commas (us @ vs)) < sz"
  shows "join_acl_loop sz (join_commas us) vs = Some (join_commas (us @ vs))"
  using assms
proof (induction vs arbitrary: us)
  case (Cons v vs)
  have v: "v \<noteq> []" "take MAX_USERNAME_LENGTH v = v"
    using Cons.prems(1) by simp_all
  have grow: "length (join_commas xs) \<le> length (join_commas (xs @ ys))" for xs ys
    unfolding join_commas_def by (induction "CHR '',''" xs rule: join_with.induct) (auto, cases ys, auto)
  have nonempty: "us \<noteq> [] \<Longrightarrow> join_commas us \<noteq> []"
    using Cons.prems(1) by (cases us; cases "tl us") (auto simp: join_commas_def)
  have snoc: "join_commas (us @ [v]) = (if us = [] then v else join_commas us @ '','' @ v)"
    unfolding join_commas_def by (induction "CHR '',''" us rule: join_with.induct) auto
  have "length (join_commas (us @ [v])) < sz"
    using grow [of "us @ [v]" vs] Cons.prems(2) by simp
  moreover have "join_acl_loop sz (join_commas (us @ [v])) vs = Some (join_commas (us @ v # vs))"
    using Cons.IH [of "us @ [v]"] Cons.prems by simp
  ultimately show ?case
    using v nonempty no_commas by (cases "us = []") (simp_all add: snoc)
qed simp

lemma acl_field_csv:
  assumes "list_all validate_username us" "length (join_commas us) < MAX_FIELD_SIZE"
  shows "acl_field us = join_commas us"
proof -
  have "list_all (\<lambda>u. u \<noteq> [] \<and> length u < MAX_USERNAME_LENGTH) ([] @ us)"
    using assms(1) username_ok by (auto simp: list_all_iff validate_username_def)
  then have "join_acl_loop MAX_FIELD_SIZE (join_commas []) us = Some (join_commas ([] @ us))"
    using assms(2) by (intro join_acl_joins) simp_all
  then show ?thesis
    using assms(2) unfolding acl_field_def ss_join_acl_def no_commas(1) append_Nil by (cases "MAX_FIELD_SIZE = 0") simp_all
qed

lemma announced_known:
  assumes "announceable d r"
  shows "known_as s d r (announced now s (has_file_fields d r) m)"
proof -
  have lists: "file_acl_parse_csv (acl_field us) = us" if "us \<in> {read_users r, write_users r}" for us
    using assms that acl_field_csv [of us] csv_roundtrip [of us] by (auto simp: announceable_def)
  have size: "atoll (show_int (get_file_size d (filepath r))) = get_file_size d (filepath r)"
    using assms by (intro atoll_show_int) (auto simp: announceable_def get_file_size_def LONG_MIN_I_def split: option.split)
  have "owner r \<noteq> []" "length (owner r) < MAX_USERNAME_LENGTH"
    using assms by (auto simp: announceable_def validate_username_def split: if_splits)
  then show ?thesis
    using lists size
    by (simp add: known_as_def announced_def has_file_fields_def numeric_field_def Let_def bounded_copy_id)
qed

lemma record_file_step:
  assumes "ns_inv ns" "announceable d r" "existing_file ns (filename r) \<noteq> None \<or> length (nm_files ns) < NS_MAX_FILES"
  obtains ns' m where "record_file now ns fd s (has_file_fields d r) = (ns', [])" "table_map ns' = (table_map ns)(filename r \<mapsto> m)"
    "known_as s d r m" "nm_servers ns' = nm_servers ns" "length (nm_files ns') \<le> Suc (length (nm_files ns))" "ns_inv ns'"
proof -
  let ?f = "has_file_fields d r"
  have f1: "?f ! 1 = filename r"
    by (simp add: has_file_fields_def Let_def)
  have valid: "validate_filename (filename r)"
    using assms(2) by (simp add: announceable_def)
  have inv: "ns_inv (fst (record_file now ns fd s ?f))"
    using inv_record_file [OF assms(1)] valid f1 by simp
  show ?thesis
  proof (cases "existing_file ns (filename r)")
    case None
    let ?m = "(announced now s ?f (zero_metadata\<lparr>fm_name := bounded_copy MAX_FILENAME_LENGTH (filename r)\<rparr>))\<lparr>fm_created := now\<rparr>"
    have fresh: "filename r \<notin> set (file_names ns)"
      using existing_file_None [OF assms(1) None] .
    have n: "name_ok (filename r)" "bounded_copy MAX_FILENAME_LENGTH (filename r) = filename r"
      using filename_name_ok [OF valid] by simp_all
    have m: "fm_name ?m = filename r" "rights_ok ?m"
      using announced_ok(1) [of now s ?f] n(2) by (simp_all add: rights_ok_def)
    have len: "length (nm_files ns) < NS_MAX_FILES"
      using assms(3) None by simp
    have known: "known_as s d r ?m"
      using announced_known [OF assms(2)] by (simp add: known_as_def)
    have rec: "record_file now ns fd s ?f = (enter_file ns ?m (filename r), [])"
      using None len by (simp add: record_file_def f1 del: One_nat_def)
    have grown: "length (nm_files (enter_file ns ?m (filename r))) \<le> Suc (length (nm_files ns))"
      using inv_enter_file(2) [OF assms(1) m(1) fresh n(1) m(2) len] by simp
    show ?thesis
      by (rule that [OF rec table_map_enter [OF assms(1) m(1) fresh n(1) m(2) len] known _ grown])
        (use inv rec in \<open>simp_all add: enter_file_same\<close>)
  next
    case (Some k)
    let ?m = "announced now s ?f (nm_files ns ! k)"
    let ?ns = "file_cache_store (set_file k ?m ns) (filename r) (int k)"
    have K: "k < length (nm_files ns)" "fm_name (nm_files ns ! k) = filename r"
      using existing_file_Some [OF assms(1) Some] by simp_all
    obtain c t where cs: "?ns = (set_file k ?m ns)\<lparr>nm_cache := c, nm_tick := t\<rparr>"
      using cache_store_frame by blast
    have files: "nm_files ?ns = (nm_files ns)[k := ?m]" "nm_servers ?ns = nm_servers ns"
      by (simp_all add: cs) (simp_all add: set_file_def)
    have rec: "record_file now ns fd s ?f = (?ns, [])"
      using Some by (simp add: record_file_def f1 del: One_nat_def)
    have "table_map ?ns = (table_map ns)(filename r \<mapsto> ?m)"
      using table_map_replace [OF assms(1) K files(1)] K(2) by simp
    then show ?thesis
      using that [OF rec _ announced_known [OF assms(2)] files(2)] inv rec files(1) by simp
  qed
qed

text \<open>The announcements one after the other.\<close>

lemma sync_announced:
  assumes "ns_inv ns" "cx_ss_info cx = Some a" "server_at ns a = Some s" "\<not> si_awaiting s" "\<forall>r\<in>set rs. announceable d r"
    "distinct (map filename rs)" "length (nm_files ns) + length rs \<le> NS_MAX_FILES"
    "sync_loop now ns cx (map (\<lambda>r. wire (has_file_fields d r)) rs @ [wire [''SS_FILES_DONE'']]) = (ns', cx', outs, finished)"
  shows "finished \<and> outs = [] \<and> ns_inv ns' \<and> (\<forall>r\<in>set rs. \<exists>m. table_map ns' (filename r) = Some m \<and> known_as s d r m) \<and>
    (\<forall>f. f \<notin> filename ` set rs \<longrightarrow> table_map ns' f = table_map ns f)"
  using assms
proof (induction rs arbitrary: ns outs)
  case Nil
  have entry: "find_ss_entry ns cx = cx" "\<not> waits ns (Some a)"
    using Nil.prems(2-4) by (simp_all add: find_ss_entry_def waits_def)
  have "msg_fields (protocol_parse_message (wire [''SS_FILES_DONE''])) = [''SS_FILES_DONE'']"
    by (rule parse_wire) (simp add: wf_fields_def MAX_FIELDS_def MAX_MESSAGE_SIZE_def PROTOCOL_DELIMITER_def newline_def)
  then have "sync_message now ns cx (wire [''SS_FILES_DONE'']) = (recalculate_load a ns, cx, [], True)"
    using Nil.prems(2) entry by (simp add: sync_message_def)
  then have "ns' = recalculate_load a ns" "outs = []" "finished"
    using Nil.prems(8) by simp_all
  then show ?case
    using Nil.prems(1) by (simp add: recalculate_load_def inv_update_server table_map_def)
next
  case (Cons r rs)
  have r: "announceable d r" and f1: "has_file_fields d r ! 1 = filename r"
    using Cons.prems(5) by (simp_all add: has_file_fields_def Let_def)
  have entry: "find_ss_entry ns cx = cx" "\<not> waits ns (Some a)"
    using Cons.prems(2-4) by (simp_all add: find_ss_entry_def waits_def)
  have "existing_file ns (filename r) \<noteq> None \<or> length (nm_files ns) < NS_MAX_FILES"
    using Cons.prems(7) by simp
  from record_file_step [OF Cons.prems(1) r this] obtain ns1 m where
    st: "record_file now ns (cx_fd cx) s (has_file_fields d r) = (ns1, [])" "table_map ns1 = (table_map ns)(filename r \<mapsto> m)"
      "known_as s d r m" "nm_servers ns1 = nm_servers ns" "length (nm_files ns1) \<le> Suc (length (nm_files ns))" "ns_inv ns1"
    by metis
  have "msg_fields (protocol_parse_message (wire (has_file_fields d r))) = has_file_fields d r"
    using r by (intro parse_wire) (simp add: announceable_def)
  then have "sync_message now ns cx (wire (has_file_fields d r)) = (ns1, cx, [], False)"
    using Cons.prems(2,3) entry st(1) r f1
    by (simp add: sync_message_def ss_has_file_def Let_def announceable_def) (simp add: has_file_fields_def Let_def)
  then obtain outs2 where rest: "outs = outs2"
      "sync_loop now ns1 cx (map (\<lambda>r. wire (has_file_fields d r)) rs @ [wire [''SS_FILES_DONE'']]) = (ns', cx', outs2, finished)"
    using Cons.prems(8) by (auto split: prod.splits)
  have "server_at ns1 a = Some s"
    using Cons.prems(3) st(4) by (simp add: server_at_def)
  from Cons.IH [OF st(6) Cons.prems(2) this Cons.prems(4) _ _ _ rest(2)]
  have ih: "finished" "outs2 = []" "ns_inv ns'" "\<forall>r\<in>set rs. \<exists>m. table_map ns' (filename r) = Some m \<and> known_as s d r m"
      "\<forall>f. f \<notin> filename ` set rs \<longrightarrow> table_map ns' f = table_map ns1 f"
    using Cons.prems(5-7) st(5) by auto
  have "table_map ns' (filename r) = Some m"
    using ih(5) Cons.prems(6) st(2) by auto
  then show ?case
    using ih st(2,3) rest(1) by auto
qed


section \<open>The registration\<close>

lemma valid_ip_plain: "is_valid_ip ip \<Longrightarrow> plain ip"
proof -
  assume v: "is_valid_ip ip"
  have "c = CHR ''.'' \<or> is_digit c" if c: "c \<in> set ip" for c
  proof -
    have "c \<in> insert (CHR ''.'') (\<Union>(set ` set (split_on (CHR ''.'') ip)))"
      using c set_join_with [of "CHR ''.''" "split_on (CHR ''.'') ip"] by auto
    then show ?thesis
      using v by (auto simp: is_valid_ip_def valid_octet_def list_all_iff)
  qed
  from this [of PROTOCOL_DELIMITER] this [of newline] show "plain ip"
    by (auto simp: plain_def PROTOCOL_DELIMITER_def newline_def is_digit_def)
qed

lemma port_text:
  assumes "is_valid_port p"
  shows "bounded_copy 16 (show_int p) = show_int p" "atoi (show_int p) = p" "length (show_int p) \<le> 11"
proof -
  have r: "INT_MIN_I \<le> p" "p \<le> INT_MAX_I"
    using assms by (auto simp: is_valid_port_def INT_MIN_I_def INT_MAX_I_def)
  show "length (show_int p) \<le> 11" "atoi (show_int p) = p"
    using length_show_int [OF r] atoi_show_int [OF r] by simp_all
  then show "bounded_copy 16 (show_int p) = show_int p"
    by (simp add: bounded_copy_id)
qed

lemma hello_accepted:
  assumes "is_valid_ip (ns_ip ss)" "length (ns_ip ss) < MAX_IP_LENGTH" "is_valid_port (ns_port ss)"
    "is_valid_ip (client_ip ss)" "length (client_ip ss) < MAX_IP_LENGTH" "is_valid_port (client_port ss)"
    "length (nm_servers ns) < NS_MAX_STORAGE_SERVERS" "registry_ok ns" "0 \<le> cfd"
    "\<forall>s\<in>set (nm_servers ns). si_sockfd s \<noteq> cfd \<and>
       \<not> (si_alive s \<and> si_client_ip s = client_ip ss \<and> si_client_port s = client_port ss)"
  obtains ns' cx s where
    "handshake now ns (new_connection cfd ip port) (wire (hello_fields ss)) =
       (ns', cx, [(cfd, wire [''OK'', ''SS registered. Awaiting file list.''])])"
    "cx_is_ss cx" "cx_ss_info cx = Some (nm_next_addr ns)" "server_at ns' (nm_next_addr ns) = Some s" "nm_files ns' = nm_files ns"
    "si_client_ip s = client_ip ss" "si_client_port s = client_port ss" "si_alive s" "\<not> si_awaiting s"
proof -
  have "wf_fields (hello_fields ss)"
    using assms(1-6) port_text(1) [OF assms(3)] port_text(1) [OF assms(6)] port_text(3) [OF assms(3)] port_text(3) [OF assms(6)]
      valid_ip_plain [OF assms(1)] valid_ip_plain [OF assms(4)]
    by (simp add: hello_fields_def wf_plain MAX_FIELDS_def MAX_MESSAGE_SIZE_def MAX_IP_LENGTH_def)
      (simp add: plain_def PROTOCOL_DELIMITER_def newline_def)
  then have msg: "msg_fields (protocol_parse_message (wire (hello_fields ss))) = hello_fields ss"
    by (rule parse_wire)
  let ?s = "storage_server_comm_init \<lparr>si_addr = nm_next_addr ns, si_ns_ip = bounded_copy MAX_IP_LENGTH (ns_ip ss), si_ns_port = ns_port ss,
     si_client_ip = bounded_copy MAX_IP_LENGTH (client_ip ss), si_client_port = client_port ss, si_sockfd = cfd, si_alive = True,
     si_heartbeat = now, si_total_bytes = 0, si_total_files = 0, si_awaiting = False, si_ready = False, si_status = 0,
     si_raw = None, si_refcount = 0\<rparr>"
  define ns1 where ns1: "ns1 = ns\<lparr>nm_servers := nm_servers ns @ [?s], nm_next_addr := nm_next_addr ns + 1\<rparr>"
  have reg: "ns_register_storage_server now ns (ns_ip ss) (ns_port ss) (client_ip ss) (client_port ss) cfd = (ns1, True)"
    using assms(7,10) by (auto simp: ns1 ns_register_storage_server_def list_ex_iff)
  have old: "find (\<lambda>s. si_sockfd s = cfd) (nm_servers ns) = None" "find (\<lambda>s. si_addr s = nm_next_addr ns) (nm_servers ns) = None"
    using assms(8,10) by (auto simp: find_None_iff registry_ok_def list_all_iff)
  have find_append: "find P (xs @ ys) = (case find P xs of None \<Rightarrow> find P ys | Some x \<Rightarrow> Some x)" for P :: "ss_info \<Rightarrow> bool" and xs ys
    by (induction xs) auto
  have found: "find_storage_server_by_sockfd ns1 cfd = Some (nm_next_addr ns)" "server_at ns1 (nm_next_addr ns) = Some ?s"
    using old by (simp_all add: ns1 find_storage_server_by_sockfd_def server_at_def find_append storage_server_comm_init_def)
  have ports: "bounded_copy 16 (show_int (ns_port ss)) = show_int (ns_port ss)" "atoi (show_int (ns_port ss)) = ns_port ss"
      "bounded_copy 16 (show_int (client_port ss)) = show_int (client_port ss)" "atoi (show_int (client_port ss)) = client_port ss"
    using port_text assms(3,6) by simp_all
  have got: "msg_fields (protocol_parse_message (wire (hello_fields ss))) =
      [''HELLO_SS'', ns_ip ss, show_int (ns_port ss), client_ip ss, show_int (client_port ss)]"
    unfolding msg by (simp add: hello_fields_def ports)
  show ?thesis
  proof (rule that [of ns1 _ ?s])
    show "handshake now ns (new_connection cfd ip port) (wire (hello_fields ss)) =
       (ns1, (new_connection cfd ip port)\<lparr>cx_is_client := False, cx_is_ss := True, cx_username := [], cx_ss_info := Some (nm_next_addr ns)\<rparr>,
        [(cfd, wire [''OK'', ''SS registered. Awaiting file list.''])])"
      using assms(1,3,4,6,9) reg found(1) ports build_wire [of "[''OK'', ''SS registered. Awaiting file list.'']"]
      by (simp add: handshake_def got hello_ss_def new_connection_def ns_send_def ns_reply_def build_wire)
  qed (use found(2) assms(5) in \<open>simp_all add: ns1 storage_server_comm_init_def bounded_copy_id\<close>)
qed

lemma hello_fields_link: "hello_fields (ss\<lparr>ns_sockfd := fd\<rparr>) = hello_fields ss" "hello_fields ss \<noteq> []"
  by (simp_all add: hello_fields_def)

lemma hello_sent:
  assumes "is_valid_ip (ns_ip ss)" "link_fd l = Some fd" "0 \<le> fd" "link_up l" "Send_error \<notin> set (link_sends l)"
    "length (wire (hello_fields ss)) \<le> sent_total (link_sends l)"
  shows "fst (snd (ss_register_with_ns l ss)) = wire (hello_fields ss)"
proof -
  have "protocol_send_message fd (wire (hello_fields ss)) (link_sends l) =
      (wire (hello_fields ss), Some (Some (length (wire (hello_fields ss)))))"
    using assms(3,5,6) by (simp add: protocol_send_message_def send_loop_complete)
  then show ?thesis
    using assms(1,2,4) hello_fields_link
    by (simp add: ss_register_with_ns_def ss_open_ns_socket_def ss_send_hello_def build_wire Let_def split: option.splits received.splits)
qed

text \<open>C28. The registration, end to end: a storage server with valid addresses whose connection carries its message is
  registered by the name server, unless the registry is full or a living server has its address, and the
  answer makes the storage server go on; the new entry has its address, is alive and waits for nothing.\<close>

theorem registration_end_to_end:
  assumes "is_valid_ip (ns_ip ss)" "length (ns_ip ss) < MAX_IP_LENGTH" "is_valid_port (ns_port ss)"
    "is_valid_ip (client_ip ss)" "length (client_ip ss) < MAX_IP_LENGTH" "is_valid_port (client_port ss)"
    "length (nm_servers ns) < NS_MAX_STORAGE_SERVERS" "registry_ok ns" "0 \<le> cfd"
    "\<forall>s\<in>set (nm_servers ns). si_sockfd s \<noteq> cfd \<and>
       \<not> (si_alive s \<and> si_client_ip s = client_ip ss \<and> si_client_port s = client_port ss)"
    "link_fd l = Some fd" "0 \<le> fd" "link_up l" "Send_error \<notin> set (link_sends l)"
    "length (wire (hello_fields ss)) \<le> sent_total (link_sends l)"
    "ss_register_with_ns l ss = (ss', sent, rc)"
    "handshake now ns (new_connection cfd ip port) sent = (ns', cx, outs)"
    "link_bytes l = map Byte (concat (map snd outs)) @ later"
  shows "rc = Some 0 \<and> ss' = ss\<lparr>ns_sockfd := fd\<rparr> \<and> cx_is_ss cx \<and> nm_files ns' = nm_files ns \<and>
    (\<exists>a s. cx_ss_info cx = Some a \<and> server_at ns' a = Some s \<and> si_client_ip s = client_ip ss \<and>
       si_client_port s = client_port ss \<and> si_alive s \<and> \<not> si_awaiting s)"
proof -
  note fields = hello_fields_link
  have sends: "protocol_send_message fd (wire (hello_fields ss)) (link_sends l) =
      (wire (hello_fields ss), Some (Some (length (wire (hello_fields ss)))))"
    using assms(12,14,15) by (simp add: protocol_send_message_def send_loop_complete)
  have "sent = wire (hello_fields ss)"
    using hello_sent [OF assms(1,11-15)] assms(16) by simp
  then have shake: "handshake now ns (new_connection cfd ip port) (wire (hello_fields ss)) = (ns', cx, outs)"
    using assms(17) by simp
  obtain s where hs: "outs = [(cfd, wire [''OK'', ''SS registered. Awaiting file list.''])]" "cx_is_ss cx"
      "cx_ss_info cx = Some (nm_next_addr ns)" "server_at ns' (nm_next_addr ns) = Some s" "nm_files ns' = nm_files ns"
      "si_client_ip s = client_ip ss" "si_client_port s = client_port ss" "si_alive s" "\<not> si_awaiting s"
    by (rule hello_accepted [OF assms(1-10), of now ip port]) (use shake in auto)
  let ?answer = "[''OK'', ''SS registered. Awaiting file list.'']"
  have wf: "wf_fields ?answer"
    by (simp add: wf_fields_def MAX_FIELDS_def MAX_MESSAGE_SIZE_def PROTOCOL_DELIMITER_def newline_def)
  then have "fst (protocol_receive_message fd (link_bytes l)) = Received (wire ?answer)"
    using recv_loop_line [of "join_with PROTOCOL_DELIMITER ?answer" "[]" later] wf_fields_join [OF wf] assms(12,18) hs(1)
    by (simp add: protocol_receive_message_def wire_def MAX_MESSAGE_SIZE_def)
  then have "ss_send_hello l (ss\<lparr>ns_sockfd := fd\<rparr>) = (wire (hello_fields ss), Some 0)"
    using sends fields parse_wire [OF wf] by (simp add: ss_send_hello_def build_wire Let_def)
  then have "ss' = ss\<lparr>ns_sockfd := fd\<rparr>" "rc = Some 0"
    using assms(16) assms(1,11,13) by (simp_all add: ss_register_with_ns_def ss_open_ns_socket_def)
  then show ?thesis
    using hs by blast
qed

section \<open>Witnesses\<close>

definition joining_record :: file_record where
  "joining_record = (empty_record 0)\<lparr>filename := ''a'', filepath := ''s/a'', owner := ''ann'', read_users := [''bob'']\<rparr>"

definition joining_server :: storage_server where
  "joining_server = \<lparr>ns_ip = ''10.0.0.1'', ns_port = 8000, client_ip = ''10.0.0.2'', client_port = 9001, ns_sockfd = 3,
     client_listen_fd = -1, storage_path = ''s'', ss_files = [joining_record], sessions = [], running = False, next_addr = 1,
     ss_disk = demo_dir\<lparr>dk_files := [''s/a'' \<mapsto> ''hi'']\<rparr>\<rparr>"

definition joining_link :: ns_link where
  "joining_link = \<lparr>link_fd = Some 3, link_up = True, link_sends = [Sent 10, Send_EINTR, Sent 90],
     link_bytes = map Byte (wire [''OK'', ''SS registered. Awaiting file list.''])\<rparr>"

lemma joining_valid:
  "is_valid_ip ''10.0.0.1''" "is_valid_ip ''10.0.0.2''" "validate_filename ''a''" "validate_username ''ann''" "validate_username ''bob''"
  by code_simp+

lemma joining_length: "length (wire (hello_fields joining_server)) \<le> sent_total (link_sends joining_link)"
proof -
  have "is_valid_port 8000" "is_valid_port 9001"
    by (simp_all add: is_valid_port_def)
  from this [THEN port_text(1)] this [THEN port_text(3)] show ?thesis
    by (simp add: hello_fields_def joining_server_def joining_link_def wire_def)
qed

theorem registration_end_to_end_witness:
  "snd (snd (ss_register_with_ns joining_link joining_server)) = Some 0"
proof -
  obtain ss' sent rc where reg: "ss_register_with_ns joining_link joining_server = (ss', sent, rc)"
    by (cases "ss_register_with_ns joining_link joining_server") auto
  let ?ns = "empty_name_server 8000 demo_dir"
  have ok: "registry_ok ?ns" "nm_servers ?ns = []"
    using demo_empty(1) by (simp_all add: ns_inv_def empty_name_server_def)
  have parts: "ns_ip joining_server = ''10.0.0.1''" "client_ip joining_server = ''10.0.0.2''" "ns_port joining_server = 8000"
      "client_port joining_server = 9001" "link_fd joining_link = Some 3" "link_up joining_link"
      "link_bytes joining_link = map Byte (wire [''OK'', ''SS registered. Awaiting file list.''])" "Send_error \<notin> set (link_sends joining_link)"
    by (simp_all add: joining_server_def joining_link_def)
  have sent: "sent = wire (hello_fields joining_server)"
    using hello_sent [of joining_server joining_link 3] reg parts joining_valid(1) joining_length by simp
  have acc: "is_valid_ip (ns_ip joining_server)" "length (ns_ip joining_server) < MAX_IP_LENGTH" "is_valid_port (ns_port joining_server)"
      "is_valid_ip (client_ip joining_server)" "length (client_ip joining_server) < MAX_IP_LENGTH" "is_valid_port (client_port joining_server)"
      "length (nm_servers ?ns) < NS_MAX_STORAGE_SERVERS" "(0::int) \<le> 7"
      "\<forall>s\<in>set (nm_servers ?ns). si_sockfd s \<noteq> 7 \<and>
         \<not> (si_alive s \<and> si_client_ip s = client_ip joining_server \<and> si_client_port s = client_port joining_server)"
    using joining_valid(1,2) ok(2) by (simp_all add: parts MAX_IP_LENGTH_def is_valid_port_def NS_MAX_STORAGE_SERVERS_def)
  obtain ns' cx where shake: "handshake 5 ?ns (new_connection 7 ''10.0.0.2'' 4000) sent =
      (ns', cx, [(7, wire [''OK'', ''SS registered. Awaiting file list.''])])"
    using hello_accepted [OF acc(1-7) ok(1) acc(8,9), of 5 "''10.0.0.2''" 4000] unfolding sent by metis
  have "link_bytes joining_link = map Byte (concat (map snd [(7 :: int, wire [''OK'', ''SS registered. Awaiting file list.''])])) @ []"
    using parts(7) by simp
  from registration_end_to_end [OF acc(1-7) ok(1) acc(8,9) parts(5) _ parts(6,8) joining_length reg shake this]
  show ?thesis
    using reg by simp
qed


end
