(* ===== verification/Access_Agreement.thy ===== *)
theory Access_Agreement
  imports Storage_Durability NS_Joining
begin

text \<open>
  The rights to a file are kept twice: by the name server, which checks them for a location, and by the
  storage server, which checks them again for every request.  Here ADDACCESS and REMACCESS are run from end to end, from the first half
  of the handler of the name server over the command on the wire and the handler of the storage
  server to the second half: both servers agree before and after.
\<close>

section \<open>Agreement\<close>

definition rights_agree :: "file_metadata \<Rightarrow> file_record \<Rightarrow> bool" where
  "rights_agree m r \<longleftrightarrow> (\<forall>u. user_ok u \<longrightarrow>
     (file_has_read_access m u \<longleftrightarrow> ss_check_read_access r u) \<and> (file_has_write_access m u \<longleftrightarrow> ss_check_write_access r u))"

text \<open>The announcement of a file makes them agree.\<close>

lemma announced_agree: "announceable d r \<Longrightarrow> known_as s d r m \<Longrightarrow> rights_agree m r"
  by (auto simp: rights_agree_def known_as_def announceable_def file_has_read_access_def file_has_write_access_def
      ss_check_read_access_def ss_check_write_access_def file_acl_contains_def ss_acl_contains_def validate_username_def
      split: if_splits)

text \<open>A storage server that can take one more user for the file of a record and answer.\<close>

definition has_room :: "storage_server \<Rightarrow> file_record \<Rightarrow> bool" where
  "has_room ss r \<longleftrightarrow> acl_wf (read_users r) \<and> acl_wf (write_users r) \<and> may_write (ss_disk ss) (metapath r) \<and>
     length (read_users r) < SS_MAX_USERS_PER_FILE \<and> length (write_users r) < SS_MAX_USERS_PER_FILE \<and> 0 \<le> ns_sockfd ss"

lemma perm_token_wants:
  "wants (CHR ''R'') (CHR ''r'') (perm_token r w) = r" "wants (CHR ''W'') (CHR ''w'') (perm_token r w) = w"
  by (simp_all add: wants_def perm_token_def)

lemma permission_some: "parse_permission_flags t = Some (r, w) \<Longrightarrow> r \<or> w"
  by (auto simp: parse_permission_flags_def split: if_splits)

lemma changed_accepted:
  assumes "wf_fields (''OK_ACCESS_CHANGED'' # rest)"
  shows "result_error ''OK_ACCESS_CHANGED'' (Answered (wire (''OK_ACCESS_CHANGED'' # rest))) = None"
  using parse_wire [OF assms] by (simp add: result_error_def Let_def protocol_is_error_def)

section \<open>The name server\<close>

lemma add_begin_spec:
  assumes "ns_inv ns" "ns_add_access_begin ns cx f = Inr (ns1, p)"
  obtains k rd wr where "k < length (nm_files ns)" "fm_name (nm_files ns ! k) = f ! 1" "parse_permission_flags (f ! 3) = Some (rd, wr)"
    "validate_username (f ! 2)" "snd (file_add_access (nm_files ns ! k) (f ! 2) rd wr) = 0"
    "nm_files ns1 = (nm_files ns)[k := fst (file_add_access (nm_files ns ! k) (f ! 2) rd wr)]"
    "pd_command p = [''SS_ADDACCESS'', f ! 1, f ! 2, perm_token rd wr]" "pd_cx p = cx" "pd_fields p = f" "validate_filename (f ! 1)"
proof -
  obtain nsl k where look: "file_lookup_locked ns (f ! 1) = (nsl, Some k)"
    using assms(2) by (auto simp: ns_add_access_begin_def Let_def split: if_splits prod.splits option.splits)
  have k: "k < length (nm_files ns)" "fm_name (nm_files ns ! k) = f ! 1"
    using lookup_inv(3) [OF look assms(1)] by simp_all
  obtain rd wr where perm: "parse_permission_flags (f ! 3) = Some (rd, wr)"
    using assms(2) by (auto simp: ns_add_access_begin_def Let_def split: if_splits option.splits)
  let ?m1 = "fst (file_add_access (nm_files ns ! k) (f ! 2) rd wr)"
  have b: "validate_username (f ! 2)" "validate_filename (f ! 1)" "snd (file_add_access (nm_files ns ! k) (f ! 2) rd wr) = 0"
      "acquire_server (set_file k ?m1 nsl) ?m1 = (ns1, pd_target p)" "pd_cx p = cx" "pd_fields p = f"
      "pd_command p = [''SS_ADDACCESS'', f ! 1, f ! 2, perm_token rd wr]"
    using assms(2) look perm lookup_same(1) [OF look]
    by (auto simp: ns_add_access_begin_def Let_def split: if_splits prod.splits)
  have "nm_files ns1 = (nm_files ns)[k := ?m1]"
    using acquire_same [OF b(4)] lookup_same(1) [OF look] by (simp add: set_file_def)
  then show ?thesis
    using that [OF k perm] b by blast
qed

lemma rem_begin_spec:
  assumes "ns_inv ns" "ns_rem_access_begin ns cx f = Inr (ns1, p)"
  obtains k where "k < length (nm_files ns)" "fm_name (nm_files ns ! k) = f ! 1"
    "validate_username (f ! 2)" "snd (file_remove_access (nm_files ns ! k) (f ! 2))"
    "nm_files ns1 = (nm_files ns)[k := fst (file_remove_access (nm_files ns ! k) (f ! 2))]"
    "pd_command p = [''SS_REMACCESS'', f ! 1, f ! 2]" "pd_cx p = cx" "pd_fields p = f" "validate_filename (f ! 1)"
proof -
  obtain nsl k where look: "file_lookup_locked ns (f ! 1) = (nsl, Some k)"
    using assms(2) by (auto simp: ns_rem_access_begin_def Let_def split: if_splits prod.splits option.splits)
  have k: "k < length (nm_files ns)" "fm_name (nm_files ns ! k) = f ! 1"
    using lookup_inv(3) [OF look assms(1)] by simp_all
  let ?m1 = "fst (file_remove_access (nm_files ns ! k) (f ! 2))"
  have b: "validate_username (f ! 2)" "validate_filename (f ! 1)" "snd (file_remove_access (nm_files ns ! k) (f ! 2))"
      "acquire_server (set_file k ?m1 nsl) ?m1 = (ns1, pd_target p)" "pd_cx p = cx" "pd_fields p = f"
      "pd_command p = [''SS_REMACCESS'', f ! 1, f ! 2]"
    using assms(2) look lookup_same(1) [OF look]
    by (auto simp: ns_rem_access_begin_def Let_def split: if_splits prod.splits)
  have "nm_files ns1 = (nm_files ns)[k := ?m1]"
    using acquire_same [OF b(4)] lookup_same(1) [OF look] by (simp add: set_file_def)
  then show ?thesis
    using that [OF k] b by blast
qed

lemma table_map_nth:
  "ns_inv ns \<Longrightarrow> k < length (nm_files ns) \<Longrightarrow> fm_name (nm_files ns ! k) = f \<Longrightarrow> table_map ns f = Some (nm_files ns ! k)"
  by (simp add: table_map_iff)

lemma removed_had_access:
  assumes "rights_ok m" "user_ok u" "snd (file_remove_access m u)"
  shows "file_has_read_access m u"
  using assms fa.remove_code
  by (auto simp: file_remove_access_def case_prod_beta file_has_read_access_def rights_ok_def split: if_splits)

lemma finish_success:
  assumes "pd_target p \<noteq> None" "result_error ''OK_ACCESS_CHANGED'' r = None"
  shows "nm_files (fst (ns_add_access_finish ns p r)) = nm_files ns" "nm_files (fst (ns_rem_access_finish ns p r)) = nm_files ns"
  using assms by (auto simp: ns_add_access_finish_def ns_rem_access_finish_def Let_def)

section \<open>The command on the wire\<close>

lemma command_wf:
  assumes "validate_filename f" "newline \<notin> set f" "validate_username u"
  shows "wf_fields [''SS_ADDACCESS'', f, u, perm_token r w]" "wf_fields [''SS_REMACCESS'', f, u]" "wf_fields [''OK_ACCESS_CHANGED'', f]"
proof -
  have "plain (perm_token r w)" "length (perm_token r w) \<le> 2"
    by (simp_all add: perm_token_def plain_def PROTOCOL_DELIMITER_def newline_def)
  moreover have "plain ''SS_ADDACCESS''" "plain ''SS_REMACCESS''" "plain ''OK_ACCESS_CHANGED''"
    by (simp_all add: plain_def PROTOCOL_DELIMITER_def newline_def)
  ultimately show "wf_fields [''SS_ADDACCESS'', f, u, perm_token r w]" "wf_fields [''SS_REMACCESS'', f, u]" "wf_fields [''OK_ACCESS_CHANGED'', f]"
    using plain_filename [OF assms(1,2)] filename_short [OF assms(1)] plain_username [OF assms(3)] username_short [OF assms(3)]
    by (simp_all add: wf_plain MAX_FIELDS_def MAX_MESSAGE_SIZE_def)
qed

section \<open>The storage server\<close>

lemma ss_grant:
  assumes "ss_inv ss" "ss_find_file ss g = Some r" "has_room ss r" "user_ok u"
    "wf_fields [''SS_ADDACCESS'', g, u, perm_token rd wr]" "rd \<or> wr"
    "ns_dispatch peer now ss (msg_fields (protocol_parse_message (wire [''SS_ADDACCESS'', g, u, perm_token rd wr]))) = (ss', out)"
  obtains r' where "ss_find_file ss' g = Some r'" "send_ns ss [''OK_ACCESS_CHANGED'', g] = out"
    "\<And>v. user_ok v \<Longrightarrow> ss_check_read_access r' v \<longleftrightarrow> ss_check_read_access r v \<or> v = u"
    "\<And>v. user_ok v \<Longrightarrow> ss_check_write_access r' v \<longleftrightarrow> ss_check_write_access r v \<or> (v = u \<and> wr)"
proof -
  have run: "ns_add_access ss [''SS_ADDACCESS'', g, u, perm_token rd wr] = (ss', out)"
    using assms(7) unfolding parse_wire [OF assms(5)] by (simp add: ns_dispatch_def)
  have room: "acl_wf (read_users r)" "acl_wf (write_users r)" "may_write (ss_disk ss) (metapath r)"
      "length (read_users r) < SS_MAX_USERS_PER_FILE" "length (write_users r) < SS_MAX_USERS_PER_FILE"
    using assms(3) by (simp_all add: has_room_def)
  show ?thesis
    by (rule access_granted [OF assms(1,2) room(1,2) assms(4) room(3-5) perm_token_wants [of rd wr, symmetric] assms(6),
          of "''SS_ADDACCESS''"], rule that) (simp_all add: run)
qed

lemma ss_revoke:
  assumes "ss_inv ss" "ss_find_file ss g = Some r" "has_room ss r" "user_ok u"
    "wf_fields [''SS_REMACCESS'', g, u]" "ss_acl_contains (read_users r) u \<or> ss_acl_contains (write_users r) u"
    "\<not> strncmp_eq MAX_USERNAME_LENGTH (owner r) u"
    "ns_dispatch peer now ss (msg_fields (protocol_parse_message (wire [''SS_REMACCESS'', g, u]))) = (ss', out)"
  obtains r' where "ss_find_file ss' g = Some r'" "send_ns ss [''OK_ACCESS_CHANGED'', g] = out"
    "\<And>v. user_ok v \<Longrightarrow> ss_check_read_access r' v \<longleftrightarrow> ss_check_read_access r v \<and> v \<noteq> u"
    "\<And>v. user_ok v \<Longrightarrow> ss_check_write_access r' v \<longleftrightarrow> ss_check_write_access r v \<and> v \<noteq> u"
proof -
  have run: "ns_rem_access ss [''SS_REMACCESS'', g, u] = (ss', out)"
    using assms(8) unfolding parse_wire [OF assms(5)] by (simp add: ns_dispatch_def)
  have room: "acl_wf (read_users r)" "acl_wf (write_users r)" "may_write (ss_disk ss) (metapath r)"
    using assms(3) by (simp_all add: has_room_def)
  show ?thesis
    by (rule access_revoked [OF assms(1,2) room(1,2) assms(4) room(3) assms(6,7), of "''SS_REMACCESS''"], rule that)
      (simp_all add: run)
qed

section \<open>A file on two servers\<close>

definition demo_shared :: file_metadata where
  "demo_shared = demo_file\<lparr>fm_read_users := [], fm_write_users := [''bob'']\<rparr>"

lemma demo_shared_parts [simp]: "fm_name demo_shared = ''a''" "fm_owner demo_shared = ''ann''" "fm_read_users demo_shared = []"
    "fm_write_users demo_shared = [''bob'']" "fm_ss_ip demo_shared = ''10.0.0.2''" "fm_ss_port demo_shared = 9001"
  by (simp_all add: demo_shared_def)

lemma demo_shared_server:
  obtains ns nsl where "ns_inv ns" "nm_files ns = [demo_shared]" "file_lookup_locked ns ''a'' = (nsl, Some 0)"
    "nm_files nsl = [demo_shared]"
    "\<forall>m. fm_ss_ip m = ''10.0.0.2'' \<and> fm_ss_port m = 9001 \<longrightarrow> snd (acquire_server (set_file 0 m nsl) m) \<noteq> None"
proof -
  obtain ns0 s where ns0: "ns_inv ns0" "nm_files ns0 = []" "nm_servers ns0 = [s]" "si_alive s" "si_addr s = 0" "si_sockfd s = 7"
    "\<not> si_awaiting s" "si_client_ip s = ''10.0.0.2''" "si_client_port s = 9001"
    using demo_with_server .
  let ?ns = "enter_file ns0 demo_shared ''a''"
  have "name_ok ''a''"
    by (simp add: name_ok_def MAX_FILENAME_LENGTH_def)
  moreover have "rights_ok demo_shared"
    by (simp add: rights_ok_def ns_acl_wf_def names_wf_def NS_MAX_CLIENTS_def MAX_USERNAME_LENGTH_def)
  ultimately have ns: "ns_inv ?ns" "nm_files ?ns = [demo_shared]"
    using inv_enter_file [OF ns0(1), of demo_shared "''a''"] ns0(2) by (simp_all add: file_names_def NS_MAX_FILES_def)
  obtain nsl found where look: "file_lookup_locked ?ns ''a'' = (nsl, found)"
    by fastforce
  have "found = Some 0"
    using lookup_inv(2) [OF look ns(1)] ns(2) by simp
  moreover have "nm_files nsl = [demo_shared]" "nm_servers nsl = [s]"
    using lookup_same(1,2) [OF look] ns(2) ns0(3) by (simp_all add: enter_file_same)
  moreover have "reachable_server m s" if "fm_ss_ip m = ''10.0.0.2''" "fm_ss_port m = 9001" for m
    using that ns0(4-9) by (simp add: reachable_server_def serves_def strncmp_eq_def)
  ultimately show ?thesis
    using that [of ?ns nsl] ns look by (simp add: acquire_server_def set_file_def)
qed

lemma demo_agree: "rights_agree demo_shared demo_record" "has_room demo_ss demo_record"
  "ss_find_file demo_ss ''a'' = Some demo_record" "owner demo_record = ''ann''"
proof -
  show "rights_agree demo_shared demo_record"
    by (simp add: rights_agree_def file_has_read_access_def file_has_write_access_def ss_check_read_access_def
        ss_check_write_access_def file_acl_contains_def ss_acl_contains_def demo_record_def empty_record_def)
  show "has_room demo_ss demo_record" "ss_find_file demo_ss ''a'' = Some demo_record" "owner demo_record = ''ann''"
    by code_simp+
qed

section \<open>End to end\<close>

text \<open>C15. A grant reaches both servers: when they agree on the rights to a file and the storage server has room, an
  ADDACCESS whose command is carried out and answered leaves them in agreement; the user has gained the rights
  of the token, where writing includes reading, and nobody else gained or lost any.\<close>

theorem grant_end_to_end:
  assumes "ns_inv ns" "table_map ns (f ! 1) = Some m" "ss_inv ss" "ss_find_file ss (f ! 1) = Some r" "has_room ss r" "rights_agree m r"
    "newline \<notin> set (f ! 1)"
    "ns_add_access_begin ns cx f = Inr (ns1, p)" "pd_target p \<noteq> None"
    "ns_dispatch peer now ss (msg_fields (protocol_parse_message (wire (pd_command p)))) = (ss', [(To_ns, raw)])"
    "ns_add_access_finish ns1 p (Answered raw) = (ns2, outs)"
  shows "\<exists>rd wr m' r'. parse_permission_flags (f ! 3) = Some (rd, wr) \<and> table_map ns2 = (table_map ns)(f ! 1 \<mapsto> m') \<and>
    ss_find_file ss' (f ! 1) = Some r' \<and> rights_agree m' r' \<and>
    (\<forall>v. user_ok v \<longrightarrow> (file_has_read_access m' v \<longleftrightarrow> file_has_read_access m v \<or> v = f ! 2) \<and>
       (file_has_write_access m' v \<longleftrightarrow> file_has_write_access m v \<or> (v = f ! 2 \<and> wr)))"
proof -
  obtain k rd wr where k: "k < length (nm_files ns)" "fm_name (nm_files ns ! k) = f ! 1"
    and b: "parse_permission_flags (f ! 3) = Some (rd, wr)" "validate_username (f ! 2)"
      "snd (file_add_access (nm_files ns ! k) (f ! 2) rd wr) = 0"
      "nm_files ns1 = (nm_files ns)[k := fst (file_add_access (nm_files ns ! k) (f ! 2) rd wr)]"
      "pd_command p = [''SS_ADDACCESS'', f ! 1, f ! 2, perm_token rd wr]" "pd_cx p = cx" "pd_fields p = f" "validate_filename (f ! 1)"
    using add_begin_spec [OF assms(1,8)] .
  have m: "m = nm_files ns ! k"
    using assms(2) table_map_nth [OF assms(1) k] by simp
  note wf = command_wf [OF b(8) assms(7) b(2)]
  have u: "user_ok (f ! 2)" and rr: "rd \<or> wr"
    using username_ok [OF b(2)] permission_some [OF b(1)] .
  obtain r' where r': "ss_find_file ss' (f ! 1) = Some r'" "send_ns ss [''OK_ACCESS_CHANGED'', f ! 1] = [(To_ns, raw)]"
    and gained: "\<And>v. user_ok v \<Longrightarrow> ss_check_read_access r' v \<longleftrightarrow> ss_check_read_access r v \<or> v = f ! 2"
      "\<And>v. user_ok v \<Longrightarrow> ss_check_write_access r' v \<longleftrightarrow> ss_check_write_access r v \<or> (v = f ! 2 \<and> wr)"
    by (rule ss_grant [OF assms(3-5) u wf(1) rr assms(10) [unfolded b(5)]], rule that) simp_all
  have "raw = wire [''OK_ACCESS_CHANGED'', f ! 1]"
    using r'(2) by (auto simp: send_ns_def send_fields_wire split: if_splits)
  then have "nm_files ns2 = nm_files ns1"
    using finish_success(1) [OF assms(9) changed_accepted [OF wf(3)], of ns1] assms(11) by simp
  then have map: "table_map ns2 = (table_map ns)(f ! 1 \<mapsto> fst (file_add_access m (f ! 2) rd wr))"
    using table_map_replace [OF assms(1) k, of ns2 "fst (file_add_access m (f ! 2) rd wr)"] b(4) k(2) by (simp add: m)
  have ro: "rights_ok m"
    using file_rights [OF assms(1) k(1)] by (simp add: m)
  have new: "file_has_read_access (fst (file_add_access m (f ! 2) rd wr)) v \<longleftrightarrow> file_has_read_access m v \<or> v = f ! 2"
    "file_has_write_access (fst (file_add_access m (f ! 2) rd wr)) v \<longleftrightarrow> file_has_write_access m v \<or> (v = f ! 2 \<and> wr)"
    if "user_ok v" for v
    using granted [OF ro u that] b(3) rr by (auto simp: m)
  then have "rights_agree (fst (file_add_access m (f ! 2) rd wr)) r'"
    using assms(6) gained by (simp add: rights_agree_def)
  then show ?thesis
    using b(1) map r'(1) new by blast
qed

theorem grant_end_to_end_witness:
  "\<exists>ns ns1 p ss' raw ns2 outs m' r'. ns_add_access_begin ns demo_ann [''ADDACCESS'', ''a'', ''eve'', ''R''] = Inr (ns1, p) \<and>
    ns_dispatch (\<lambda>ip port request. Unreachable) 9 demo_ss (msg_fields (protocol_parse_message (wire (pd_command p)))) = (ss', [(To_ns, raw)]) \<and>
    ns_add_access_finish ns1 p (Answered raw) = (ns2, outs) \<and> table_map ns2 ''a'' = Some m' \<and> ss_find_file ss' ''a'' = Some r' \<and>
    rights_agree m' r' \<and> file_has_read_access m' ''eve'' \<and> ss_check_read_access r' ''eve''"
proof -
  obtain ns nsl where ns: "ns_inv ns" "nm_files ns = [demo_shared]" "file_lookup_locked ns ''a'' = (nsl, Some 0)"
      "nm_files nsl = [demo_shared]"
    and srv: "\<forall>m. fm_ss_ip m = ''10.0.0.2'' \<and> fm_ss_port m = 9001 \<longrightarrow> snd (acquire_server (set_file 0 m nsl) m) \<noteq> None"
    using demo_shared_server .
  have args: "validate_filename ''a''" "validate_username ''eve''" "parse_permission_flags ''R'' = Some (True, False)"
      "cx_username demo_ann = ''ann''" "strncmp_eq MAX_USERNAME_LENGTH ''ann'' ''ann''" "\<not> strncmp_eq MAX_USERNAME_LENGTH ''ann'' ''eve''"
      "newline \<notin> set ''a''" "user_ok ''eve''"
    by code_simp+
  have added: "file_add_access demo_shared ''eve'' True False = (demo_shared\<lparr>fm_read_users := [''eve'']\<rparr>, 0)"
    by (simp add: file_add_access_def file_acl_add_def file_acl_contains_def safe_strcpy_def bounded_copy_id NS_MAX_CLIENTS_def
        MAX_USERNAME_LENGTH_def demo_shared_def)
  obtain ns1 p where begins: "ns_add_access_begin ns demo_ann [''ADDACCESS'', ''a'', ''eve'', ''R''] = Inr (ns1, p)" "pd_target p \<noteq> None"
      "pd_command p = [''SS_ADDACCESS'', ''a'', ''eve'', perm_token True False]"
    using srv [THEN spec, of "demo_shared\<lparr>fm_read_users := [''eve'']\<rparr>"]
    by (simp add: ns_add_access_begin_def Let_def ns(3,4) args added case_prod_beta)
  note wf = command_wf [OF args(1,7,2)]
  let ?peer = "\<lambda>ip port request. Unreachable"
  obtain ss' out where run: "ns_dispatch ?peer 9 demo_ss (msg_fields (protocol_parse_message (wire (pd_command p)))) = (ss', out)"
    by fastforce
  have "send_ns demo_ss [''OK_ACCESS_CHANGED'', ''a''] = out"
    by (rule ss_grant [OF demo_inv demo_agree(3,2) args(8) wf(1) _ run [unfolded begins(3)]]) simp_all
  then have out: "out = [(To_ns, wire [''OK_ACCESS_CHANGED'', ''a''])]"
    by (simp add: send_ns_def demo_ss_def send_fields_wire)
  obtain ns2 outs where finish: "ns_add_access_finish ns1 p (Answered (wire [''OK_ACCESS_CHANGED'', ''a''])) = (ns2, outs)"
    by fastforce
  have "table_map ns ''a'' = Some demo_shared"
    using table_map_nth [OF ns(1), of 0] ns(2) by simp
  then obtain m' r' where "table_map ns2 ''a'' = Some m'" "ss_find_file ss' ''a'' = Some r'" "rights_agree m' r'"
      "file_has_read_access m' ''eve''"
    using grant_end_to_end [OF ns(1) _ demo_inv _ demo_agree(2,1) _ begins(1,2) run [unfolded out] finish] demo_agree(3) args(7,8) by auto
  moreover from this have "ss_check_read_access r' ''eve''"
    using args(8) by (simp add: rights_agree_def)
  ultimately show ?thesis
    using begins(1) run [unfolded out] finish by blast
qed

text \<open>C16. A revocation reaches both servers: when they agree on the rights to a file, a REMACCESS of a user who is not the owner
  leaves them in agreement once the command is carried out and answered; the user has no right any more, and nobody
  else gained or lost any.\<close>

theorem revoke_end_to_end:
  assumes "ns_inv ns" "table_map ns (f ! 1) = Some m" "ss_inv ss" "ss_find_file ss (f ! 1) = Some r" "has_room ss r" "rights_agree m r"
    "newline \<notin> set (f ! 1)" "\<not> strncmp_eq MAX_USERNAME_LENGTH (fm_owner m) (f ! 2)" "owner r = fm_owner m"
    "ns_rem_access_begin ns cx f = Inr (ns1, p)" "pd_target p \<noteq> None"
    "ns_dispatch peer now ss (msg_fields (protocol_parse_message (wire (pd_command p)))) = (ss', [(To_ns, raw)])"
    "ns_rem_access_finish ns1 p (Answered raw) = (ns2, outs)"
  shows "\<exists>m' r'. table_map ns2 = (table_map ns)(f ! 1 \<mapsto> m') \<and> ss_find_file ss' (f ! 1) = Some r' \<and> rights_agree m' r' \<and>
    (\<forall>v. user_ok v \<longrightarrow> (file_has_read_access m' v \<longleftrightarrow> file_has_read_access m v \<and> v \<noteq> f ! 2) \<and>
       (file_has_write_access m' v \<longleftrightarrow> file_has_write_access m v \<and> v \<noteq> f ! 2))"
proof -
  obtain k where k: "k < length (nm_files ns)" "fm_name (nm_files ns ! k) = f ! 1"
    and b: "validate_username (f ! 2)" "snd (file_remove_access (nm_files ns ! k) (f ! 2))"
      "nm_files ns1 = (nm_files ns)[k := fst (file_remove_access (nm_files ns ! k) (f ! 2))]"
      "pd_command p = [''SS_REMACCESS'', f ! 1, f ! 2]" "pd_cx p = cx" "pd_fields p = f" "validate_filename (f ! 1)"
    using rem_begin_spec [OF assms(1,10)] .
  have m: "m = nm_files ns ! k"
    using assms(2) table_map_nth [OF assms(1) k] by simp
  note wf = command_wf [OF b(7) assms(7) b(1)]
  have u: "user_ok (f ! 2)" and ro: "rights_ok m"
    using username_ok [OF b(1)] file_rights [OF assms(1) k(1)] by (simp_all add: m)
  have "file_has_read_access m (f ! 2)"
    using removed_had_access [OF ro u] b(2) by (simp add: m)
  then have listed: "ss_acl_contains (read_users r) (f ! 2) \<or> ss_acl_contains (write_users r) (f ! 2)"
    using assms(6,8,9) u by (auto simp: rights_agree_def ss_check_read_access_def)
  have not_owner: "\<not> strncmp_eq MAX_USERNAME_LENGTH (owner r) (f ! 2)"
    using assms(8,9) by simp
  obtain r' where r': "ss_find_file ss' (f ! 1) = Some r'" "send_ns ss [''OK_ACCESS_CHANGED'', f ! 1] = [(To_ns, raw)]"
    and lost: "\<And>v. user_ok v \<Longrightarrow> ss_check_read_access r' v \<longleftrightarrow> ss_check_read_access r v \<and> v \<noteq> f ! 2"
      "\<And>v. user_ok v \<Longrightarrow> ss_check_write_access r' v \<longleftrightarrow> ss_check_write_access r v \<and> v \<noteq> f ! 2"
    by (rule ss_revoke [OF assms(3-5) u wf(2) listed not_owner assms(12) [unfolded b(4)]], rule that) simp_all
  have "raw = wire [''OK_ACCESS_CHANGED'', f ! 1]"
    using r'(2) by (auto simp: send_ns_def send_fields_wire split: if_splits)
  then have "nm_files ns2 = nm_files ns1"
    using finish_success(2) [OF assms(11) changed_accepted [OF wf(3)], of ns1] assms(13) by simp
  then have map: "table_map ns2 = (table_map ns)(f ! 1 \<mapsto> fst (file_remove_access m (f ! 2)))"
    using table_map_replace [OF assms(1) k, of ns2 "fst (file_remove_access m (f ! 2))"] b(3) k(2) by (simp add: m)
  have new: "file_has_read_access (fst (file_remove_access m (f ! 2))) v \<longleftrightarrow> file_has_read_access m v \<and> v \<noteq> f ! 2"
    "file_has_write_access (fst (file_remove_access m (f ! 2))) v \<longleftrightarrow> file_has_write_access m v \<and> v \<noteq> f ! 2"
    if "user_ok v" for v
    using revoked [OF ro u that] assms(8) by auto
  then have "rights_agree (fst (file_remove_access m (f ! 2))) r'"
    using assms(6) lost by (simp add: rights_agree_def)
  then show ?thesis
    using map r'(1) new by blast
qed

theorem revoke_end_to_end_witness:
  "\<exists>ns ns1 p ss' raw ns2 outs m' r'. ns_rem_access_begin ns demo_ann [''REMACCESS'', ''a'', ''bob''] = Inr (ns1, p) \<and>
    ns_dispatch (\<lambda>ip port request. Unreachable) 9 demo_ss (msg_fields (protocol_parse_message (wire (pd_command p)))) = (ss', [(To_ns, raw)]) \<and>
    ns_rem_access_finish ns1 p (Answered raw) = (ns2, outs) \<and> table_map ns2 ''a'' = Some m' \<and> ss_find_file ss' ''a'' = Some r' \<and>
    rights_agree m' r' \<and> \<not> file_has_write_access m' ''bob'' \<and> \<not> ss_check_write_access r' ''bob''"
proof -
  obtain ns nsl where ns: "ns_inv ns" "nm_files ns = [demo_shared]" "file_lookup_locked ns ''a'' = (nsl, Some 0)"
      "nm_files nsl = [demo_shared]"
    and srv: "\<forall>m. fm_ss_ip m = ''10.0.0.2'' \<and> fm_ss_port m = 9001 \<longrightarrow> snd (acquire_server (set_file 0 m nsl) m) \<noteq> None"
    using demo_shared_server .
  have args: "validate_filename ''a''" "validate_username ''bob''" "cx_username demo_ann = ''ann''" "strncmp_eq MAX_USERNAME_LENGTH ''ann'' ''ann''" "\<not> strncmp_eq MAX_USERNAME_LENGTH ''ann'' ''bob''"
      "newline \<notin> set ''a''" "user_ok ''bob''"
    by code_simp+
  have removed: "file_remove_access demo_shared ''bob'' = (demo_shared\<lparr>fm_write_users := []\<rparr>, True)"
    by (simp add: file_remove_access_def file_acl_remove_def demo_shared_def)
  obtain ns1 p where begins: "ns_rem_access_begin ns demo_ann [''REMACCESS'', ''a'', ''bob''] = Inr (ns1, p)" "pd_target p \<noteq> None"
      "pd_command p = [''SS_REMACCESS'', ''a'', ''bob'']"
    using srv [THEN spec, of "demo_shared\<lparr>fm_write_users := []\<rparr>"]
    by (simp add: ns_rem_access_begin_def Let_def ns(3,4) args removed case_prod_beta)
  note wf = command_wf [OF args(1,6,2)]
  let ?peer = "\<lambda>ip port request. Unreachable"
  obtain ss' out where run: "ns_dispatch ?peer 9 demo_ss (msg_fields (protocol_parse_message (wire (pd_command p)))) = (ss', out)"
    by fastforce
  have listed: "ss_acl_contains (read_users demo_record) ''bob'' \<or> ss_acl_contains (write_users demo_record) ''bob''"
      "\<not> strncmp_eq MAX_USERNAME_LENGTH (owner demo_record) ''bob''"
    by code_simp+
  have "send_ns demo_ss [''OK_ACCESS_CHANGED'', ''a''] = out"
    by (rule ss_revoke [OF demo_inv demo_agree(3,2) args(7) wf(2) listed run [unfolded begins(3)]]) simp_all
  then have out: "out = [(To_ns, wire [''OK_ACCESS_CHANGED'', ''a''])]"
    by (simp add: send_ns_def demo_ss_def send_fields_wire)
  obtain ns2 outs where finish: "ns_rem_access_finish ns1 p (Answered (wire [''OK_ACCESS_CHANGED'', ''a''])) = (ns2, outs)"
    by fastforce
  have "table_map ns ''a'' = Some demo_shared"
    using table_map_nth [OF ns(1), of 0] ns(2) by simp
  then obtain m' r' where "table_map ns2 ''a'' = Some m'" "ss_find_file ss' ''a'' = Some r'" "rights_agree m' r'"
      "\<not> file_has_write_access m' ''bob''"
    using revoke_end_to_end [OF ns(1) _ demo_inv _ demo_agree(2,1) _ _ _ begins(1,2) run [unfolded out] finish] demo_agree(3,4) args(5-7) by auto
  moreover from this have "\<not> ss_check_write_access r' ''bob''"
    using args(7) by (simp add: rights_agree_def)
  ultimately show ?thesis
    using begins(1) run [unfolded out] finish by blast
qed

end
