(* ===== verification/Storage_Interleaving.thy ===== *)
theory Storage_Interleaving
  imports Storage_Properties
begin

text \<open>
  Commits that overlap with other requests of a storage server.  \<open>handle_client_etirw\<close> copies the session under
  \<open>sessions_lock\<close> and commits later under \<open>file_lock\<close>, and in between any other thread may run.  Here a commit is two
  steps, and a state holds the commits that are under way.  As long as no two commits of one document
  overlap, every interleaving is one that whole handlers give; \<open>etirw_race_corrupts\<close> shows that the
  condition is needed.
\<close>

section \<open>Steps\<close>

record busy_server =
  bs_server :: storage_server
  bs_commits :: "(int \<times> write_session) list"

definition committing :: "busy_server \<Rightarrow> int set" where
  "committing s = fst ` set (bs_commits s)"

inductive busy_step :: "peer \<Rightarrow> busy_server \<Rightarrow> busy_server \<Rightarrow> bool" for peer where
  Request: "fd \<notin> committing s \<Longrightarrow> client_ok now (bs_server s) fs \<Longrightarrow>
     fs ! 0 = ''ETIRW'' \<longrightarrow> etirw_begin (bs_server s) fd = None \<Longrightarrow>
     busy_step peer s (s\<lparr>bs_server := fst (client_dispatch now (bs_server s) fd fs)\<rparr>)"
| Begin: "fd \<notin> committing s \<Longrightarrow> etirw_begin (bs_server s) fd = Some x \<Longrightarrow>
     busy_step peer s (s\<lparr>bs_commits := (fd, x) # bs_commits s\<rparr>)"
| Finish: "bs_commits s = as @ (fd, x) # bs \<Longrightarrow>
     busy_step peer s \<lparr>bs_server = fst (etirw_commit now (bs_server s) fd x), bs_commits = as @ bs\<rparr>"
| Order: "ns_ok (bs_server s) fs \<Longrightarrow> busy_step peer s (s\<lparr>bs_server := fst (ns_dispatch peer now (bs_server s) fs)\<rparr>)"
| Leave: "fd \<notin> committing s \<Longrightarrow> busy_step peer s (s\<lparr>bs_server := ss_abort_session (bs_server s) fd\<rparr>)"

text \<open>No two commits of one document are under way.\<close>

definition apart :: "busy_server \<Rightarrow> bool" where
  "apart s \<longleftrightarrow> distinct (map (\<lambda>c. sess_file (snd c)) (bs_commits s))"

inductive busy_run :: "peer \<Rightarrow> storage_server \<Rightarrow> busy_server \<Rightarrow> bool" for peer ss0 where
  Rest: "busy_run peer ss0 \<lparr>bs_server = ss0, bs_commits = []\<rparr>"
| Move: "busy_run peer ss0 s \<Longrightarrow> busy_step peer s s' \<Longrightarrow> apart s' \<Longrightarrow> busy_run peer ss0 s'"

section \<open>What a step keeps of the sessions\<close>

lemma locate_sessions:
  "sessions ss' = sessions ss \<Longrightarrow> sessions (fst (locate ss fd f g m (\<lambda>r. (ss', out r)))) = sessions ss"
  by (simp add: locate_def split: option.split)

lemma reading_sessions:
  "sessions (fst (handle_client_read now ss fd fs)) = sessions ss"
  "sessions (fst (handle_client_stream now ss fd fs)) = sessions ss"
  "sessions (fst (handle_client_viewcheckpoint now ss fd fs)) = sessions ss"
  "sessions (fst (handle_client_listcheckpoints now ss fd fs)) = sessions ss"
  by (simp_all add: handle_client_read_def handle_client_stream_def handle_client_viewcheckpoint_def
      handle_client_listcheckpoints_def locate_def Let_def case_prod_unfold split: option.split)

lemma saving_sessions:
  "sessions (fst (handle_client_undo now ss fd fs)) = sessions ss"
  "sessions (fst (handle_client_checkpoint now ss fd fs)) = sessions ss"
  "sessions (fst (handle_client_revert now ss fd fs)) = sessions ss"
  by (simp_all add: handle_client_undo_def handle_client_checkpoint_def handle_client_revert_def locate_def Let_def
      case_prod_unfold split: option.split)

lemma order_sessions:
  "sessions (fst (ns_create_file now ss fs)) = sessions ss"
  "sessions (fst (ns_delete_file ss fs)) = sessions ss"
  "sessions (fst (ns_get_stats ss fs)) = sessions ss"
  "sessions (fst (ns_get_content ss fs)) = sessions ss"
  "sessions (fst (ns_rename now ss fs)) = sessions ss"
  by (simp_all add: ns_create_file_def ns_delete_file_def ns_get_stats_def ns_get_content_def ns_rename_def
      ss_create_file_def ss_delete_file_def ss_handle_rename_def Let_def case_prod_unfold split: option.split)

lemma rights_sessions:
  "sessions (fst (ns_add_access ss fs)) = sessions ss" "sessions (fst (ns_rem_access ss fs)) = sessions ss"
  by (simp_all add: ns_add_access_def ns_rem_access_def Let_def case_prod_unfold split: option.split)

lemma copy_sessions: "sessions (fst (handle_ss_copy peer now ss fs)) = sessions ss"
  by (simp add: handle_ss_copy_def Let_def case_prod_unfold split: option.split)

lemma ns_sessions: "sessions (fst (ns_dispatch peer now ss fs)) = sessions ss"
  by (simp add: ns_dispatch_def Let_def order_sessions rights_sessions copy_sessions)

text \<open>A request keeps the sessions of all other connections.\<close>

lemma detach_keeps: "x \<in> set xs \<Longrightarrow> client_fd x \<noteq> fd \<Longrightarrow> x \<in> set (detach fd xs)"
  by (induction xs) auto

lemma abort_keeps: "x \<in> set (sessions ss) \<Longrightarrow> client_fd x \<noteq> fd \<Longrightarrow> x \<in> set (sessions (ss_abort_session ss fd))"
  by (simp add: ss_abort_session_def detach_keeps)

lemma lock_keeps:
  "x \<in> set (sessions ss) \<Longrightarrow> client_fd x \<noteq> fd \<Longrightarrow> x \<in> set (sessions (fst (handle_client_write_lock ss fd fs)))"
  by (simp add: handle_client_write_lock_def Let_def abort_keeps ss_create_session_def split: option.split prod.split)

lemma edit_keeps:
  assumes "ss_inv ss" "x \<in> set (sessions ss)" "client_fd x \<noteq> fd"
  shows "x \<in> set (sessions (fst (handle_client_write_data ss fd fs)))"
proof -
  have "sess_addr x \<noteq> sess_addr y" if "ss_find_session ss fd = Some y" for y
    using that assms ss_find_session_Some [OF that] by (auto simp: ss_inv_def sessions_wf_def distinct_map inj_on_def)
  then have "x \<in> set (sessions (put_session (y\<lparr>sentence_working := w\<rparr>) ss))" if "ss_find_session ss fd = Some y" for y w
    using that assms(2) by (force simp: put_session_def image_iff)
  then show ?thesis
    using assms(2)
    by (simp add: handle_client_write_data_def ss_apply_word_edit_def split: option.split)
qed

lemma request_keeps:
  assumes "ss_inv ss" "x \<in> set (sessions ss)" "client_fd x \<noteq> fd" "fs ! 0 = ''ETIRW'' \<longrightarrow> etirw_begin ss fd = None"
  shows "x \<in> set (sessions (fst (client_dispatch now ss fd fs)))"
  using assms(2,4) lock_keeps [OF assms(2,3)] edit_keeps [OF assms(1-3)]
  by (simp add: client_dispatch_def Let_def reading_sessions saving_sessions handle_client_etirw_def)

text \<open>A commit keeps the sessions on other documents.\<close>

lemma commit_keeps:
  assumes "x \<in> set (sessions ss)" "client_fd x \<noteq> fd" "sess_file x \<noteq> sess_file y"
  shows "x \<in> set (sessions (fst (etirw_commit now ss fd y)))"
proof (cases "get_record ss (sess_file y)")
  case (Some r)
  then have "sess_file x \<noteq> rec_addr r"
    using assms(3) get_record_Some [OF Some] by simp
  then show ?thesis
    using assms(1,2) Some
    by (force simp: etirw_commit_def Let_def case_prod_unfold ss_update_active_sessions_def image_iff intro!: detach_keeps split: option.split)
qed (simp add: etirw_commit_def assms)

section \<open>Overlapping commits of different documents\<close>

definition busy_ok :: "busy_server \<Rightarrow> bool" where
  "busy_ok s \<longleftrightarrow> distinct (map fst (bs_commits s)) \<and>
     (\<forall>(fd, x)\<in>set (bs_commits s). client_fd x = fd \<and> x \<in> set (sessions (bs_server s)))"

lemma busy_okD: "busy_ok s \<Longrightarrow> (fd, x) \<in> set (bs_commits s) \<Longrightarrow> client_fd x = fd \<and> x \<in> set (sessions (bs_server s))"
  by (auto simp: busy_ok_def)

text \<open>The end of a commit whose session is still as it was at the beginning is the whole handler.\<close>

lemma finish_is_handler:
  assumes "ss_inv ss" "x \<in> set (sessions ss)" "client_fd x = fd"
  shows "etirw_commit now ss fd x = client_dispatch now ss fd [''ETIRW'']"
proof -
  obtain y where y: "ss_find_session ss fd = Some y"
    using assms(2,3) by (cases "ss_find_session ss fd") (auto simp: ss_find_session_def find_None_iff)
  then have "y = x"
    using assms ss_find_session_Some [OF y] by (auto simp: ss_inv_def sessions_wf_def distinct_map inj_on_def)
  then show ?thesis
    using y by (simp add: client_dispatch_def handle_client_etirw_def etirw_begin_def)
qed

lemma busy_step_ok:
  assumes "busy_step peer s s'" "ss_inv (bs_server s)" "busy_ok s" "apart s"
  shows "busy_ok s' \<and> (bs_server s' = bs_server s \<or> ss_step peer (bs_server s) (bs_server s'))"
  using assms
proof (induction s s' rule: busy_step.induct)
  case (Request fd s now fs)
  have "x \<in> set (sessions (fst (client_dispatch now (bs_server s) fd fs)))" if "(g, x) \<in> set (bs_commits s)" for g x
    using that Request request_keeps [of "bs_server s" x fd fs now] by (force simp: busy_ok_def committing_def)
  then show ?case
    using Request(2,5) by (auto simp: busy_ok_def intro: ss_step.Client)
next
  case (Begin fd s x)
  then show ?case
    using ss_find_session_Some [of "bs_server s" fd x] by (auto simp: busy_ok_def committing_def etirw_begin_def)
next
  case (Finish s as fd x bs now)
  have x: "client_fd x = fd" "x \<in> set (sessions (bs_server s))"
    using Finish(1,3) by (simp_all add: busy_ok_def)
  have "y \<in> set (sessions (fst (etirw_commit now (bs_server s) fd x)))" if y: "(g, y) \<in> set as \<or> (g, y) \<in> set bs" for g y
  proof (rule commit_keeps)
    show "y \<in> set (sessions (bs_server s))" "client_fd y \<noteq> fd"
      using y Finish(1,3) by (force simp: busy_ok_def)+
    show "sess_file y \<noteq> sess_file x"
      using y Finish(1,4) by (force simp: apart_def)
  qed
  moreover have "ss_step peer (bs_server s) (fst (etirw_commit now (bs_server s) fd x))"
    unfolding finish_is_handler [OF Finish(2) x(2,1)] by (rule ss_step.Client) (simp add: client_ok_def)
  moreover have "client_fd y = g" if "(g, y) \<in> set as \<or> (g, y) \<in> set bs" for g y
    using that Finish(1) busy_okD [OF Finish(3), of g y] by auto
  moreover have "distinct (map fst (as @ bs))"
    using Finish(1,3) by (auto simp: busy_ok_def)
  ultimately show ?case
    by (auto simp: busy_ok_def)
next
  case (Order s fs now)
  then show ?case
    by (auto simp: busy_ok_def ns_sessions intro: ss_step.Command)
next
  case (Leave fd s)
  have "x \<in> set (sessions (ss_abort_session (bs_server s) fd))" if "(g, x) \<in> set (bs_commits s)" for g x
    using that Leave abort_keeps [of x "bs_server s" fd] by (force simp: busy_ok_def committing_def)
  then show ?case
    using Leave(3) by (auto simp: busy_ok_def intro: ss_step.Disconnect)
qed

lemma busy_run_ok:
  "busy_run peer ss0 s \<Longrightarrow> ss_inv ss0 \<Longrightarrow> busy_ok s \<and> apart s \<and> ss_reachable peer ss0 (bs_server s)"
proof (induction rule: busy_run.induct)
  case Rest
  then show ?case
    by (simp add: busy_ok_def apart_def ss_reachable.Start)
next
  case (Move s s')
  then have "ss_inv (bs_server s)"
    using ss_reachable_inv by blast
  then have "busy_ok s' \<and> (bs_server s' = bs_server s \<or> ss_step peer (bs_server s) (bs_server s'))"
    using busy_step_ok [OF Move(2)] Move by blast
  then show ?case
    using Move by (auto intro: ss_reachable.Step)
qed

text \<open>C12. Commits are atomic up to overlap on one document: however the two halves of commits, other requests, commands of the name server
  and lost connections interleave, as long as no two commits of one document are under way at a time, the server is in a state
  that a sequence of whole handlers also reaches, and every session is sound there.\<close>

theorem disjoint_commits_atomic:
  assumes "busy_run peer ss0 s" "ss_inv ss0"
  shows "ss_reachable peer ss0 (bs_server s) \<and> ss_inv (bs_server s)"
  using busy_run_ok [OF assms] ss_reachable_inv assms(2) by blast

text \<open>Client 10 starts its commit, client 11 edits its own sentence meanwhile, then the commit is completed.\<close>

definition demo_meanwhile :: storage_server where
  "demo_meanwhile = fst (client_dispatch 9 demo_edit 11 [''WRITE_DATA'', ''0'', ''And''])"

definition no_peer :: peer where
  "no_peer = (\<lambda>ip port request. Unreachable)"

theorem disjoint_commits_atomic_witness:
  "let ss = fst (etirw_commit 10 demo_meanwhile 10 (the (etirw_begin demo_edit 10))) in
   ss_reachable no_peer demo_edit ss \<and> file_text ss 0 = Some ''Hi you. Oh yo. So be it.'' \<and> ss_inv ss"
proof -
  let ?x = "the (etirw_begin demo_edit 10)"
  let ?s0 = "\<lparr>bs_server = demo_edit, bs_commits = []\<rparr>"
  let ?s1 = "\<lparr>bs_server = demo_edit, bs_commits = [(10, ?x)]\<rparr>"
  let ?s2 = "\<lparr>bs_server = demo_meanwhile, bs_commits = [(10, ?x)]\<rparr>"
  let ?s3 = "\<lparr>bs_server = fst (etirw_commit 10 demo_meanwhile 10 ?x), bs_commits = []\<rparr>"
  have 1: "busy_step no_peer ?s0 ?s1"
    using busy_step.Begin [of 10 ?s0 ?x] demo_facts(1) by (simp add: committing_def etirw_begin_def)
  have 2: "busy_step no_peer ?s1 ?s2"
    using busy_step.Request [of 11 ?s1 9 "[''WRITE_DATA'', ''0'', ''And'']"]
    by (simp add: committing_def client_ok_def demo_meanwhile_def)
  have 3: "busy_step no_peer ?s2 ?s3"
    using busy_step.Finish [of ?s2 "[]" 10 ?x "[]"] by simp
  have run: "busy_run no_peer demo_edit ?s3"
    by (rule busy_run.Move [OF busy_run.Move [OF busy_run.Move [OF busy_run.Rest 1] 2] 3]) (simp_all add: apart_def)
  have "file_text (fst (etirw_commit 10 demo_meanwhile 10 ?x)) 0 = Some ''Hi you. Oh yo. So be it.''"
    by code_simp
  then show ?thesis
    using disjoint_commits_atomic [OF run demo_edit_inv] by simp
qed

end
