(* ===== verification/Base64.thy ===== *)
theory Base64
  imports CStrings "HOL-Library.Word"
begin

text \<open>
  \<open>base64_encode\<close> and \<open>base64_decode\<close> of \<open>src/common/utils.c\<close>.  Bytes are
  \<open>8 word\<close>, the packed triples are \<open>uint32_t\<close>, i.e. \<open>32 word\<close>.  The decoder returns
  the bytes it stored and the length it reports.  The lemmas give the exact result of decoding what was encoded.
\<close>

unbundle bit_operations_syntax

section \<open>Encoder\<close>

definition BASE64_TABLE :: cstring where
  "BASE64_TABLE = ''ABCDEFGHIJKLMNOPQRSTUVWXYZabcdefghijklmnopqrstuvwxyz0123456789+/''"

definition base64_value :: "char \<Rightarrow> int" where
  "base64_value ch = (let c = of_char ch :: int in
     if 65 \<le> c \<and> c \<le> 90 then c - 65
     else if 97 \<le> c \<and> c \<le> 122 then c - 97 + 26
     else if 48 \<le> c \<and> c \<le> 57 then c - 48 + 52
     else if c = 43 then 62
     else if c = 47 then 63
     else if c = 61 then -2
     else -1)"

definition pack_triple :: "8 word \<Rightarrow> 8 word \<Rightarrow> 8 word \<Rightarrow> 32 word" where
  "pack_triple a b c = push_bit 16 (ucast a) OR push_bit 8 (ucast b) OR ucast c"

definition encode_group :: "8 word \<Rightarrow> 8 word \<Rightarrow> 8 word \<Rightarrow> cstring" where
  "encode_group octet_a octet_b octet_c = (let triple = pack_triple octet_a octet_b octet_c in
     map (\<lambda>w. BASE64_TABLE ! unat w)
       [drop_bit 18 triple AND 0x3F, drop_bit 12 triple AND 0x3F, drop_bit 6 triple AND 0x3F, triple AND 0x3F])"

fun encode_loop :: "8 word list \<Rightarrow> cstring" where
  "encode_loop [] = []"
| "encode_loop [a] = encode_group a 0 0"
| "encode_loop [a, b] = encode_group a b 0"
| "encode_loop (a # b # c # bs) = encode_group a b c @ encode_loop bs"

definition base64_encode :: "8 word list \<Rightarrow> cstring" where
  "base64_encode input =
     (let output_length = 4 * ((length input + 2) div 3);
          encoded = encode_loop input;
          m = length input mod 3 in
      if m > 0 then
        let e = encoded[output_length - 1 := CHR ''=''] in
        if m = 1 then e[output_length - 2 := CHR ''=''] else e
      else encoded)"

section \<open>Decoder\<close>

fun decode_loop :: "nat \<Rightarrow> 8 word list \<Rightarrow> cstring \<Rightarrow> 8 word list option" where
  "decode_loop decoded_length out (a # b # c # d # rest) =
     (let sextet_a = base64_value a; sextet_b = base64_value b;
          sextet_c = base64_value c; sextet_d = base64_value d in
      if sextet_a < 0 \<or> sextet_b < 0 \<or> sextet_c < -1 \<or> sextet_d < -1 then None
      else
        let t0 = push_bit 18 (word_of_int sextet_a) OR push_bit 12 (word_of_int sextet_b) :: 32 word;
            t1 = (if sextet_c \<ge> 0 then t0 OR push_bit 6 (word_of_int sextet_c) else t0);
            triple = (if sextet_d \<ge> 0 then t1 OR word_of_int sextet_d else t1);
            out1 = (if length out < decoded_length then out @ [ucast (drop_bit 16 triple AND 0xFF)] else out);
            out2 = (if sextet_c \<ge> 0 \<and> length out1 < decoded_length
                    then out1 @ [ucast (drop_bit 8 triple AND 0xFF)] else out1);
            out3 = (if sextet_d \<ge> 0 \<and> length out2 < decoded_length
                    then out2 @ [ucast (triple AND 0xFF)] else out2) in
        decode_loop decoded_length out3 rest)"
| "decode_loop decoded_length out rest = Some out"

definition base64_decode :: "cstring \<Rightarrow> (8 word list \<times> nat) option" where
  "base64_decode input =
     (let input_length = length input in
      if input_length = 0 \<or> input_length mod 4 \<noteq> 0 then None
      else
        let padding = (if input ! (input_length - 1) = CHR ''='' then 1 else 0) +
                      (if input ! (input_length - 2) = CHR ''='' then 1 else 0);
            decoded_length = (input_length div 4) * 3 - padding in
        map_option (\<lambda>decoded. (decoded, decoded_length)) (decode_loop decoded_length [] input))"

section \<open>Lemmas\<close>

lemma table_value: "k < 64 \<Longrightarrow> base64_value (BASE64_TABLE ! k) = int k"
proof -
  have "list_all (\<lambda>k. base64_value (BASE64_TABLE ! k) = int k) [0..<64]"
    by code_simp
  then show "k < 64 \<Longrightarrow> ?thesis"
    by (simp add: list_all_iff)
qed

lemma pad_value [simp]: "base64_value (CHR ''='') = -2"
  by code_simp

lemma sextet_mask: "w AND 0x3F = take_bit 6 (w :: 32 word)" "w AND 0xFF = take_bit 8 (w :: 32 word)"
  by (simp_all add: take_bit_eq_mask mask_eq_exp_minus_1)

lemma sextet_small: "unat (take_bit 6 (w :: 32 word)) < 64"
  using take_bit_nat_less_exp [of 6 "unat w"] by (simp add: unsigned_take_bit_eq)

lemma sextet_value: "base64_value (BASE64_TABLE ! unat (take_bit 6 (w :: 32 word))) = uint (take_bit 6 w)"
  using table_value [OF sextet_small [of w]] by simp

lemma triple_join:
  fixes a b c :: "8 word"
  defines "t \<equiv> pack_triple a b c"
  shows "((push_bit 18 (take_bit 6 (drop_bit 18 t)) OR push_bit 12 (take_bit 6 (drop_bit 12 t))) OR
    push_bit 6 (take_bit 6 (drop_bit 6 t))) OR take_bit 6 t = t"
proof (rule bit_word_eqI)
  fix n assume n: "n < LENGTH(32)"
  consider "n < 6" | "6 \<le> n" "n < 12" | "12 \<le> n" "n < 18" | "18 \<le> n" "n < 24" | "24 \<le> n"
    by linarith
  then show "bit (((push_bit 18 (take_bit 6 (drop_bit 18 t)) OR push_bit 12 (take_bit 6 (drop_bit 12 t))) OR
    push_bit 6 (take_bit 6 (drop_bit 6 t))) OR take_bit 6 t) n = bit t n"
  proof cases
    case 5
    then have "\<not> bit t n"
      by (auto simp: t_def pack_triple_def bit_simps dest: bit_imp_le_length)
    then show ?thesis
      using 5 n by (simp add: bit_simps)
  qed (use n in \<open>simp_all add: bit_simps less_diff_conv2\<close>)
qed

lemma triple_bytes:
  "ucast (take_bit 8 (drop_bit 16 (pack_triple a b c))) = a"
  "ucast (take_bit 8 (drop_bit 8 (pack_triple a b c))) = b"
  "ucast (take_bit 8 (pack_triple a b c)) = c"
  by (rule bit_word_eqI, auto simp: pack_triple_def bit_simps dest: bit_imp_le_length)+

text \<open>One full group goes through the loop unchanged.\<close>

lemma decode_step:
  assumes "length out + 3 \<le> m" "base64_value x1 = uint w1" "base64_value x2 = uint w2"
    "base64_value x3 = uint w3" "base64_value x4 = uint w4"
    "((push_bit 18 w1 OR push_bit 12 w2) OR push_bit 6 w3) OR w4 = pack_triple a b c"
  shows "decode_loop m out (x1 # x2 # x3 # x4 # rest) = decode_loop m (out @ [a, b, c]) rest"
proof -
  have "\<not> uint w < -1" for w :: "32 word"
    using uint_ge_0 [of w] by linarith
  then show ?thesis
    using assms by (simp add: Let_def sextet_mask triple_bytes del: drop_bit_or take_bit_or)
qed

lemma decode_group:
  assumes "length out + 3 \<le> m"
  shows "decode_loop m out (encode_group a b c @ rest) = decode_loop m (out @ [a, b, c]) rest"
  using decode_step [OF assms sextet_value sextet_value sextet_value sextet_value triple_join]
  by (simp add: encode_group_def Let_def sextet_mask del: decode_loop.simps)

lemma decode_encoded:
  assumes "length bs mod 3 = 0" "length out + length bs \<le> m"
  shows "decode_loop m out (encode_loop bs) = Some (out @ bs)"
  using assms
proof (induction bs arbitrary: out rule: encode_loop.induct)
  case (4 a b c bs)
  then show ?case
    by (simp add: decode_group)
qed simp_all

lemma length_encode_loop: "length (encode_loop bs) = 4 * ((length bs + 2) div 3)"
proof (induction bs rule: encode_loop.induct)
  case (4 a b c bs)
  have "(5 + length bs) div 3 = Suc ((2 + length bs) div 3)"
    by presburger
  then show ?case
    using 4 by (simp add: encode_group_def Let_def)
qed (simp_all add: encode_group_def Let_def)

text \<open>A group that ends in a padding character stops the loop, wherever it stands.\<close>

lemma decode_loop_pad:
  "length pre mod 4 = 0 \<Longrightarrow> decode_loop m out (pre @ [a, b, c, CHR ''='']) = None"
proof (induction m out pre rule: decode_loop.induct)
  case (1 m out a b c d pre)
  then show ?case
    by (simp add: Let_def)
qed (auto simp: Let_def)

lemma last_four:
  assumes "4 \<le> length e"
  obtains pre a b c d where "e = pre @ [a, b, c, d]"
proof -
  have "Suc (Suc (Suc (Suc 0))) \<le> length (rev e)"
    using assms by simp
  then obtain d c b a r where "rev e = d # c # b # a # r"
    unfolding Suc_le_length_iff by blast
  then have "e = rev r @ [a, b, c, d]"
    by (simp add: rev_swap)
  then show thesis
    using that by blast
qed

lemma length_encode: "length (base64_encode bs) = 4 * ((length bs + 2) div 3)"
  by (simp add: base64_encode_def Let_def length_encode_loop)

lemma last_padded:
  assumes "length bs mod 3 \<noteq> 0"
  obtains pre a b c where "base64_encode bs = pre @ [a, b, c, CHR ''='']" "length pre mod 4 = 0"
proof -
  have "1 \<le> (length bs + 2) div 3"
    using assms by (cases bs) auto
  then have n: "4 \<le> length (base64_encode bs)"
    by (simp add: length_encode)
  then obtain pre a b c d where e: "base64_encode bs = pre @ [a, b, c, d]"
    by (rule last_four)
  have "base64_encode bs ! (length (base64_encode bs) - 1) = CHR ''=''"
    using assms n by (auto simp: base64_encode_def Let_def length_encode_loop nth_list_update)
  then have "d = CHR ''=''"
    by (simp add: e nth_append)
  moreover have "length pre + 4 = 4 * ((length bs + 2) div 3)"
    using length_encode [of bs] by (simp add: e)
  then have "length pre mod 4 = 0"
    by presburger
  ultimately show thesis
    using that e by simp
qed

lemma encode_chars: "set (encode_loop bs) \<subseteq> set BASE64_TABLE"
proof (induction bs rule: encode_loop.induct)
  have t: "length BASE64_TABLE = 64"
    by code_simp
  have g: "set (encode_group a b c) \<subseteq> set BASE64_TABLE" for a b c
    using sextet_small by (auto simp: encode_group_def Let_def sextet_mask t intro!: nth_mem)
  show "set (encode_loop [a]) \<subseteq> set BASE64_TABLE" for a
    using g by simp
  show "set (encode_loop [a, b]) \<subseteq> set BASE64_TABLE" for a b
    using g by simp
  show "set (encode_loop (a # b # c # bs)) \<subseteq> set BASE64_TABLE" if "set (encode_loop bs) \<subseteq> set BASE64_TABLE" for a b c bs
    using g that by simp
qed simp

text \<open>C34. Decoding an encoded byte string gives it back when its length is a positive multiple of three, and fails
  otherwise: every encoding with padding is rejected, since the value of the padding character is -2 and the
  check lets only -1 pass.\<close>

theorem decode_encode:
  "base64_decode (base64_encode bs) =
    (if bs \<noteq> [] \<and> length bs mod 3 = 0 then Some (bs, length bs) else None)"
proof (cases "length bs mod 3 = 0")
  case False
  obtain pre a b c where e: "base64_encode bs = pre @ [a, b, c, CHR ''='']" "length pre mod 4 = 0"
    using last_padded [OF False] .
  show ?thesis
    using False by (simp add: base64_decode_def Let_def e decode_loop_pad)
next
  case True
  have enc: "base64_encode bs = encode_loop bs"
    using True by (simp add: base64_encode_def Let_def)
  show ?thesis
  proof (cases "bs = []")
    case False
    have three: "(length bs + 2) div 3 * 3 = length bs" "(length bs + 2) div 3 \<noteq> 0"
      using True False by (presburger, cases bs) auto
    have "CHR ''='' \<notin> set BASE64_TABLE"
      by code_simp
    then have no_pad: "encode_loop bs ! i \<noteq> CHR ''=''" if "i < length (encode_loop bs)" for i
      using encode_chars nth_mem [OF that] by fastforce
    show ?thesis
      using True False three no_pad decode_encoded [OF True, of "[]" "length bs"]
      by (simp add: base64_decode_def Let_def enc length_encode_loop)
  qed (simp add: base64_encode_def base64_decode_def)
qed

end
