(* ===== verification/Library_Properties.thy ===== *)
theory Library_Properties
  imports Protocol Sentences Base64
begin

text \<open>
  The properties of the shared code: messages survive the trip over a socket, error replies carry
  their code, the two sentence scanners agree and cut the text into parts, words survive joining and splitting.
\<close>

section \<open>Messages\<close>

text \<open>C24. Messages cross the wire: a sequence of messages with admissible fields, each sent through
  any sequence of partial and interrupted sends that delivers all its bytes, is received as the same
  sequence of field lists.\<close>

theorem messages_cross_the_wire:
  assumes "\<forall>(fs, rs)\<in>set ms. wf_fields fs \<and> Send_error \<notin> set rs \<and>
      message_size fs + 1 \<le> sent_total rs" "0 \<le> out_fd" "0 \<le> in_fd"
  shows "pm.receive_all in_fd (length ms) (map Byte (concat (map (\<lambda>(fs, rs).
      fst (protocol_send_message out_fd (the (protocol_build_message (map Some fs))) rs)) ms))) = Some (map fst ms)"
proof -
  have "fst (protocol_send_message out_fd (the (protocol_build_message (map Some fs))) rs) =
      the (protocol_build_message (map Some fs))" if "(fs, rs) \<in> set ms" for fs rs
  proof -
    have "fs \<noteq> []" "Send_error \<notin> set rs" "message_size fs + 1 \<le> sent_total rs"
      using assms(1) that by (auto simp: wf_fields_def)
    then show ?thesis
      using assms(2) by (simp add: protocol_send_message_def build_some send_loop_complete length_join_with)
  qed
  then have sent: "map (\<lambda>(fs, rs). fst (protocol_send_message out_fd (the (protocol_build_message (map Some fs))) rs)) ms =
      map (\<lambda>fs. the (protocol_build_message (map Some fs))) (map fst ms)"
    by auto
  have "\<forall>fs\<in>set (map fst ms). wf_fields fs"
    using assms(1) by auto
  then show ?thesis
    unfolding sent using pm.receive_all_enc [of "map fst ms" in_fd] assms(3) by simp
qed

theorem messages_cross_the_wire_witness:
  "pm.receive_all 4 2 (map Byte (concat (map (\<lambda>(fs, rs).
      fst (protocol_send_message 3 (the (protocol_build_message (map Some fs))) rs))
      [([''OK'', ''''], [Sent 2, Send_EINTR, Sent 9]), ([''VIEW''], [Sent 5])]))) = Some [[''OK'', ''''], [''VIEW'']]"
proof -
  have "\<forall>(fs, rs)\<in>set [([''OK'', ''''], [Sent 2, Send_EINTR, Sent 9]), ([''VIEW''], [Sent 5])].
      wf_fields fs \<and> Send_error \<notin> set rs \<and> message_size fs + 1 \<le> sent_total rs"
    by (simp add: wf_fields_def MAX_FIELDS_def MAX_MESSAGE_SIZE_def PROTOCOL_DELIMITER_def newline_def)
  from messages_cross_the_wire [OF this, of 3 4] show ?thesis
    by (simp add: numeral_2_eq_2)
qed

text \<open>C33. A send ends: it is still in its loop exactly while no call of \<open>send\<close> has failed and the bytes accepted so
  far, interruptions aside, are fewer than the message has.  What it leaves on the wire is a prefix of the message, and it
  reports success only when this is the whole message.\<close>

theorem send_terminates:
  "(snd (protocol_send_message fd m rs) = None \<longleftrightarrow> 0 \<le> fd \<and> Send_error \<notin> set rs \<and> sent_total rs < length m) \<and>
   (\<exists>n\<le>length m. fst (protocol_send_message fd m rs) = take n m \<and>
     (snd (protocol_send_message fd m rs) = Some (Some v) \<longrightarrow> v = length m \<and> n = length m))"
proof (cases "fd < 0")
  case True
  then show ?thesis
    by (auto simp: protocol_send_message_def intro: exI [of _ 0])
next
  case False
  then show ?thesis
    using send_loop_prefix [of 0 m rs] send_loop_running [of 0 m rs] by (auto simp: protocol_send_message_def)
qed

theorem send_terminates_witness:
  "fst (protocol_send_message 3 ''abcde'' [Sent 2, Send_EINTR, Sent 3]) = ''abcde'' \<and> (5::nat) = length ''abcde'' \<and>
   snd (protocol_send_message 3 ''abcde'' [Sent 2, Send_EINTR]) = None"
proof -
  have "snd (protocol_send_message 3 ''abcde'' [Sent 2, Send_EINTR, Sent 3]) = Some (Some 5)"
    by code_simp
  then show ?thesis
    using send_terminates [of 3 "''abcde''" "[Sent 2, Send_EINTR, Sent 3]" 5] send_terminates [of 3 "''abcde''" "[Sent 2, Send_EINTR]" 5] by auto
qed

text \<open>An error reply that fits a message is recognised by the peer as an error with the same code, and its text
  arrives; a missing text is replaced by the standard one.\<close>

theorem error_reply_roundtrip:
  assumes "INT_MIN_I \<le> code" "code \<le> INT_MAX_I" "length t < 60000" "PROTOCOL_DELIMITER \<notin> set t" "newline \<notin> set t"
    "t = (case txt of Some m \<Rightarrow> m | None \<Rightarrow> protocol_get_error_message code)"
    "protocol_build_error code txt = Some raw"
  shows "protocol_is_error (protocol_parse_message raw) \<and>
    protocol_get_error_code (protocol_parse_message raw) = code \<and>
    msg_fields (protocol_parse_message raw) ! 2 = t"
proof -
  note len = length_show_int [OF assms(1,2)]
  then have code: "bounded_copy 16 (show_int code) = show_int code"
    by (simp add: bounded_copy_id)
  let ?fs = "[''ERR'', show_int code, t]"
  have "protocol_build_error code txt = protocol_build_message (map Some ?fs)"
    by (simp add: protocol_build_error_def code assms(6))
  then have raw: "raw = join_with PROTOCOL_DELIMITER ?fs @ [newline]"
    using assms(7) build_some [of ?fs] by simp
  have "wf_fields ?fs"
    using len assms(3-5) show_int_no_special(2) [of code, unfolded newline_def] by (simp add: wf_fields_def MAX_FIELDS_def MAX_MESSAGE_SIZE_def PROTOCOL_DELIMITER_def newline_def)
  then have "msg_fields (protocol_parse_message raw) = ?fs"
    unfolding raw by (rule parse_build)
  then show ?thesis
    using assms(1,2) by (simp add: protocol_is_error_def protocol_get_error_code_def atoi_show_int)
qed

theorem error_reply_roundtrip_witness:
  "protocol_get_error_code (protocol_parse_message (the (protocol_build_error 423 None))) = 423"
proof -
  let ?t = "protocol_get_error_message 423"
  have t: "?t = ''Sentence is locked by another user.''"
    by code_simp
  have h: "INT_MIN_I \<le> 423" "423 \<le> INT_MAX_I" "length ?t < 60000" "PROTOCOL_DELIMITER \<notin> set ?t" "newline \<notin> set ?t"
      "?t = (case None of Some m \<Rightarrow> m | None \<Rightarrow> protocol_get_error_message 423)"
      "protocol_build_error 423 None = Some (the (protocol_build_error 423 None))"
    by (simp_all add: t INT_MIN_I_def INT_MAX_I_def PROTOCOL_DELIMITER_def newline_def protocol_build_error_def
        protocol_build_message_def)
  show ?thesis
    using error_reply_roundtrip [OF h] by blast
qed

section \<open>Sentences\<close>

lemma extract_loop_bounds:
  assumes "length pre = start" "cursor = start + length seg"
  shows "extract_loop seg p current index = (case bounds_loop p cursor start current index of
     None \<Rightarrow> None | Some (s, e) \<Rightarrow> if s < e then Some (span_text (pre @ seg @ p) s e) else None)"
  using assms
proof (induction seg p current index arbitrary: pre start cursor rule: extract_loop.induct)
  case (1 seg current index)
  then show ?case
    by (auto simp: span_text_def)
next
  case (2 seg c p current index)
  let ?k = "cursor + 1 + length (takeWhile is_space p)"
  show ?case
  proof (cases "is_sentence_delimiter c")
    case True
    show ?thesis
    proof (cases "current = index")
      case True
      then show ?thesis
        using \<open>is_sentence_delimiter c\<close> 2(3,4) by (simp add: span_text_def)
    next
      case False
      have parts: "(pre @ seg @ c # takeWhile is_space p) @ [] @ dropWhile is_space p = pre @ seg @ c # p"
        by simp
      show ?thesis
        using 2(1) [OF True False, of "pre @ seg @ c # takeWhile is_space p" ?k ?k, unfolded parts] 2(3,4) True False
        by (simp add: Let_def add.assoc)
    qed
  next
    case False
    have parts: "pre @ (seg @ [c]) @ p = pre @ seg @ c # p"
      by simp
    show ?thesis
      using 2(2) [OF False, of pre start "cursor + 1", unfolded parts] 2(3,4) False by simp
  qed
qed

lemma bounds_loop_first:
  "bounds_loop p cursor start c c = Some (s, e) \<Longrightarrow> p \<noteq> [] \<Longrightarrow> start \<le> cursor \<Longrightarrow> s < e"
proof (induction p arbitrary: cursor)
  case (Cons x p)
  then show ?case
    by (cases "p = []") (auto split: if_splits)
qed simp

text \<open>C31. The two sentence scanners agree: \<open>extract_sentence\<close> of the shared library returns
  the text between the bounds that \<open>ss_get_sentence_bounds\<close> of the storage server finds, and nothing when there are
  none or when the sentence is the empty one after the last terminator.\<close>

theorem extract_is_span:
  "extract_sentence t i = (case ss_get_sentence_bounds t i of None \<Rightarrow> None
     | Some (s, e) \<Rightarrow> if s < e \<or> i = 0 then Some (span_text t s e) else None)"
proof (cases "dropWhile is_space t = []")
  case True
  then show ?thesis
    by (simp add: extract_sentence_def ss_get_sentence_bounds_def span_text_def Let_def)
next
  case False
  have ex: "extract_loop [] (dropWhile is_space t) 0 i = (case ss_get_sentence_bounds t i of
      None \<Rightarrow> None | Some (s, e) \<Rightarrow> if s < e then Some (span_text t s e) else None)" if "0 \<le> i"
    using that False extract_loop_bounds [of "takeWhile is_space t" _ _ "[]" "dropWhile is_space t" 0 i,
        unfolded append_Nil takeWhile_dropWhile_id]
    by (simp add: ss_get_sentence_bounds_def Let_def)
  have first: "s < e" if "ss_get_sentence_bounds t 0 = Some (s, e)" for s e
    using that False bounds_loop_first [of "dropWhile is_space t" _ _ 0 s e] by (simp add: bounds_eq_loop)
  show ?thesis
    using False ex first by (auto simp: extract_sentence_def bounds_eq_loop split: option.split)
qed

definition visible :: "cstring \<Rightarrow> cstring" where
  "visible s = filter (\<lambda>c. \<not> is_space c) s"

text \<open>The spans the loop cuts a text into, in order.\<close>

function spans :: "cstring \<Rightarrow> cstring \<Rightarrow> cstring list" where
  "spans seg [] = [seg]"
| "spans seg (c # p) =
     (if is_sentence_delimiter c then (seg @ [c]) # spans [] (dropWhile is_space p) else spans (seg @ [c]) p)"
  by pat_completeness auto
termination
  by (relation "measure (\<lambda>(seg, p). length p)") (auto simp: le_imp_less_Suc length_dropWhile_le)

lemma visible_simps [simp]:
  "visible [] = []" "visible (a @ b) = visible a @ visible b"
  "visible (c # s) = (if is_space c then visible s else c # visible s)"
  "visible (dropWhile is_space s) = visible s"
proof -
  show "visible (dropWhile is_space s) = visible s"
    by (induction s) (simp_all add: visible_def)
qed (simp_all add: visible_def)

lemma spans_visible: "concat (map visible (spans seg p)) = visible (seg @ p)"
  by (induction seg p rule: spans.induct) auto

lemma length_spans: "length (spans seg p) = Suc (count_sentences p)"
  by (induction seg p rule: spans.induct) auto

lemma extract_loop_spans:
  "current \<le> index \<Longrightarrow> extract_loop seg p current index =
    (if nat (index - current) < length (spans seg p) \<and> spans seg p ! nat (index - current) \<noteq> []
     then Some (spans seg p ! nat (index - current)) else None)"
proof (induction seg p current index rule: extract_loop.induct)
  case (2 seg c p current index)
  show ?case
  proof (cases "is_sentence_delimiter c \<and> current \<noteq> index")
    case True
    then have "nat (index - current) = Suc (nat (index - (current + 1)))"
      using 2(3) by auto
    then show ?thesis
      using True 2(1) 2(3) by auto
  qed (use 2 in auto)
qed auto

text \<open>C32. The sentences partition the text: every character that is not white space lies in exactly one of the
  sentences \<open>0, ..., count_sentences t\<close>, and they are in order: the visible characters of the sentences, put
  together, are the visible characters of the text.\<close>

theorem sentences_partition_text:
  "concat (map (\<lambda>i. case ss_get_sentence_bounds t (int i) of None \<Rightarrow> [] | Some (s, e) \<Rightarrow> visible (span_text t s e))
     [0..<Suc (count_sentences t)]) = visible t"
proof -
  let ?ps = "spans [] (dropWhile is_space t)"
  have n: "length ?ps = Suc (count_sentences t)"
    by (simp add: length_spans)
  have "(case ss_get_sentence_bounds t (int i) of None \<Rightarrow> [] | Some (s, e) \<Rightarrow> visible (span_text t s e)) = visible (?ps ! i)"
    if "i < Suc (count_sentences t)" for i
  proof -
    have "extract_loop [] (dropWhile is_space t) 0 (int i) = (case ss_get_sentence_bounds t (int i) of
        None \<Rightarrow> None | Some (s, e) \<Rightarrow> if s < e then Some (span_text t s e) else None)"
      using extract_loop_bounds [of "takeWhile is_space t" _ _ "[]" "dropWhile is_space t" 0 "int i",
          unfolded append_Nil takeWhile_dropWhile_id]
      by (simp add: bounds_eq_loop)
    moreover have "visible (span_text t s e) = []" if "\<not> s < e" for s e
      using that by (simp add: span_text_def)
    ultimately show ?thesis
      using that n extract_loop_spans [of 0 "int i" "[]" "dropWhile is_space t"]
      by (auto split: option.splits if_splits)
  qed
  then have "map (\<lambda>i. case ss_get_sentence_bounds t (int i) of None \<Rightarrow> [] | Some (s, e) \<Rightarrow> visible (span_text t s e))
      [0..<Suc (count_sentences t)] = map (\<lambda>i. visible (?ps ! i)) [0..<length ?ps]"
    unfolding n by (intro map_cong) auto
  also have "\<dots> = map visible ?ps"
    by (rule nth_equalityI) auto
  finally show ?thesis
    using spans_visible [of "[]" "dropWhile is_space t"] by simp
qed

text \<open>Words survive joining: splitting joined words gives the words, and the word count that
  the server reports is the number of words.\<close>

theorem words_survive_joining:
  assumes "\<forall>w\<in>set ws. is_word w"
  shows "split_words (join_words ws None) = ws \<and> count_words (join_words ws None) = length ws"
proof -
  have "join_words ws None = unwords ws"
    using assms by (simp add: join_words_eq is_word_def)
  then show ?thesis
    using assms by (simp add: split_words_eq word_list_unwords count_words_eq)
qed

theorem words_survive_joining_witness:
  "split_words (join_words [''So'', ''be'', ''it.''] None) = [''So'', ''be'', ''it.'']"
proof -
  have "\<forall>w\<in>set [''So'', ''be'', ''it.'']. is_word w"
    by (simp add: is_word_def is_space_def)
  from words_survive_joining [OF this] show ?thesis
    by blast
qed

end
