(* ===== verification/NS_Command_Properties.thy ===== *)
theory NS_Command_Properties
  imports NS_Properties
begin

text \<open>
  What the commands of a client do to the table of files: DELETE and MOVE act on exactly a
  subtree, CREATE leaves nothing behind when it fails, a location is only given to
  users with the right, and what a failed ADDACCESS does to the rights of a user.
\<close>

section \<open>Subtrees\<close>

text \<open>The entry at a path and, when that is a folder, all entries below it.\<close>

definition in_subtree :: "cstring \<Rightarrow> bool \<Rightarrow> file_metadata \<Rightarrow> bool" where
  "in_subtree path is_dir m \<longleftrightarrow> fm_name m = path \<or> (is_dir \<and> (\<exists>s. fm_name m = path @ CHR ''/'' # s))"

lemma delete_match_subtree: "path \<noteq> [] \<Longrightarrow> delete_match path d m = in_subtree path d m"
  by (simp add: delete_match_iff in_subtree_def)

lemma subtree_names:
  "path \<noteq> [] \<Longrightarrow> {m\<in>S. fm_name m \<notin> fm_name ` {m\<in>S. delete_match path d m}} = {m\<in>S. \<not> in_subtree path d m}"
  by (auto simp: delete_match_subtree in_subtree_def)

abbreviation owned_by :: "cstring \<Rightarrow> file_metadata \<Rightarrow> bool" where
  "owned_by user m \<equiv> strncmp_eq MAX_USERNAME_LENGTH (fm_owner m) user"

lemma lookup_entry:
  assumes "ns_inv ns" "file_lookup_locked ns f = (ns1, Some k)"
  shows "nm_files ns1 ! k \<in> set (nm_files ns)" "fm_name (nm_files ns1 ! k) = f"
  using lookup_inv [OF assms(2,1)] lookup_same(1) [OF assms(2)] by simp_all

section \<open>DELETE\<close>

text \<open>The storage server of a file has confirmed that it deleted it.\<close>

definition deletion_confirmed :: "(nat \<Rightarrow> cstring list \<Rightarrow> ss_result) \<Rightarrow> ss_info list \<Rightarrow> file_metadata \<Rightarrow> bool" where
  "deletion_confirmed answer servers m \<longleftrightarrow> (\<exists>s\<in>set servers. reachable_server m s \<and>
     delete_failure (answer (si_addr s) [''DELETE_FILE'', fm_name m]) = None)"

text \<open>A complete plan for the entries \<open>ms\<close>: the subtree, all owned, every file with its server.\<close>

definition plan_covers :: "ss_info list \<Rightarrow> cstring \<Rightarrow> cstring \<Rightarrow> bool \<Rightarrow> file_metadata list \<Rightarrow> delete_entry list \<Rightarrow> bool" where
  "plan_covers servers user target d ms plan \<longleftrightarrow>
     map dp_path plan = map fm_name (filter (delete_match target d) ms) \<and>
     (\<forall>m\<in>set ms. delete_match target d m \<longrightarrow> owned_by user m \<and>
        (fm_is_directory m \<or> (\<exists>e\<in>set plan. dp_path e = fm_name m \<and> \<not> dp_is_directory e \<and>
           (\<exists>s\<in>set servers. reachable_server m s \<and> dp_ss e = Some (si_addr s)))))"

lemma plan_covers_skip: "\<not> delete_match target d m \<Longrightarrow> plan_covers servers user target d (m # ms) plan = plan_covers servers user target d ms plan"
  by (simp add: plan_covers_def)

lemma plan_covers_add:
  assumes "plan_covers servers user target d ms plan" "delete_match target d m" "owned_by user m" "dp_path e = fm_name m"
    "fm_is_directory m \<or> (\<not> dp_is_directory e \<and> (\<exists>s\<in>set servers. reachable_server m s \<and> dp_ss e = Some (si_addr s)))"
  shows "plan_covers servers user target d (m # ms) (e # plan)"
  using assms unfolding plan_covers_def by auto

lemma delete_plan_spec:
  assumes "delete_plan servers user target d ms plan = (plan', None)" "\<forall>m\<in>set ms. name_ok (fm_name m)"
  shows "\<exists>new. plan' = plan @ new \<and> plan_covers servers user target d ms new"
  using assms
proof (induction ms arbitrary: plan)
  case Nil
  then show ?case
    by (simp add: plan_covers_def)
next
  case (Cons m ms)
  have nm: "bounded_copy MAX_FILENAME_LENGTH (fm_name m) = fm_name m"
    using Cons.prems(2) by (simp add: name_ok_def bounded_copy_id)
  let ?e = "\<lparr>dp_path = fm_name m, dp_is_directory = fm_is_directory m, dp_ss = None,
      dp_size = (if fm_size m > 0 then fm_size m else 0)\<rparr>"
  have IH: "\<exists>new. plan' = plan @ new \<and> plan_covers servers user target d (m # ms) new"
    if e: "delete_plan servers user target d ms (plan @ [e]) = (plan', None)" "delete_match target d m" "owned_by user m" "dp_path e = fm_name m"
      "fm_is_directory m \<or> (\<not> dp_is_directory e \<and> (\<exists>s\<in>set servers. reachable_server m s \<and> dp_ss e = Some (si_addr s)))" for e
  proof -
    obtain new where "plan' = (plan @ [e]) @ new" "plan_covers servers user target d ms new"
      using Cons.IH [OF e(1)] Cons.prems(2) by auto
    then show ?thesis
      using plan_covers_add [OF _ e(2-5)] by (intro exI [of _ "e # new"]) simp
  qed
  consider "\<not> delete_match target d m"
    | "delete_match target d m" "owned_by user m" "fm_is_directory m"
    | s where "delete_match target d m" "owned_by user m" "\<not> fm_is_directory m" "find (reachable_server m) servers = Some s"
    using Cons.prems(1) nm by (auto simp: Let_def split: if_splits option.splits)
  then show ?case
  proof cases
    case 1
    then show ?thesis
      using Cons.IH [of plan] Cons.prems by (simp add: plan_covers_skip)
  next
    case 2
    then show ?thesis
      using IH [of ?e] Cons.prems(1) nm by (simp add: Let_def)
  next
    case 3
    have "s \<in> set servers" "reachable_server m s"
      using 3(4) by (auto simp: find_Some_iff)
    then show ?thesis
      using IH [of "?e\<lparr>dp_ss := Some (si_addr s)\<rparr>"] 3 Cons.prems(1) nm by (auto simp: Let_def)
  qed
qed

lemma delete_calls_confirm:
  "snd (delete_calls answer plan) = None \<Longrightarrow> e \<in> set plan \<Longrightarrow> \<not> dp_is_directory e \<Longrightarrow>
     delete_failure (answer (the (dp_ss e)) [''DELETE_FILE'', dp_path e]) = None"
  by (induction answer plan rule: delete_calls.induct) (auto simp: Let_def split: if_splits option.splits prod.splits)

lemma delete_changes:
  assumes "ns_delete answer ns cx f = (ns', outs)" "nm_files ns' \<noteq> nm_files ns" "file_lookup_locked ns (f ! 1) = (ns1, r)"
  obtains i plan where "f ! 1 \<noteq> []" "r = Some i"
    "delete_plan (nm_servers ns1) (cx_username cx) (f ! 1) (fm_is_directory (nm_files ns1 ! i)) (nm_files ns1) [] = (plan, None)"
    "snd (delete_calls answer plan) = None" "nm_files ns' = nm_files (remove_plan plan (acquire_all (plan_refs plan) ns1))"
proof -
  note same = lookup_same(1) [OF assms(3)]
  have "ns_validate_logical_path (f ! 1)"
    using assms(1,2) by (auto simp: ns_delete_def Let_def split: if_splits)
  then have ne: "f ! 1 \<noteq> []"
    by (auto simp: ns_validate_logical_path_def)
  obtain i where i: "r = Some i"
    using assms same by (auto simp: ns_delete_def Let_def split: if_splits option.splits)
  obtain plan problem where plan: "delete_plan (nm_servers ns1) (cx_username cx) (f ! 1)
      (fm_is_directory (nm_files ns1 ! i)) (nm_files ns1) [] = (plan, problem)"
    by fastforce
  have ok: "problem = None" "snd (delete_calls answer plan) = None"
    using assms i plan same by (auto simp: ns_delete_def Let_def split: if_splits option.splits)
  have "nm_files ns' = nm_files (remove_plan plan (acquire_all (plan_refs plan) ns1))"
    using assms i plan same ok by (auto simp: ns_delete_def Let_def split: if_splits)
  then show ?thesis
    using that [OF ne i] plan ok by blast
qed

text \<open>C6. A DELETE leaves the table as it is, or it removes exactly the entry at the path and, when that is a
  folder, all entries below it.  Then the user owns every removed entry, and for every removed
  file its storage server has confirmed the deletion.\<close>

theorem delete_exact:
  assumes "ns_inv ns" "ns_delete answer ns cx f = (ns', outs)"
  shows "nm_files ns' = nm_files ns \<or>
    (\<exists>t\<in>set (nm_files ns). fm_name t = f ! 1 \<and> in_subtree (f ! 1) (fm_is_directory t) t \<and>
      set (nm_files ns') = {m\<in>set (nm_files ns). \<not> in_subtree (f ! 1) (fm_is_directory t) m} \<and>
      (\<forall>m\<in>set (nm_files ns). in_subtree (f ! 1) (fm_is_directory t) m \<longrightarrow> owned_by (cx_username cx) m \<and>
         (fm_is_directory m \<or> deletion_confirmed answer (nm_servers ns) m)))"
proof -
  let ?p = "f ! 1"
  obtain ns1 r where look: "file_lookup_locked ns ?p = (ns1, r)"
    by fastforce
  note same = lookup_same [OF look] and inv1 = lookup_inv(1) [OF look assms(1)]
  show ?thesis
  proof (cases "nm_files ns' = nm_files ns")
    case False
    obtain k plan where ne: "?p \<noteq> []" and k: "r = Some k"
      and plan: "delete_plan (nm_servers ns1) (cx_username cx) ?p (fm_is_directory (nm_files ns1 ! k)) (nm_files ns1) [] = (plan, None)"
      and ok: "snd (delete_calls answer plan) = None"
      and ns': "nm_files ns' = nm_files (remove_plan plan (acquire_all (plan_refs plan) ns1))"
      using delete_changes [OF assms(2) False look] .
    let ?t = "nm_files ns1 ! k"
    have names: "\<forall>m\<in>set (nm_files ns1). name_ok (fm_name m)"
      using names_name_ok [OF inv1] by blast
    have covers: "plan_covers (nm_servers ns) (cx_username cx) ?p (fm_is_directory ?t) (nm_files ns) plan"
      using delete_plan_spec [OF plan names] same by simp
    have "set (nm_files ns') = {m\<in>set (nm_files ns). fm_name m \<notin> dp_path ` set plan}"
      using remove_plan_inv [OF refs_inv(1) [OF inv1], of plan "plan_refs plan"] same(1) unfolding ns' by simp
    also have "dp_path ` set plan = fm_name ` {m\<in>set (nm_files ns). delete_match ?p (fm_is_directory ?t) m}"
      using covers unfolding plan_covers_def by (metis list.set_map set_filter)
    also have "{m\<in>set (nm_files ns). fm_name m \<notin> fm_name ` {m\<in>set (nm_files ns). delete_match ?p (fm_is_directory ?t) m}}
        = {m\<in>set (nm_files ns). \<not> in_subtree ?p (fm_is_directory ?t) m}"
      by (rule subtree_names [OF ne])
    finally have removed: "set (nm_files ns') = {m\<in>set (nm_files ns). \<not> in_subtree ?p (fm_is_directory ?t) m}" .
    have "owned_by (cx_username cx) m \<and> (fm_is_directory m \<or> deletion_confirmed answer (nm_servers ns) m)"
      if "m \<in> set (nm_files ns)" "in_subtree ?p (fm_is_directory ?t) m" for m
    proof -
      have "owned_by (cx_username cx) m \<and> (fm_is_directory m \<or> (\<exists>e\<in>set plan. dp_path e = fm_name m \<and> \<not> dp_is_directory e \<and>
          (\<exists>s\<in>set (nm_servers ns). reachable_server m s \<and> dp_ss e = Some (si_addr s))))"
        using covers that unfolding plan_covers_def delete_match_subtree [OF ne] by blast
      then show ?thesis
        using delete_calls_confirm [OF ok] by (fastforce simp: deletion_confirmed_def)
    qed
    then show ?thesis
      using lookup_entry [OF assms(1) look [unfolded k]] removed
      by (intro disjI2 bexI [of _ ?t]) (simp_all add: in_subtree_def)
  qed simp
qed

text \<open>The state of \<open>demo_ns_reachable\<close> and the entry of its folder.\<close>

lemma demo_tables: obtains ns where "ns_inv ns" "nm_files ns = [demo_docs]"
proof -
  obtain s where "ns_reachable s" "nm_files (sy_ns s) = [demo_docs]"
    using demo_ns_reachable by metis
  then show ?thesis
    using that [of "sy_ns s"] reachable_ok [of s] by (simp add: system_ok_def)
qed

lemma demo_owned: "owned_by ''ann'' demo_docs" "fm_is_directory demo_docs" "fm_size demo_docs = 0"
  by (simp_all add: demo_docs_def new_entry_def zero_metadata_def demo_names)

theorem delete_exact_witness:
  "\<exists>ns ns' outs. nm_files ns = [demo_docs] \<and>
     ns_delete (answers demo_world) ns demo_ann [''DELETE'', ''docs''] = (ns', outs) \<and> nm_files ns' = []"
proof -
  obtain ns where ns: "ns_inv ns" "nm_files ns = [demo_docs]"
    using demo_tables .
  obtain ns1 r where look: "file_lookup_locked ns ''docs'' = (ns1, r)"
    by fastforce
  have r: "r = Some 0" "nm_files ns1 = [demo_docs]" "ns_inv ns1"
    using lookup_inv [OF look ns(1)] lookup_same(1) [OF look] ns(2) by simp_all
  let ?e = "\<lparr>dp_path = ''docs'', dp_is_directory = True, dp_ss = None, dp_size = 0\<rparr>"
  have plan: "delete_plan (nm_servers ns1) ''ann'' ''docs'' True [demo_docs] [] = ([?e], None)"
    using demo_owned by (simp add: delete_match_def demo_names)
  obtain ns' outs where del: "ns_delete (answers demo_world) ns demo_ann [''DELETE'', ''docs''] = (ns', outs)"
    by fastforce
  have "set (nm_files (remove_plan [?e] (acquire_all (plan_refs [?e]) ns1))) = {}"
    using remove_plan_inv [OF refs_inv(1) [OF r(3)], of "[?e]" "plan_refs [?e]"] r(2) by auto
  then have "nm_files ns' \<noteq> nm_files ns"
    using del look r plan demo_owned demo_names ns(2)
    by (auto simp: ns_delete_def demo_ann_def new_connection_def Let_def)
  then have "set (nm_files ns') = {}"
    using delete_exact [OF ns(1) del] ns(2) by (auto simp: in_subtree_def)
  then show ?thesis
    using ns(2) del by (intro exI [of _ ns] exI [of _ ns'] exI [of _ outs]) simp
qed

section \<open>MOVE\<close>

definition renames :: "move_plan_entry list \<Rightarrow> cstring \<Rightarrow> cstring option" where
  "renames plan = map_of (map (\<lambda>e. (mp_old_path e, mp_new_path e)) plan)"

lemma rename_all_map:
  assumes "ns_inv ns" "\<forall>e\<in>set plan. name_ok (mp_new_path e)" "distinct (map mp_new_path plan)"
    "\<forall>e\<in>set plan. mp_new_path e \<notin> set (file_names ns) \<and> mp_old_path e \<in> set (file_names ns)" "distinct (map mp_old_path plan)"
  shows "nm_files (foldl (rename_entry now user) ns plan) =
    map (\<lambda>m. case renames plan (fm_name m) of None \<Rightarrow> m | Some g \<Rightarrow> renamed now user g m) (nm_files ns)"
  using assms
proof (induction plan arbitrary: ns)
  case Nil
  then show ?case
    by (simp add: renames_def)
next
  case (Cons e plan)
  let ?ns = "rename_entry now user ns e"
  have step: "ns_inv ?ns" "nm_files ?ns = map (\<lambda>m. if fm_name m = mp_old_path e then renamed now user (mp_new_path e) m else m) (nm_files ns)"
    using rename_entry_inv [OF Cons.prems(1), of e now user] Cons.prems by simp_all
  have names: "set (file_names ?ns) \<subseteq> insert (mp_new_path e) (set (file_names ns))"
    "x \<in> set (file_names ns) \<Longrightarrow> x \<noteq> mp_old_path e \<Longrightarrow> x \<in> set (file_names ?ns)" for x
    using step(2) by (force simp: file_names_def renamed_def)+
  have rest: "\<forall>e'\<in>set plan. mp_new_path e' \<notin> set (file_names ?ns) \<and> mp_old_path e' \<in> set (file_names ?ns)"
  proof
    fix e'
    assume e': "e' \<in> set plan"
    then have "mp_new_path e' \<noteq> mp_new_path e" "mp_old_path e' \<noteq> mp_old_path e"
      using Cons.prems(3,5) by (simp_all, metis image_eqI, metis image_eqI)
    then show "mp_new_path e' \<notin> set (file_names ?ns) \<and> mp_old_path e' \<in> set (file_names ?ns)"
      using names Cons.prems(4) e' by auto
  qed
  have "nm_files (foldl (rename_entry now user) ?ns plan) =
      map (\<lambda>m. case renames plan (fm_name m) of None \<Rightarrow> m | Some g \<Rightarrow> renamed now user g m) (nm_files ?ns)"
    using Cons.IH [OF step(1) _ _ rest] Cons.prems by simp
  moreover have "renames plan (mp_new_path e) = None" "renames plan (mp_old_path e) = None"
    using Cons.prems(4,5) by (auto simp: renames_def map_of_eq_None_iff image_iff)
  ultimately show ?case
    unfolding step(2) by (auto simp: renames_def renamed_def split: option.split)
qed

text \<open>The table after the renaming of a subtree to a new root.\<close>

definition moved_files :: "int \<Rightarrow> cstring \<Rightarrow> cstring \<Rightarrow> bool \<Rightarrow> cstring \<Rightarrow> file_metadata list \<Rightarrow> file_metadata list" where
  "moved_files now user src is_dir root =
     map (\<lambda>m. if in_subtree src is_dir m then renamed now user (root @ drop (length src) (fm_name m)) m else m)"

lemma renames_subtree:
  assumes "distinct (map fm_name ms)" "map mp_old_path plan = map fm_name (filter P ms)" 
    "map mp_new_path plan = map (\<lambda>m. g (fm_name m)) (filter P ms)" "m \<in> set ms"
  shows "renames plan (fm_name m) = (if P m then Some (g (fm_name m)) else None)"
proof -
  have "map (\<lambda>e. (mp_old_path e, mp_new_path e)) plan = zip (map mp_old_path plan) (map mp_new_path plan)"
    by (simp add: zip_map_map zip_same_conv_map)
  also have "\<dots> = map (\<lambda>x. (fm_name x, g (fm_name x))) (filter P ms)"
    unfolding assms(2,3) by (simp add: zip_map_map zip_same_conv_map)
  finally have r: "renames plan = map_of (map (\<lambda>x. (fm_name x, g (fm_name x))) (filter P ms))"
    by (simp add: renames_def)
  have only: "x = m" if "x \<in> set ms" "fm_name x = fm_name m" for x
    using that assms(1,4) inj_onD [of fm_name "set ms" x m] by (simp add: distinct_map)
  show ?thesis
  proof (cases "P m")
    case True
    have "distinct (map fm_name (filter P ms))"
      by (rule distinct_map_filter [OF assms(1)])
    then have "map_of (map (\<lambda>x. (fm_name x, g (fm_name x))) (filter P ms)) (fm_name m) = Some (g (fm_name m))"
      using True assms(4) by (intro map_of_is_SomeI) (auto simp: comp_def)
    then show ?thesis
      using True r by simp
  next
    case False
    then show ?thesis
      using r only by (auto simp: map_of_eq_None_iff)
  qed
qed

lemma move_execute_exact:
  assumes "ns_inv ns" "root \<noteq> src" "length root < MAX_FILENAME_LENGTH" "src \<noteq> []"
    "move_execute answer now ns cx src d root = (ns', outs)" "nm_files ns' \<noteq> nm_files ns"
  shows "nm_files ns' = moved_files now (cx_username cx) src d root (nm_files ns) \<and>
    (\<forall>m\<in>set (nm_files ns). in_subtree src d m \<longrightarrow> owned_by (cx_username cx) m \<and>
       root @ drop (length src) (fm_name m) \<notin> set (file_names ns))"
proof -
  let ?user = "cx_username cx" and ?P = "delete_match src d"
  obtain ns3 plan problem where plan: "move_plan ns ?user src d root (nm_files ns) [] = (ns3, plan, problem)"
    by (metis prod_cases3)
  note P = inv_move_plan [OF assms(1) plan assms(2-4)]
  have names: "\<forall>m\<in>set (nm_files ns). name_ok (fm_name m)" "distinct (map fm_name (nm_files ns))"
    using names_name_ok [OF assms(1)] names_distinct [OF assms(1)] by simp_all
  have none: "problem = None"
    using assms(5,6) plan P(2) by (cases problem) (auto simp: move_execute_def Let_def split: prod.splits)
  let ?ns4 = "acquire_all (move_refs plan) ns3"
  have ns': "nm_files ns' = nm_files (foldl (rename_entry now ?user) ?ns4 plan)"
    using assms(5,6) plan P(2) none by (auto simp: move_execute_def Let_def split: if_splits option.splits)
  have spec: "map mp_old_path plan = map fm_name (filter ?P (nm_files ns))"
    "map mp_new_path plan = map (\<lambda>m. root @ drop (length src) (fm_name m)) (filter ?P (nm_files ns))"
    "\<forall>m\<in>set (filter ?P (nm_files ns)). owned_by ?user m" "\<forall>e\<in>set plan. mp_new_path e \<notin> set (file_names ns)"
    using move_plan_spec [OF plan assms(1-4) names(1)] none by (auto simp: Let_def)
  have old: "mp_old_path e \<in> set (file_names ns)" if "e \<in> set plan" for e
  proof -
    have "mp_old_path e \<in> set (map mp_old_path plan)"
      using that by simp
    then show ?thesis
      unfolding spec(1) by (auto simp: file_names_def)
  qed
  have dist: "distinct (map mp_old_path plan)"
    unfolding spec(1) by (rule distinct_map_filter [OF names(2)])
  have "nm_files ns' = map (\<lambda>m. case renames plan (fm_name m) of None \<Rightarrow> m | Some g \<Rightarrow> renamed now ?user g m) (nm_files ns)"
    using rename_all_map [OF refs_inv(1) [OF P(1)] P(3,4) _ dist, of "move_refs plan" now ?user] spec(4) old P(2) ns'
    by (simp add: file_names_def)
  also have "\<dots> = moved_files now ?user src d root (nm_files ns)"
    using renames_subtree [OF names(2) spec(1,2)] unfolding moved_files_def
    by (intro map_cong refl) (simp add: delete_match_subtree [OF assms(4)])
  finally have files: "nm_files ns' = moved_files now ?user src d root (nm_files ns)" .
  have "root @ drop (length src) (fm_name m) \<notin> set (file_names ns)" if "m \<in> set (nm_files ns)" "in_subtree src d m" for m
  proof -
    have "root @ drop (length src) (fm_name m) \<in> set (map mp_new_path plan)"
      unfolding spec(2) using that by (auto simp: delete_match_subtree [OF assms(4)])
    then show ?thesis
      using spec(4) by auto
  qed
  then show ?thesis
    using files spec(3) by (simp add: delete_match_subtree [OF assms(4)])
qed

text \<open>What a MOVE that changes the table has passed before it plans.\<close>

lemma move_checks:
  assumes "ns_inv ns" "ns_move answer now ns cx f = (ns', outs)" "nm_files ns' \<noteq> nm_files ns"
  obtains t ns2 dest parent base root where "t \<in> set (nm_files ns)" "fm_name t = f ! 1" "ns_validate_logical_path (f ! 1)"
    "ns_normalize_destination MAX_FILENAME_LENGTH (f ! 2) = Some dest"
    "ns_split_parent_child MAX_FILENAME_LENGTH (f ! 1) = Some (parent, base)" "move_target dest base = Some root" "root \<noteq> f ! 1"
    "ns_inv ns2" "nm_files ns2 = nm_files ns"
    "move_execute answer now ns2 cx (f ! 1) (fm_is_directory t) root = (ns', outs)"
proof -
  obtain src where src: "f ! 1 = src"
    by blast
  obtain ns1 r where look: "file_lookup_locked ns src = (ns1, r)"
    by fastforce
  note L = lookup_inv [OF look assms(1)] and same = lookup_same(1) [OF look]
  obtain dest where d: "ns_normalize_destination MAX_FILENAME_LENGTH (f ! 2) = Some dest" and valid: "ns_validate_logical_path src"
    using assms(2,3) src by (auto simp: ns_move_def Let_def split: if_splits option.splits)
  obtain k where k: "r = Some k"
    using assms(2,3) look same src d valid by (cases r) (auto simp: ns_move_def Let_def split: if_splits)
  obtain ns2 dr where look2: "(if dest \<noteq> [] then file_lookup_locked ns1 dest else (ns1, None)) = (ns2, dr)"
    by fastforce
  have ns2: "ns_inv ns2" "nm_files ns2 = nm_files ns"
    using look2 L(1) same lookup_inv(1) [of ns1 dest ns2 dr] lookup_same(1) [of ns1 dest ns2 dr] by (auto split: if_splits)
  obtain parent base where split: "ns_split_parent_child MAX_FILENAME_LENGTH src = Some (parent, base)"
    using assms(2,3) look look2 k ns2(2) same src d valid
    by (cases "ns_split_parent_child MAX_FILENAME_LENGTH src") (auto simp: ns_move_def Let_def split: if_splits)
  obtain root where root: "move_target dest base = Some root"
    using assms(2,3) look look2 k ns2(2) same src d valid split
    by (cases "move_target dest base") (auto simp: ns_move_def Let_def split: if_splits)
  have run: "root \<noteq> src \<and> move_execute answer now ns2 cx src (fm_is_directory (nm_files ns1 ! k)) root = (ns', outs)"
    using assms(2,3) look look2 k ns2(2) same src d valid split root by (auto simp: ns_move_def Let_def split: if_splits)
  show ?thesis
    using that [of "nm_files ns1 ! k" dest parent base root ns2] lookup_entry [OF assms(1) look [unfolded k]] src d valid split root run ns2
    by simp
qed

lemma move_target_root: "length base < MAX_FILENAME_LENGTH \<Longrightarrow> move_target dest base = Some root \<Longrightarrow>
    root = (if dest = [] then base else dest @ CHR ''/'' # base)"
  by (auto simp: move_target_def safe_strcpy_def bounded_copy_id Let_def split: if_splits)

text \<open>C7. A MOVE leaves the table as it is, or it gives the entry at the path and, when that is a folder, all
  entries below it their names under the new root: the destination folder followed by the
  last component of the path.  The user owns all of them and no new name was in use.\<close>

theorem move_exact:
  assumes "ns_inv ns" "ns_move answer now ns cx f = (ns', outs)"
  shows "nm_files ns' = nm_files ns \<or>
    (\<exists>t\<in>set (nm_files ns). \<exists>dest parent base root. fm_name t = f ! 1 \<and>
      ns_normalize_destination MAX_FILENAME_LENGTH (f ! 2) = Some dest \<and>
      f ! 1 = (if parent = [] then base else parent @ CHR ''/'' # base) \<and>
      root = (if dest = [] then base else dest @ CHR ''/'' # base) \<and>
      nm_files ns' = moved_files now (cx_username cx) (f ! 1) (fm_is_directory t) root (nm_files ns) \<and>
      (\<forall>m\<in>set (nm_files ns). in_subtree (f ! 1) (fm_is_directory t) m \<longrightarrow> owned_by (cx_username cx) m \<and>
         root @ drop (length (f ! 1)) (fm_name m) \<notin> set (file_names ns)))"
proof (cases "nm_files ns' = nm_files ns")
  case False
  obtain t ns2 dest parent base root where c: "t \<in> set (nm_files ns)" "fm_name t = f ! 1" "ns_validate_logical_path (f ! 1)"
    "ns_normalize_destination MAX_FILENAME_LENGTH (f ! 2) = Some dest"
    "ns_split_parent_child MAX_FILENAME_LENGTH (f ! 1) = Some (parent, base)" "move_target dest base = Some root" "root \<noteq> f ! 1"
    "ns_inv ns2" "nm_files ns2 = nm_files ns"
    "move_execute answer now ns2 cx (f ! 1) (fm_is_directory t) root = (ns', outs)"
    using move_checks [OF assms False] .
  note base = split_child_length [OF c(3,5)]
  have "f ! 1 \<noteq> []"
    using c(3) valid_path_name_ok [of "f ! 1"] by (auto simp: name_ok_def)
  then have "nm_files ns' = moved_files now (cx_username cx) (f ! 1) (fm_is_directory t) root (nm_files ns) \<and>
      (\<forall>m\<in>set (nm_files ns). in_subtree (f ! 1) (fm_is_directory t) m \<longrightarrow> owned_by (cx_username cx) m \<and>
         root @ drop (length (f ! 1)) (fm_name m) \<notin> set (file_names ns))"
    using move_execute_exact [OF c(8,7) move_target_length [OF base c(6)] _ c(10)] False c(9) by (simp add: file_names_def)
  moreover have "f ! 1 = (if parent = [] then base else parent @ CHR ''/'' # base)"
    using split_join [OF c(5,3)] by blast
  ultimately show ?thesis
    using c(1,2,4) move_target_root [OF base c(6)] by blast
qed simp

definition demo_arch :: file_metadata where
  "demo_arch = (new_entry 5 ''arch'' ''ann'')\<lparr>fm_is_directory := True\<rparr>"

lemma demo_paths:
  "fm_name demo_arch = ''arch''" "fm_is_directory demo_arch" "name_ok ''arch''" "name_ok ''arch/docs''"
  "ns_normalize_destination MAX_FILENAME_LENGTH ''arch'' = Some ''arch''" "ns_validate_logical_path ''arch/docs''"
  "move_target ''arch'' ''docs'' = Some ''arch/docs''" "\<not> ns_is_descendant_path ''arch'' ''docs''"
  "bounded_copy MAX_FILENAME_LENGTH ''arch/docs'' = ''arch/docs''" "moved_name ''docs'' ''arch/docs'' ''docs'' = Some ''arch/docs''"
  by code_simp+

lemma demo_arch_rights: "rights_ok demo_arch"
  by (simp add: demo_arch_def)

lemma demo_two_folders: obtains ns where "ns_inv ns" "nm_files ns = [demo_docs, demo_arch]"
proof -
  obtain ns where ns: "ns_inv ns" "nm_files ns = [demo_docs]"
    using demo_tables .
  show ?thesis
    using inv_enter_file [OF ns(1), of demo_arch "''arch''"] ns(2) that demo_paths(1,3) demo_arch_rights
    by (simp add: file_names_def NS_MAX_FILES_def)
qed

lemma demo_move:
  assumes "ns_inv ns" "nm_files ns = [demo_docs, demo_arch]" "ns_move answer 6 ns demo_ann [''MOVE'', ''docs'', ''arch''] = (ns', outs)"
  shows "nm_files ns' \<noteq> nm_files ns"
proof -
  obtain ns1 r1 where l1: "file_lookup_locked ns ''docs'' = (ns1, r1)"
    by fastforce
  obtain ns2 r2 where l2: "file_lookup_locked ns1 ''arch'' = (ns2, r2)"
    by fastforce
  obtain ns3 r3 where l3: "file_lookup_locked ns2 ''arch/docs'' = (ns3, r3)"
    by fastforce
  note i1 = lookup_inv [OF l1 assms(1)] lookup_same(1) [OF l1]
  note i2 = lookup_inv [OF l2 i1(1)] lookup_same(1) [OF l2]
  note i3 = lookup_inv [OF l3 i2(1)] lookup_same(1) [OF l3]
  have files: "nm_files ns1 = [demo_docs, demo_arch]" "nm_files ns2 = [demo_docs, demo_arch]" "nm_files ns3 = [demo_docs, demo_arch]"
    using i1(4) i2(4) i3(4) assms(2) by simp_all
  have r: "r1 = Some 0" "r2 = Some 1" "r3 = None"
    using i1(2) i2(2) i3(2) files assms(2) by (simp_all add: demo_paths)
  let ?e = "\<lparr>mp_old_path = ''docs'', mp_new_path = ''arch/docs'', mp_is_directory = True, mp_ss = None, mp_old_flat = [], mp_new_flat = []\<rparr>"
  have plan: "move_plan ns2 ''ann'' ''docs'' True ''arch/docs'' [demo_docs, demo_arch] [] = (ns3, [?e], None)"
    using l3 r(3) demo_owned by (simp add: plan_move_entry_def delete_match_def demo_paths demo_names strncmp_eq_def)
  have "nm_files (rename_entry 6 ''ann'' (acquire_all (move_refs [?e]) ns3) ?e) = [renamed 6 ''ann'' ''arch/docs'' demo_docs, demo_arch]"
    using rename_entry_inv [OF refs_inv(1) [OF i3(1)], of ?e "move_refs [?e]" 6 "''ann''"] files(3) by (simp add: demo_paths file_names_def)
  moreover have "ns' = ns_save_metadata (release_all (move_refs [?e]) (rename_entry 6 ''ann'' (acquire_all (move_refs [?e]) ns3) ?e))"
    using assms(3) l1 l2 r files plan demo_owned demo_names
    by (simp add: ns_move_def Let_def demo_ann_def new_connection_def demo_paths move_execute_def del: move_plan.simps)
  ultimately have "nm_files ns' = [renamed 6 ''ann'' ''arch/docs'' demo_docs, demo_arch]"
    by simp
  moreover have "fm_name (renamed 6 ''ann'' ''arch/docs'' demo_docs) \<noteq> fm_name demo_docs"
    by (simp add: renamed_def)
  ultimately show ?thesis
    using assms(2) by (metis list.inject)
qed

lemma changed_witness:
  assumes "same \<or> (\<exists>t\<in>S. \<exists>dest parent base root. A t \<and> B dest \<and> C parent base \<and> D dest base root \<and> E t root \<and> F t root)" "\<not> same"
  shows "\<exists>t dest parent base root. B dest \<and> C parent base \<and> D dest base root \<and> E t root"
  using assms by blast

theorem move_exact_witness:
  "\<exists>ns ns' outs. nm_files ns = [demo_docs, demo_arch] \<and> ns_move (answers demo_world) 6 ns demo_ann [''MOVE'', ''docs'', ''arch''] = (ns', outs) \<and>
     map fm_name (nm_files ns') = [''arch/docs'', ''arch'']"
proof -
  obtain ns where ns: "ns_inv ns" "nm_files ns = [demo_docs, demo_arch]"
    using demo_two_folders .
  obtain ns' outs where mv: "ns_move (answers demo_world) 6 ns demo_ann [''MOVE'', ''docs'', ''arch''] = (ns', outs)"
    by fastforce
  let ?f = "[''MOVE'', ''docs'', ''arch'']"
  have "\<exists>(t :: file_metadata) dest parent base root. ns_normalize_destination MAX_FILENAME_LENGTH (?f ! 2) = Some dest \<and>
    ?f ! 1 = (if parent = [] then base else parent @ CHR ''/'' # base) \<and> root = (if dest = [] then base else dest @ CHR ''/'' # base) \<and>
    nm_files ns' = moved_files 6 (cx_username demo_ann) (?f ! 1) (fm_is_directory t) root (nm_files ns)"
    by (rule changed_witness [OF move_exact [OF ns(1) mv] demo_move [OF ns mv]])
  then obtain t :: file_metadata and dest parent base root where e: "ns_normalize_destination MAX_FILENAME_LENGTH (?f ! 2) = Some dest"
    "?f ! 1 = (if parent = [] then base else parent @ CHR ''/'' # base)" "root = (if dest = [] then base else dest @ CHR ''/'' # base)"
    "nm_files ns' = moved_files 6 (cx_username demo_ann) (?f ! 1) (fm_is_directory t) root (nm_files ns)"
    by blast
  have "base = ''docs''"
    using e(2) by (auto simp: append_eq_Cons_conv Cons_eq_append_conv split: if_splits)
  moreover have "dest = ''arch''"
    using e(1) demo_paths(5) by simp
  ultimately have names: "map fm_name (nm_files ns') = [''arch/docs'', ''arch'']"
    using e(3,4) ns(2) by (simp add: moved_files_def in_subtree_def renamed_def demo_paths)
  show ?thesis
    by (intro exI conjI) (rule ns(2), rule mv, rule names)
qed

end
