(* ===== verification/NS_Channel.thy ===== *)
theory NS_Channel
  imports NS_Sync
begin

text \<open>
  The channel between the name server and one storage server: the threads that call
  \<open>storage_server_send_and_wait\<close> (\<open>name_server.c\<close>) share one socket and hand-over cell,
  guarded by \<open>comm_lock\<close> and \<open>response_cond\<close>.

  A thread runs without interruption while it holds the lock, so a schedule is a sequence of
  turns: the part of a call between two waits, the relay of a message the storage server sent, or
  the loss of the connection.  A waiting thread that gets a turn while its condition does not hold
  waits again.
\<close>

section \<open>The calls\<close>

text \<open>A call before its first test, in the queue for the channel, waiting for the answer, and back.\<close>

datatype caller =
    Arrived "cstring list"
  | Queued "cstring list"
  | Waiting "cstring list"
  | Back "cstring list" ss_result

definition arrive :: "cstring list \<Rightarrow> ss_info \<Rightarrow> caller" where
  "arrive flds s =
     (if flds = [] then Back flds (Failed (-1))
      else if si_sockfd s < 0 \<or> \<not> si_alive s then Back flds (Failed (-2))
      else Queued flds)"

text \<open>\<open>sent\<close> says whether \<open>send\<close> succeeded; on a closed socket it does not.\<close>

definition send_command :: "bool \<Rightarrow> cstring list \<Rightarrow> ss_info \<Rightarrow> ss_info \<times> caller" where
  "send_command sent flds s =
     (if si_awaiting s then (s, Queued flds)
      else
        let s1 = s\<lparr>si_raw := None, si_ready := False, si_status := 0\<rparr> in
        case protocol_build_message (map Some flds) of
          None \<Rightarrow> (s1, Back flds (Failed (-3)))
        | Some msg \<Rightarrow>
            if si_sockfd s1 < 0 \<or> \<not> sent then (s1, Back flds (Failed (-4)))
            else (s1\<lparr>si_awaiting := True, si_ready := False, si_status := 0\<rparr>, Waiting flds))"

definition take_answer :: "cstring list \<Rightarrow> ss_info \<Rightarrow> ss_info \<times> caller" where
  "take_answer flds s =
     (if \<not> si_ready s then (s, Waiting flds)
      else
        let s1 = s\<lparr>si_raw := None, si_awaiting := False, si_ready := False\<rparr> in
        if si_status s \<noteq> 0 then (s1, Back flds (Failed (-5)))
        else case si_raw s of
            None \<Rightarrow> (s1, Back flds (Failed (-6)))
          | Some raw \<Rightarrow> (s1, Back flds (Answered raw)))"

fun turn :: "bool \<Rightarrow> caller \<Rightarrow> ss_info \<Rightarrow> ss_info \<times> caller" where
  "turn sent (Arrived flds) s = (s, arrive flds s)"
| "turn sent (Queued flds) s = send_command sent flds s"
| "turn sent (Waiting flds) s = take_answer flds s"
| "turn sent (Back flds r) s = (s, Back flds r)"

section \<open>Schedules\<close>

record channel =
  ch_server :: ss_info
  ch_callers :: "caller list"

datatype channel_event = Turn nat bool | Message cstring | Lost

text \<open>A message of the storage server goes to a waiting thread when there is one.\<close>

definition deliver :: "cstring \<Rightarrow> ss_info \<Rightarrow> ss_info" where
  "deliver raw s = (if si_awaiting s \<and> \<not> si_ready s then relay raw s else s)"

fun channel_step :: "channel \<Rightarrow> channel_event \<Rightarrow> channel" where
  "channel_step c (Turn i sent) =
     (if i < length (ch_callers c) then
        let (s, k) = turn sent (ch_callers c ! i) (ch_server c) in \<lparr>ch_server = s, ch_callers = (ch_callers c)[i := k]\<rparr>
      else c)"
| "channel_step c (Message raw) = c\<lparr>ch_server := deliver raw (ch_server c)\<rparr>"
| "channel_step c Lost = c\<lparr>ch_server := storage_server_signal_failure (ch_server c)\<rparr>"

primrec channel_at :: "channel \<Rightarrow> (nat \<Rightarrow> channel_event) \<Rightarrow> nat \<Rightarrow> channel" where
  "channel_at c es 0 = c"
| "channel_at c es (Suc n) = channel_step (channel_at c es n) (es n)"

definition finished :: "caller \<Rightarrow> bool" where
  "finished k \<longleftrightarrow> (case k of Back flds r \<Rightarrow> True | _ \<Rightarrow> False)"

definition is_waiting :: "caller \<Rightarrow> bool" where
  "is_waiting k \<longleftrightarrow> (case k of Waiting flds \<Rightarrow> True | _ \<Rightarrow> False)"

lemma finished_simps [simp]:
  "\<not> finished (Arrived f)" "\<not> finished (Queued f)" "\<not> finished (Waiting f)" "finished (Back f r)"
  "\<not> is_waiting (Arrived f)" "\<not> is_waiting (Queued f)" "is_waiting (Waiting f)" "\<not> is_waiting (Back f r)"
  by (simp_all add: finished_def is_waiting_def)

section \<open>Progress\<close>

fun weight :: "caller \<Rightarrow> nat" where
  "weight (Arrived f) = 3"
| "weight (Queued f) = 2"
| "weight (Waiting f) = 1"
| "weight (Back f r) = 0"

definition work :: "channel \<Rightarrow> nat" where
  "work c = sum_list (map weight (ch_callers c))"

lemma turn_progress: "turn sent k s = (s', k') \<Longrightarrow> (k' = k \<and> s' = s) \<or> weight k' < weight k"
  by (cases k) (auto simp: arrive_def send_command_def take_answer_def Let_def split: if_splits option.splits)

lemma work_update:
  assumes "i < length cs" "weight k < weight (cs ! i)"
  shows "work \<lparr>ch_server = s, ch_callers = cs[i := k]\<rparr> < work \<lparr>ch_server = t, ch_callers = cs\<rparr>"
proof -
  have "weight (cs ! i) \<le> sum_list (map weight cs)"
    using assms(1) elem_le_sum_list [of i "map weight cs"] by simp
  then show ?thesis
    using assms sum_list_update [of i "map weight cs" "weight k"] by (simp add: work_def map_update)
qed

text \<open>A step leaves the calls as they are, and a turn then changes nothing at all, or there is less to do.\<close>

lemma step_progress:
  "work (channel_step c e) < work c \<or>
   (ch_callers (channel_step c e) = ch_callers c \<and> (\<forall>i sent. e = Turn i sent \<longrightarrow> channel_step c e = c))"
proof (cases e)
  case (Turn i sent)
  show ?thesis
  proof (cases "i < length (ch_callers c)")
    case True
    obtain s k where t: "turn sent (ch_callers c ! i) (ch_server c) = (s, k)"
      by fastforce
    then show ?thesis
      using turn_progress [OF t] work_update [OF True, of k s "ch_server c"] True Turn by (cases c) auto
  qed (simp add: Turn)
qed simp_all

section \<open>Prompt schedules\<close>

text \<open>Between the arrival of an answer and the turn of the call it is for no queued call gets the lock.\<close>

definition prompt :: "channel \<Rightarrow> channel_event \<Rightarrow> bool" where
  "prompt c e \<longleftrightarrow> (\<forall>i sent flds. e = Turn i sent \<and> i < length (ch_callers c) \<and> si_ready (ch_server c) \<longrightarrow>
     ch_callers c ! i \<noteq> Queued flds)"

definition channel_ok :: "channel \<Rightarrow> bool" where
  "channel_ok c \<longleftrightarrow> \<not> (si_awaiting (ch_server c) \<and> si_ready (ch_server c)) \<and>
     length (filter is_waiting (ch_callers c)) = of_bool (si_awaiting (ch_server c)) + of_bool (si_ready (ch_server c))"

lemma length_filter_update:
  "i < length xs \<Longrightarrow> length (filter P (xs[i := x])) + of_bool (P (xs ! i)) = length (filter P xs) + of_bool (P x)"
proof (induction xs arbitrary: i)
  case (Cons y ys)
  then show ?case
    by (cases i) auto
qed simp

lemma turn_flags:
  assumes "turn sent k s = (s', k')" "\<not> (si_awaiting s \<and> si_ready s)" "si_ready s \<Longrightarrow> \<forall>flds. k \<noteq> Queued flds"
    "is_waiting k \<Longrightarrow> si_awaiting s \<or> si_ready s"
  shows "\<not> (si_awaiting s' \<and> si_ready s') \<and>
    of_bool (is_waiting k') + of_bool (si_awaiting s) + of_bool (si_ready s) =
    (of_bool (is_waiting k) + of_bool (si_awaiting s') + of_bool (si_ready s') :: nat)"
  using assms
  by (cases k) (auto simp: arrive_def send_command_def take_answer_def Let_def split: if_splits option.splits)

lemma channel_ok_step:
  assumes "channel_ok c" "prompt c e"
  shows "channel_ok (channel_step c e)"
proof (cases e)
  case (Turn i sent)
  show ?thesis
  proof (cases "i < length (ch_callers c)")
    case True
    obtain s k where t: "turn sent (ch_callers c ! i) (ch_server c) = (s, k)"
      by fastforce
    have "is_waiting (ch_callers c ! i) \<Longrightarrow> filter is_waiting (ch_callers c) \<noteq> []"
      using True nth_mem by (fastforce simp: filter_empty_conv)
    then have "is_waiting (ch_callers c ! i) \<Longrightarrow> si_awaiting (ch_server c) \<or> si_ready (ch_server c)"
      using assms(1) by (auto simp: channel_ok_def of_bool_def split: if_splits)
    then show ?thesis
      using turn_flags [OF t] length_filter_update [OF True, of is_waiting k] assms Turn True t
      by (auto simp: channel_ok_def prompt_def)
  qed (use assms Turn in simp)
next
  case (Message raw)
  then show ?thesis
    using assms(1) by (auto simp: channel_ok_def deliver_def relay_def)
next
  case Lost
  then show ?thesis
    using assms(1) by (auto simp: channel_ok_def storage_server_signal_failure_def Let_def)
qed

lemma answer_arrives:
  assumes "channel_ok c" "k \<in> set (ch_callers c)" "is_waiting k" "e = Lost \<or> (\<exists>raw. e = Message raw)"
  shows "si_ready (ch_server (channel_step c e))"
proof -
  have "filter is_waiting (ch_callers c) \<noteq> []"
    using assms(2,3) by (auto simp: filter_empty_conv)
  then have "si_awaiting (ch_server c) \<or> si_ready (ch_server c)"
    using assms(1) by (auto simp: channel_ok_def of_bool_def split: if_splits)
  then show ?thesis
    using assms(1,4) by (auto simp: channel_ok_def deliver_def relay_def storage_server_signal_failure_def Let_def)
qed

lemma answer_stays:
  assumes "si_ready (ch_server c)" "ch_callers (channel_step c e) = ch_callers c" "\<not> work (channel_step c e) < work c"
  shows "si_ready (ch_server (channel_step c e))"
  using assms step_progress [of c e]
  by (cases e) (auto simp: deliver_def storage_server_signal_failure_def Let_def)

text \<open>When nothing changes any more every call is back.\<close>

lemma turn_moves:
  "k = Arrived flds \<or> (k = Queued flds \<and> \<not> si_awaiting s) \<or> (k = Waiting flds \<and> si_ready s) \<Longrightarrow> snd (turn sent k s) \<noteq> k"
  by (auto simp: arrive_def send_command_def take_answer_def Let_def split: if_splits option.splits)

lemma settled_callers_finished:
  fixes c es
  defines "st \<equiv> channel_at c es"
  assumes ok: "\<And>m. channel_ok (st m)" and same: "\<And>m. n \<le> m \<Longrightarrow> \<not> work (st (Suc m)) < work (st m)"
    and turns: "\<And>i m. i < length (ch_callers c) \<Longrightarrow> \<exists>m'\<ge>m. \<exists>sent. es m' = Turn i sent"
    and news: "\<And>m. \<exists>m'\<ge>m. es m' = Lost \<or> (\<exists>raw. es m' = Message raw)"
    and size: "length (ch_callers (st n)) = length (ch_callers c)"
  shows "list_all finished (ch_callers (st n))"
proof -
  have quiet: "ch_callers (st (Suc m)) = ch_callers (st m)" "es m = Turn i sent \<Longrightarrow> st (Suc m) = st m" if "n \<le> m" for m i sent
    using same [OF that] step_progress [of "st m" "es m"] by (auto simp: st_def)
  have fixed: "ch_callers (st m) = ch_callers (st n)" if "n \<le> m" for m
    using that by (induction rule: dec_induct) (simp_all add: quiet(1))
  have stays: "si_ready (ch_server (st m'))" if "si_ready (ch_server (st m))" "n \<le> m" "m \<le> m'" for m m'
    using that(3,1)
  proof (induction rule: dec_induct)
    case (step m')
    then show ?case
      using answer_stays [of "st m'" "es m'"] quiet(1) [of m'] same [of m'] that(2) by (simp add: st_def)
  qed simp
  have stuck: "\<exists>m'\<ge>m. \<exists>sent. snd (turn sent (ch_callers (st n) ! i) (ch_server (st m'))) = ch_callers (st n) ! i"
    if i: "i < length (ch_callers (st n))" and m: "n \<le> m" for i m
  proof -
    obtain m' sent where m': "m \<le> m'" "es m' = Turn i sent"
      using turns i size by metis
    obtain s k where t: "turn sent (ch_callers (st n) ! i) (ch_server (st m')) = (s, k)"
      by fastforce
    have at: "ch_callers (st m') = ch_callers (st n)" "ch_callers (st (Suc m')) = ch_callers (st n)"
      using fixed [of m'] fixed [of "Suc m'"] m m' by simp_all
    then have "(ch_callers (st n))[i := k] = ch_callers (st n)"
      using t m'(2) i by (simp add: st_def)
    then show ?thesis
      using t m'(1) i by (metis snd_conv nth_list_update_eq)
  qed
  have not_waiting: "\<not> is_waiting k" if k: "k \<in> set (ch_callers (st n))" for k
  proof
    assume w: "is_waiting k"
    obtain m where m: "n \<le> m" "es m = Lost \<or> (\<exists>raw. es m = Message raw)"
      using news by blast
    have r: "si_ready (ch_server (st (Suc m)))"
      using answer_arrives [OF ok [of m] _ w m(2)] k fixed [OF m(1)] by (simp add: st_def)
    obtain i where i: "i < length (ch_callers (st n))" "ch_callers (st n) ! i = k"
      using k by (auto simp: in_set_conv_nth)
    obtain m' sent where "Suc m \<le> m'" "snd (turn sent k (ch_server (st m'))) = k"
      using stuck [OF i(1), of "Suc m"] i(2) m(1) by auto
    then show False
      using stays [OF r, of m'] m(1) w turn_moves [of k _ "ch_server (st m')" sent] by (cases k) auto
  qed
  show ?thesis
    unfolding list_all_length
  proof (intro allI impI)
    fix i
    assume i: "i < length (ch_callers (st n))"
    obtain m sent where m: "n \<le> m" "snd (turn sent (ch_callers (st n) ! i) (ch_server (st m))) = ch_callers (st n) ! i"
      using stuck [OF i] by blast
    have "filter is_waiting (ch_callers (st m)) = []"
      using not_waiting fixed [OF m(1)] by (simp add: filter_empty_conv)
    then have "\<not> si_awaiting (ch_server (st m))"
      using ok [of m] by (auto simp: channel_ok_def)
    then show "finished (ch_callers (st n) ! i)"
      using m(2) turn_moves [of "ch_callers (st n) ! i" _ "ch_server (st m)" sent] not_waiting [OF nth_mem [OF i]]
      by (cases "ch_callers (st n) ! i") auto
  qed
qed

lemma callers_length: "length (ch_callers (channel_at c es n)) = length (ch_callers c)"
proof (induction n)
  case (Suc n)
  then show ?case
    by (cases "es n") (simp_all add: case_prod_beta Let_def)
qed simp

lemma finished_stay:
  assumes "list_all finished (ch_callers c)"
  shows "ch_callers (channel_step c e) = ch_callers c"
proof (cases e)
  case (Turn i sent)
  show ?thesis
  proof (cases "i < length (ch_callers c)")
    case True
    then show ?thesis
      using assms Turn list_update_id [of "ch_callers c" i] by (cases "ch_callers c ! i") (auto simp: list_all_length)
  qed (simp add: Turn)
qed simp_all

section \<open>Every call returns\<close>


text \<open>A call that is alone is served promptly whatever the schedule.\<close>

lemma alone_prompt:
  assumes "channel_ok c" "length (ch_callers c) = 1"
  shows "prompt c e"
proof -
  obtain k where "ch_callers c = [k]"
    using assms(2) by (auto simp: length_Suc_conv)
  then show ?thesis
    using assms(1) by (auto simp: prompt_def channel_ok_def)
qed

lemma alone_channel_ok:
  assumes "channel_ok c" "length (ch_callers c) = 1"
  shows "channel_ok (channel_at c es n)"
proof (induction n)
  case (Suc n)
  then show ?case
    using channel_ok_step alone_prompt callers_length [of c es n] assms(2) by simp
qed (simp add: assms)

definition demo_server :: ss_info where
  "demo_server = \<lparr>si_addr = 0, si_ns_ip = ''10.0.0.2'', si_ns_port = 9000, si_client_ip = ''10.0.0.2'', si_client_port = 9001,
     si_sockfd = 7, si_alive = True, si_heartbeat = 0, si_total_bytes = 0, si_total_files = 0, si_awaiting = False,
     si_ready = False, si_status = 0, si_raw = None, si_refcount = 1\<rparr>"

definition demo_channel :: channel where
  "demo_channel = \<lparr>ch_server = demo_server, ch_callers = [Arrived [''CREATE_FILE'', ''a'', ''ann'']]\<rparr>"

definition alternating :: "nat \<Rightarrow> channel_event" where
  "alternating n = (if even n then Turn 0 True else Message ''OK_CREATE|a'')"


section \<open>A stolen answer\<close>

text \<open>The relay clears \<open>awaiting_response\<close> with the answer to the first command, the second call gets the lock,
  throws the answer away and sends its command; the first call takes the answer to it.\<close>

definition overtaking :: "cstring \<Rightarrow> cstring \<Rightarrow> channel_event list" where
  "overtaking answer1 answer2 =
     [Turn 0 True, Turn 0 True, Turn 1 True, Message answer1, Turn 1 True, Message answer2, Turn 0 True]"

lemma orphan_waits:
  assumes "\<not> si_awaiting (ch_server c)" "\<not> si_ready (ch_server c)" "ch_callers c = [Back f r, Waiting g]"
  shows "ch_callers (channel_at c es n) = ch_callers c \<and> \<not> si_awaiting (ch_server (channel_at c es n)) \<and>
    \<not> si_ready (ch_server (channel_at c es n))"
proof (induction n)
  case (Suc n)
  then show ?case
    using assms(3)
    by (cases "es n") (auto simp: deliver_def storage_server_signal_failure_def Let_def less_Suc_eq take_answer_def)
qed (simp add: assms)

text \<open>C25. Two calls of the same storage server can overtake each other: when the second gets the lock between the
  arrival of the answer to the first and the turn of the first, the first returns with the answer to the second,
  and the second waits for ever, whatever the storage server sends afterwards and even when the connection is lost.\<close>

theorem stolen_answer_hangs:
  assumes "f \<noteq> []" "g \<noteq> []" "0 \<le> si_sockfd s" "si_alive s" "\<not> si_awaiting s" "\<not> si_ready s"
  shows "let c = foldl channel_step \<lparr>ch_server = s, ch_callers = [Arrived f, Arrived g]\<rparr> (overtaking answer1 answer2) in
    \<forall>es n. ch_callers (channel_at c es n) = [Back f (Answered answer2), Waiting g]"
proof -
  have "\<exists>s'. foldl channel_step \<lparr>ch_server = s, ch_callers = [Arrived f, Arrived g]\<rparr> (overtaking answer1 answer2) =
      \<lparr>ch_server = s', ch_callers = [Back f (Answered answer2), Waiting g]\<rparr> \<and> \<not> si_awaiting s' \<and> \<not> si_ready s'"
    using assms by (simp add: build_some overtaking_def arrive_def send_command_def take_answer_def deliver_def relay_def)
  then show ?thesis
    using orphan_waits by (auto simp: Let_def)
qed

theorem stolen_answer_hangs_witness:
  "\<exists>c. (\<forall>es n. ch_callers (channel_at c es n) = [Back [''CREATE_FILE'', ''a'', ''ann''] (Answered ''ERR|409''), Waiting [''CREATE_FILE'', ''b'', ''bob'']])"
  using stolen_answer_hangs [of "[''CREATE_FILE'', ''a'', ''ann'']" "[''CREATE_FILE'', ''b'', ''bob'']" demo_server
    "''OK_CREATE|a''" "''ERR|409''"] by (auto simp: demo_server_def Let_def)

end
