(* ===== verification/NS_Startup.thy ===== *)
theory NS_Startup
  imports NS_Server
begin

text \<open>
  Start and shutdown of the name server (\<open>ns_start\<close>, \<open>ns_cleanup\<close> and \<open>main\<close> of \<open>name_server.c\<close>).  The
  results of the operating system are parameters; the threads that are created run the steps of \<open>NS_Server\<close>.
\<close>

section \<open>The accept loop\<close>

text \<open>One result of \<open>accept\<close>: an error, or a connection with the address of the peer (\<open>None\<close> when
  \<open>inet_ntop\<close> fails) and the result of \<open>pthread_create\<close>.\<close>

datatype incoming = No_connection | Peer int "cstring option" int bool

fun ns_accept_loop :: "incoming list \<Rightarrow> connection list" where
  "ns_accept_loop [] = []"
| "ns_accept_loop (No_connection # rest) = ns_accept_loop rest"
| "ns_accept_loop (Peer fd ip port thread_made # rest) =
     (if thread_made then new_connection fd (case ip of Some a \<Rightarrow> a | None \<Rightarrow> ''unknown'') port # ns_accept_loop rest
      else ns_accept_loop rest)"

text \<open>The results of \<open>socket\<close>, \<open>bind\<close> and \<open>listen\<close>.  The last component is the value, \<open>None\<close> while the loop runs.\<close>

record ns_socket =
  nk_fd :: "int option"
  nk_bound :: bool
  nk_listening :: bool

definition ns_start :: "ns_socket \<Rightarrow> incoming list \<Rightarrow> name_server \<Rightarrow> name_server \<times> connection list \<times> int option" where
  "ns_start k arrivals ns =
     (case nk_fd k of
        None \<Rightarrow> (ns, [], Some (-1))
      | Some fd \<Rightarrow>
          if \<not> nk_bound k then (ns, [], Some (-1))
          else if \<not> nk_listening k then (ns, [], Some (-1))
          else (ns\<lparr>nm_sockfd := fd\<rparr>, ns_accept_loop arrivals, None))"

section \<open>Shutdown\<close>

text \<open>The state after the clean-up and the descriptors that are closed.  The array of clients is left as it is.\<close>

definition ns_cleanup :: "name_server \<Rightarrow> name_server \<times> int list" where
  "ns_cleanup ns =
     (ns\<lparr>nm_servers := [], nm_index := replicate FILE_INDEX_SIZE []\<rparr>,
      filter (\<lambda>fd. 0 \<le> fd) (nm_sockfd ns # map ci_sockfd (nm_clients ns) @ map si_sockfd (nm_servers ns)))"

definition ns_main :: "disk \<Rightarrow> ns_socket \<Rightarrow> incoming list \<Rightarrow> cstring list \<Rightarrow> name_server option \<times> connection list \<times> int option" where
  "ns_main d k arrivals args =
     (if length args \<noteq> 1 then (None, [], Some 1)
      else let port = atoi (args ! 0) in
        if \<not> is_valid_port port then (None, [], Some 1)
        else case ns_start k arrivals (ns_init port d) of
          (ns, cs, None) \<Rightarrow> (Some ns, cs, None)
        | (ns, cs, Some v) \<Rightarrow> (Some (fst (ns_cleanup ns)), cs, Some (if v \<noteq> 0 then 1 else 0)))"

text \<open>The server ends only with an error.\<close>

lemma ns_main_exit: "snd (snd (ns_main d k arrivals args)) \<in> {None, Some 1}"
  by (auto simp: ns_main_def ns_start_def Let_def split: option.split)

text \<open>The connections start as the steps of \<open>NS_Server\<close> assume.\<close>

lemma accepted_connections: "cx \<in> set (ns_accept_loop arrivals) \<Longrightarrow> \<exists>fd ip port. cx = new_connection fd ip port"
  by (induction arrivals rule: ns_accept_loop.induct) (auto split: if_splits)

end
