(* ===== verification/Client_Writing.thy ===== *)
theory Client_Writing
  imports Client_Links
begin

text \<open>
  The write sessions of the client against the storage server: for a script of edits the client sends
  exactly the lock request, one \<open>WRITE_DATA\<close> for each line and \<open>ETIRW\<close>, in this order.
\<close>

section \<open>Write sessions\<close>

text \<open>The lines a user types for an edit, and what the client sends for it.\<close>

definition edit_text :: "int \<times> cstring \<Rightarrow> cstring" where
  "edit_text e = show_int (fst e) @ '' '' @ snd e @ [newline]"

definition edit_message :: "int \<times> cstring \<Rightarrow> cstring list" where
  "edit_message e = [''WRITE_DATA'', show_int (fst e), snd e]"

definition edit_ok :: "int \<times> cstring \<Rightarrow> bool" where
  "edit_ok e \<longleftrightarrow> 0 \<le> fst e \<and> fst e \<le> INT_MAX_I \<and> plain (snd e) \<and> length (snd e) < 8000 \<and>
     (snd e = [] \<or> \<not> is_blank (hd (snd e)))"

lemma show_nat_hd: "0 \<le> k \<Longrightarrow> \<exists>d ds. show_int k = d # ds \<and> is_digit d"
  using dec_digits_hd [of "nat k"] by (cases "dec_digits (nat k)") (auto simp: show_int_def show_nat_def)

lemma edit_line_sends:
  assumes "edit_ok e" "sends io = []" "from_ss io = wire [''OK'', ''WRITE_DATA applied''] # rest"
  shows "edit_line (edit_text e) io = (io\<lparr>from_ss := rest, trace := trace io @
     [Sent_ss (wire (edit_message e)), Printed (''WRITE_DATA applied'' @ [newline])]\<rparr>, None)"
proof -
  obtain k c where e: "e = (k, c)"
    by (cases e)
  have k: "0 \<le> k" "k \<le> INT_MAX_I" "plain c" "c = [] \<or> \<not> is_blank (hd c)"
    using assms(1) by (auto simp: edit_ok_def e)
  have nl: "newline \<notin> set (show_int k @ '' '' @ c)"
    using k(3) by (auto simp: plain_def newline_def [symmetric]) (simp add: newline_def)
  have strip: "strip_terminator (edit_text e) = show_int k @ '' '' @ c"
    using strip_terminator_line [OF nl] by (simp add: edit_text_def e)
  obtain d ds where d: "show_int k = d # ds" "is_digit d"
    using show_nat_hd [OF k(1)] by blast
  then have cur: "dropWhile is_blank (show_int k @ '' '' @ c) = show_int k @ '' '' @ c" "show_int k @ '' '' @ c \<noteq> []"
      "show_int k @ '' '' @ c \<noteq> ''ETIRW''"
    by (auto simp: is_blank_def is_digit_def)
  have num: "strtol64 (show_int k @ '' '' @ c) = (k, '' '' @ c, False)"
    using k by (intro strtol64_show_int) (auto simp: INT_MAX_I_def LONG_MIN_I_def LONG_MAX_I_def is_digit_def)
  have blank: "is_blank (CHR '' '')" "dropWhile is_blank c = c"
    using k(4) by (simp_all add: is_blank_def) (cases c; simp add: is_blank_def)
  have ne: "'' '' @ c \<noteq> show_int k @ '' '' @ c"
    by simp
  have len: "bounded_copy 32 (show_int k) = show_int k"
    using length_show_int [of k] k by (simp add: bounded_copy_id INT_MIN_I_def INT_MAX_I_def)
  have ok: "wf_fields [''OK'', ''WRITE_DATA applied'']"
    by (simp add: wf_plain MAX_FIELDS_def MAX_MESSAGE_SIZE_def literal_plain)
  have "session_answer edit_body t io1 = (io1\<lparr>from_ss := rest, trace := trace io1 @ [Printed (''WRITE_DATA applied'' @ [newline])]\<rparr>, None)"
    if "from_ss io1 = wire [''OK'', ''WRITE_DATA applied''] # rest" for io1 t
    using that by (simp add: session_answer_def loop_ss_def edit_body_def protocol_is_error_def parse_wire [OF ok] say_all_def)
  then have "exchange [''WRITE_DATA'', show_int k, c] what None edit_body t io = (io\<lparr>from_ss := rest, trace := trace io @
      [Sent_ss (wire (edit_message e)), Printed (''WRITE_DATA applied'' @ [newline])]\<rparr>, None)" for what t
    using assms(2,3) build_wire [of "[''WRITE_DATA'', show_int k, c]"]
    by (simp add: exchange_def transmit_def note_event_def edit_message_def e)
  then show ?thesis
    unfolding edit_line_def strip cur(1) num len Let_def using cur(2,3) k ne by (simp add: len blank)
qed

lemma commit_line:
  assumes "sends io = []" "from_ss io = wire [''OK_WRITE_DONE''] # rest"
  shows "edit_line (''ETIRW'' @ [newline]) io = (io\<lparr>from_ss := rest, trace := trace io @
     [Sent_ss (wire [''ETIRW'']), Printed (''Write committed successfully.'' @ [newline])]\<rparr>, Some 0)"
proof -
  have strip: "dropWhile is_blank (strip_terminator (''ETIRW'' @ [newline])) = ''ETIRW''"
    using strip_terminator_line [of "''ETIRW''"] by (simp add: newline_def is_blank_def)
  have wf: "wf_fields [''OK_WRITE_DONE'']"
    by (simp add: wf_plain MAX_FIELDS_def MAX_MESSAGE_SIZE_def literal_plain)
  have "session_answer commit_body t io1 = (io1\<lparr>from_ss := rest, trace := trace io1 @ [Printed (''Write committed successfully.'' @ [newline])]\<rparr>, Some 0)"
    if "from_ss io1 = wire [''OK_WRITE_DONE''] # rest" for io1 t
    using that by (simp add: session_answer_def loop_ss_def commit_body_def protocol_is_error_def parse_wire [OF wf] say_all_def)
  then show ?thesis
    using assms build_wire [of "[''ETIRW'']"]
    unfolding edit_line_def strip by (simp add: exchange_def transmit_def note_event_def)
qed

definition edit_events :: "int \<times> cstring \<Rightarrow> event list" where
  "edit_events e = [Printed ''write> '', Sent_ss (wire (edit_message e)), Printed (''WRITE_DATA applied'' @ [newline])]"

definition commit_events :: "event list" where
  "commit_events = [Printed ''write> '', Sent_ss (wire [''ETIRW'']), Printed (''Write committed successfully.'' @ [newline])]"

lemma newline_no_blank: "newline \<noteq> CHR '' ''"
  by (simp add: newline_def)

lemma edit_line_fits:
  assumes "edit_ok e"
  shows "fgets_next CLIENT_BUFFER_SIZE (edit_text e @ t) = Some (edit_text e, t)"
proof -
  have "length (show_int (fst e)) \<le> 11"
    using assms by (intro length_show_int) (auto simp: edit_ok_def INT_MIN_I_def)
  then have "fgets_next CLIENT_BUFFER_SIZE ((show_int (fst e) @ '' '' @ snd e) @ newline # t) =
      Some ((show_int (fst e) @ '' '' @ snd e) @ [newline], t)"
    using assms by (intro fgets_line) (auto simp: edit_ok_def plain_def CLIENT_BUFFER_SIZE_def newline_no_blank)
  then show ?thesis
    by (simp add: edit_text_def)
qed

lemma edit_loop_script:
  assumes "list_all edit_ok es" "sends io = []"
    "from_ss io = replicate (length es) (wire [''OK'', ''WRITE_DATA applied'']) @ [wire [''OK_WRITE_DONE'']]"
    "stdin_text io = concat (map edit_text es) @ ''ETIRW'' @ newline # left"
  shows "edit_loop io = (io\<lparr>from_ss := [], stdin_text := left, trace := trace io @ concat (map edit_events es) @ commit_events\<rparr>, 0)"
  using assms
proof (induction es arbitrary: io)
  case Nil
  have "fgets_next CLIENT_BUFFER_SIZE (''ETIRW'' @ newline # left) = Some (''ETIRW'' @ [newline], left)"
    by (rule fgets_line) (simp_all add: CLIENT_BUFFER_SIZE_def newline_def)
  then show ?case
    using Nil commit_line [of "say ''write> '' io\<lparr>stdin_text := left\<rparr>" "[]"]
    by (subst edit_loop.simps) (simp add: Let_def say_def note_event_def commit_events_def)
next
  case (Cons e es)
  let ?t = "concat (map edit_text es) @ ''ETIRW'' @ newline # left"
  let ?rest = "replicate (length es) (wire [''OK'', ''WRITE_DATA applied'']) @ [wire [''OK_WRITE_DONE'']]"
  have f: "fgets_next CLIENT_BUFFER_SIZE (stdin_text io) = Some (edit_text e, ?t)"
    using Cons.prems edit_line_fits [of e ?t] by simp
  let ?io = "io\<lparr>stdin_text := ?t, from_ss := ?rest, trace := trace io @ edit_events e\<rparr>"
  have l: "edit_line (edit_text e) (say ''write> '' io\<lparr>stdin_text := ?t\<rparr>) = (?io, None)"
    using edit_line_sends [of e "say ''write> '' io\<lparr>stdin_text := ?t\<rparr>" ?rest] Cons.prems
    by (simp add: say_def note_event_def edit_events_def)
  have "edit_loop io = edit_loop ?io"
    using f l by (subst edit_loop.simps) (simp add: Let_def)
  also have "\<dots> = (?io\<lparr>from_ss := [], stdin_text := left, trace := trace ?io @ concat (map edit_events es) @ commit_events\<rparr>, 0)"
    using Cons.prems by (intro Cons.IH) simp_all
  finally show ?case
    by simp
qed

end
