(* ===== verification/Storage_Scripts.thy ===== *)
theory Storage_Scripts
  imports Storage_Properties
begin

text \<open>
  A whole write session on the side of the storage server (\<open>storage_server.c\<close>): the lock request, a script of
  edits and the commit, as one run of the dispatch.
\<close>

fun serve :: "int \<Rightarrow> storage_server \<Rightarrow> int \<Rightarrow> cstring list list \<Rightarrow> storage_server \<times> outputs" where
  "serve now ss fd [] = (ss, [])"
| "serve now ss fd (fs # fss) =
     (let (ss1, out1) = client_dispatch now ss fd fs; (ss2, out2) = serve now ss1 fd fss in (ss2, out1 @ out2))"

lemma serve_append: "serve now ss fd (as @ bs) =
    (let (ss1, out1) = serve now ss fd as; (ss2, out2) = serve now ss1 fd bs in (ss2, out1 @ out2))"
  by (induction as arbitrary: ss) (auto simp: case_prod_beta Let_def)

primrec apply_edits :: "cstring \<Rightarrow> (int \<times> cstring) list \<Rightarrow> cstring option" where
  "apply_edits t [] = Some t"
| "apply_edits t (e # es) = (case apply_word_edit t (fst e) (snd e) of None \<Rightarrow> None | Some u \<Rightarrow> apply_edits u es)"

lemma find_put_session:
  assumes "ss_find_session ss fd = Some x"
  shows "ss_find_session (put_session (x\<lparr>sentence_working := w\<rparr>) ss) fd = Some (x\<lparr>sentence_working := w\<rparr>)"
proof -
  have "find (\<lambda>s. client_fd s = fd) xs = Some x \<Longrightarrow>
      find (\<lambda>s. client_fd s = fd) (map (\<lambda>s. if sess_addr s = sess_addr x then x\<lparr>sentence_working := w\<rparr> else s) xs) =
        Some (x\<lparr>sentence_working := w\<rparr>)" for xs
    by (induction xs) (auto split: if_splits dest: find_Some_iff [THEN iffD1])
  then show ?thesis
    using assms by (simp add: ss_find_session_def put_session_def)
qed

text \<open>The edits of a script, one after the other.\<close>

lemma serve_edits:
  assumes "ss_inv ss" "ss_find_session ss fd = Some x" "apply_edits (sentence_working x) es = Some w"
    "\<forall>e\<in>set es. 0 \<le> fst e \<and> fst e \<le> INT_MAX_I"
  obtains ss' where "serve now ss fd (map (\<lambda>e. [''WRITE_DATA'', show_int (fst e), snd e]) es) =
      (ss', concat (map (\<lambda>e. send_fields (To_client fd) [''OK'', ''WRITE_DATA applied'']) es))"
    "ss_inv ss'" "ss_find_session ss' fd = Some (x\<lparr>sentence_working := w\<rparr>)" "ss_disk ss' = ss_disk ss"
    "get_record ss' = get_record ss"
proof -
  have "\<exists>ss'. serve now ss fd (map (\<lambda>e. [''WRITE_DATA'', show_int (fst e), snd e]) es) =
      (ss', concat (map (\<lambda>e. send_fields (To_client fd) [''OK'', ''WRITE_DATA applied'']) es)) \<and> ss_inv ss' \<and>
      ss_find_session ss' fd = Some (x\<lparr>sentence_working := w\<rparr>) \<and> ss_disk ss' = ss_disk ss \<and> get_record ss' = get_record ss"
    using assms
  proof (induction es arbitrary: ss x)
    case (Cons e es)
    obtain k c where e: "e = (k, c)"
      by (cases e)
    obtain u where u: "apply_word_edit (sentence_working x) k c = Some u" "apply_edits u es = Some w"
      using Cons.prems(3) by (auto simp: e split: option.splits)
    let ?x = "x\<lparr>sentence_working := u\<rparr>"
    let ?ss = "put_session ?x ss"
    have k: "0 \<le> k" "parse_int (show_int k) = Some k"
      using Cons.prems(4) by (auto simp: e INT_MIN_I_def intro: parse_int_show_int)
    have h: "client_dispatch now ss fd [''WRITE_DATA'', show_int k, c] = (?ss, send_fields (To_client fd) [''OK'', ''WRITE_DATA applied''])"
      using Cons.prems(2) k u(1)
      by (simp add: client_dispatch_def handle_client_write_data_def ss_apply_word_edit_def Let_def send_simple_ok_def)
    have inv: "ss_inv ?ss"
      using client_dispatch_inv [OF Cons.prems(1), of now "[''WRITE_DATA'', show_int k, c]" fd] h by (simp add: client_ok_def)
    have "ss_find_session ?ss fd = Some ?x"
      by (rule find_put_session [OF Cons.prems(2)])
    from Cons.IH [OF inv this] u(2) Cons.prems(4) obtain ss' where ss': "serve now ?ss fd (map (\<lambda>e. [''WRITE_DATA'', show_int (fst e), snd e]) es) =
        (ss', concat (map (\<lambda>e. send_fields (To_client fd) [''OK'', ''WRITE_DATA applied'']) es))" "ss_inv ss'"
        "ss_find_session ss' fd = Some (?x\<lparr>sentence_working := w\<rparr>)" "ss_disk ss' = ss_disk ?ss" "get_record ss' = get_record ?ss"
      by auto
    have "ss_disk ?ss = ss_disk ss" "get_record ?ss = get_record ss"
      by (simp_all add: put_session_def get_record_def fun_eq_iff)
    then show ?case
      using h ss' by (auto simp: e)
  qed simp
  then show ?thesis
    using that by blast
qed

text \<open>The lock request of a user with write access for a free sentence.\<close>

lemma serve_lock:
  assumes "ss_inv ss" "ss_find_file ss f = Some r" "ss_check_write_access r user"
    "\<forall>x\<in>set (sessions ss). sess_file x = rec_addr r \<longrightarrow> sentence_index x \<noteq> i" "0 \<le> i" "i \<le> INT_MAX_I"
    "ss_read_file_content (ss_disk ss) (filepath r) = Some t" "ss_get_sentence_bounds t i = Some (a, b)"
  obtains ss1 x where "client_dispatch now ss fd [''REQ_WRITE_LOCK'', user, f, show_int i] = (ss1,
      send_fields (To_client fd) [''OK_LOCKED'', filename r, show_int i] @ send_fields (To_client fd) [''OK_CONTENT'', span_text t a b])"
    "ss_inv ss1" "ss_find_session ss1 fd = Some x" "sess_file x = rec_addr r" "sentence_start x = a" "sentence_end x = b"
    "sentence_working x = span_text t a b" "ss_disk ss1 = ss_disk ss" "get_record ss1 = get_record ss"
proof -
  let ?ss = "ss_abort_session ss fd"
  have "set (detach fd xs) \<subseteq> set xs" for xs
    by (induction xs) auto
  then have free: "ss_find_session_by_sentence ?ss r i = None"
    using assms(4) by (auto simp: ss_find_session_by_sentence_def ss_abort_session_def ss_detach_session_def find_None_iff)
  have same: "ss_find_file ?ss f = Some r" "ss_disk ?ss = ss_disk ss" "get_record ?ss = get_record ss"
    using assms(2) by (simp_all add: ss_find_file_def ss_abort_session_def ss_detach_session_def get_record_def fun_eq_iff)
  have i: "parse_int (show_int i) = Some i"
    using assms(5,6) by (auto simp: INT_MIN_I_def intro: parse_int_show_int)
  let ?ss1 = "ss_create_session ?ss fd r user i a b t (span_text t a b)"
  have h: "client_dispatch now ss fd [''REQ_WRITE_LOCK'', user, f, show_int i] = (?ss1,
      send_fields (To_client fd) [''OK_LOCKED'', filename r, show_int i] @ send_fields (To_client fd) [''OK_CONTENT'', span_text t a b])"
    using assms(3,5,7,8) free same i
    by (simp add: client_dispatch_def handle_client_write_lock_def Let_def span_text_def numeral_2_eq_2 numeral_3_eq_3)
  have inv: "ss_inv ?ss1"
    using client_dispatch_inv [OF assms(1), of now "[''REQ_WRITE_LOCK'', user, f, show_int i]" fd] h by (simp add: client_ok_def)
  have "ss_find_session ?ss1 fd = Some (hd (sessions ?ss1))" "ss_disk ?ss1 = ss_disk ss" "get_record ?ss1 = get_record ss"
    using same by (simp_all add: ss_find_session_def ss_create_session_def get_record_def fun_eq_iff)
  then show ?thesis
    using that [OF h inv] by (simp add: ss_create_session_def)
qed

text \<open>The messages a run sends to one client.\<close>

definition client_part :: "int \<Rightarrow> outputs \<Rightarrow> outputs" where
  "client_part fd out = filter (\<lambda>(to, m). to = To_client fd) out"

lemma client_part_append [simp]: "client_part fd (a @ b) = client_part fd a @ client_part fd b"
  by (simp add: client_part_def)

lemma client_part_send [simp]: "client_part fd (send_fields (To_client fd) fs) = send_fields (To_client fd) fs"
  by (simp add: client_part_def send_fields_def emit_def split: option.splits)

lemma client_part_ns [simp]: "client_part fd (send_fields To_ns fs) = []"
  by (simp add: client_part_def send_fields_def emit_def split: option.splits)

lemma client_part_sync [simp]: "client_part fd (ss_sync_metadata_to_ns ss r) = []"
  by (auto simp: ss_sync_metadata_to_ns_def Let_def client_part_def send_fields_def emit_def split: option.splits)

lemma client_part_concat: "client_part fd (concat xs) = concat (map (client_part fd) xs)"
  by (simp add: client_part_def [abs_def] filter_concat)

definition write_script :: "cstring \<Rightarrow> cstring \<Rightarrow> int \<Rightarrow> (int \<times> cstring) list \<Rightarrow> cstring list list" where
  "write_script user f i es = [''REQ_WRITE_LOCK'', user, f, show_int i] #
     map (\<lambda>e. [''WRITE_DATA'', show_int (fst e), snd e]) es @ [[''ETIRW'']]"

lemma serve_script:
  assumes "ss_inv ss" "ss_find_file ss f = Some r" "ss_check_write_access r user"
    "\<forall>x\<in>set (sessions ss). sess_file x = rec_addr r \<longrightarrow> sentence_index x \<noteq> i" "0 \<le> i" "i \<le> INT_MAX_I"
    "ss_read_file_content (ss_disk ss) (filepath r) = Some t" "ss_get_sentence_bounds t i = Some (a, b)"
    "apply_edits (span_text t a b) es = Some w" "\<forall>e\<in>set es. 0 \<le> fst e \<and> fst e \<le> INT_MAX_I"
    "may_write (ss_disk ss) (filepath r)" "may_write (ss_disk ss) (undopath r)" "metapath r \<noteq> undopath r"
    "serve now ss fd (write_script user f i es) = (ss', out)"
  shows "client_part fd out = send_fields (To_client fd) [''OK_LOCKED'', filename r, show_int i] @
      send_fields (To_client fd) [''OK_CONTENT'', span_text t a b] @
      concat (map (\<lambda>e. send_fields (To_client fd) [''OK'', ''WRITE_DATA applied'']) es) @ send_fields (To_client fd) [''OK_WRITE_DONE'']"
    "dk_files (ss_disk ss') (filepath r) = Some (take a t @ w @ drop b t)"
    "dk_files (ss_disk ss') (undopath r) = Some t"
proof -
  obtain ss1 x where l: "client_dispatch now ss fd [''REQ_WRITE_LOCK'', user, f, show_int i] = (ss1,
      send_fields (To_client fd) [''OK_LOCKED'', filename r, show_int i] @ send_fields (To_client fd) [''OK_CONTENT'', span_text t a b])"
    "ss_inv ss1" "ss_find_session ss1 fd = Some x" "sess_file x = rec_addr r" "sentence_start x = a" "sentence_end x = b"
    "sentence_working x = span_text t a b" "ss_disk ss1 = ss_disk ss" "get_record ss1 = get_record ss"
    using serve_lock [OF assms(1-8), where now = now and fd = fd] .
  have ex: "apply_edits (sentence_working x) es = Some w"
    using assms(9) l(7) by simp
  obtain ss2 where e: "serve now ss1 fd (map (\<lambda>e. [''WRITE_DATA'', show_int (fst e), snd e]) es) =
      (ss2, concat (map (\<lambda>e. send_fields (To_client fd) [''OK'', ''WRITE_DATA applied'']) es))"
    "ss_inv ss2" "ss_find_session ss2 fd = Some (x\<lparr>sentence_working := w\<rparr>)" "ss_disk ss2 = ss_disk ss1"
    "get_record ss2 = get_record ss1"
    using serve_edits [OF l(2,3) ex assms(10), where now = now] .
  let ?x = "x\<lparr>sentence_working := w\<rparr>"
  have t: "dk_files (ss_disk ss2) (filepath r) = Some t"
    using assms(7) l(8) e(4) by (simp add: ss_read_file_content_def fopen_read_def split: if_splits)
  have r: "get_record ss2 (sess_file ?x) = Some r"
    using l(4,9) e(5) get_record_in [OF _ conjunct1 [OF ss_find_file_Some [OF assms(2)]]] inv_parts(1) [OF assms(1)]
    by (simp add: records_wf_def)
  have w: "may_write (ss_disk ss2) (filepath r)" "may_write (ss_disk ss2) (undopath r)"
    using assms(11,12) l(8) e(4) by simp_all
  obtain d2 where c: "handle_client_etirw now ss2 fd = (commit_state now ss2 fd ?x r t d2,
       send_fields (To_client fd) [''OK_WRITE_DONE''] @ ss_sync_metadata_to_ns (commit_state now ss2 fd ?x r t d2) (r\<lparr>undo_available := 1\<rparr>))"
    using etirw_success [OF e(2,3) r t w] by metis
  note facts = etirw_commit_facts [OF e(2,3) r t w assms(13) c]
  have "client_dispatch now ss2 fd [''ETIRW''] = handle_client_etirw now ss2 fd"
    by (simp add: client_dispatch_def)
  then have "serve now ss fd (write_script user f i es) = (commit_state now ss2 fd ?x r t d2,
      (send_fields (To_client fd) [''OK_LOCKED'', filename r, show_int i] @ send_fields (To_client fd) [''OK_CONTENT'', span_text t a b]) @
        concat (map (\<lambda>e. send_fields (To_client fd) [''OK'', ''WRITE_DATA applied'']) es) @
        send_fields (To_client fd) [''OK_WRITE_DONE''] @ ss_sync_metadata_to_ns (commit_state now ss2 fd ?x r t d2) (r\<lparr>undo_available := 1\<rparr>))"
    by (simp only: write_script_def serve.simps serve_append l(1) e(1) c Let_def prod.case append.simps append_Nil2 append_assoc)
  note s = Pair_inject [OF trans [OF sym [OF assms(14)] this]]
  show "client_part fd out = send_fields (To_client fd) [''OK_LOCKED'', filename r, show_int i] @
      send_fields (To_client fd) [''OK_CONTENT'', span_text t a b] @
      concat (map (\<lambda>e. send_fields (To_client fd) [''OK'', ''WRITE_DATA applied'']) es) @ send_fields (To_client fd) [''OK_WRITE_DONE'']"
    by (rule s) (simp only: client_part_append client_part_send client_part_sync client_part_concat map_map comp_def append_assoc append_Nil2)
  show "dk_files (ss_disk ss') (filepath r) = Some (take a t @ w @ drop b t)" "dk_files (ss_disk ss') (undopath r) = Some t"
    using facts(1,2) l(5,6) by (auto intro: s)
qed

end
