(* ===== verification/Client_Properties.thy ===== *)
theory Client_Properties
  imports Client_Writing Storage_Scripts
begin

text \<open>
  Properties of the client together with the storage server: what the user sees of a READ and of a
  STREAM is the content of the file on the storage server, and the edits a user types in a write
  session are applied to exactly the locked sentence.
\<close>

section \<open>READ\<close>

lemma read_reply_lines:
  assumes "plain nm" "plain content" "length nm < MAX_FILENAME_LENGTH" "length content < 60000"
  shows "receive_lines (sent_bytes (read_reply fd nm content)) =
    map wire [[''OK_READ_START'', nm], [''OK_CONTENT'', content], [''OK_READ_END'']]"
  using receive_lines_wire [of "[[''OK_READ_START'', nm], [''OK_CONTENT'', content], [''OK_READ_END'']]"] assms
  by (simp add: sent_bytes_def read_reply_def send_fields_wire wf_plain MAX_FIELDS_def MAX_MESSAGE_SIZE_def
    MAX_FILENAME_LENGTH_def literal_plain)

definition read_display :: "cstring \<Rightarrow> cstring \<Rightarrow> cstring list" where
  "read_display nm content = [''---- '' @ nm @ '' ----'' @ [newline]] @
     (if content = [] then [''(empty file)'' @ [newline]] else [content, [newline]])"

lemma read_stream_shows:
  assumes "plain nm" "plain content" "nm \<noteq> []" "length nm < MAX_FILENAME_LENGTH" "length content < 60000"
    "from_ss io = receive_lines (sent_bytes (read_reply fd nm content))"
  shows "client_receive_read_stream display io =
    (io\<lparr>from_ss := [], trace := trace io @ map Printed (read_display nm content)\<rparr>, 0)"
proof -
  have wf: "wf_fields [''OK_READ_START'', nm]" "wf_fields [''OK_CONTENT'', content]" "wf_fields [''OK_READ_END'']"
    using assms by (simp_all add: wf_plain MAX_FIELDS_def MAX_MESSAGE_SIZE_def MAX_FILENAME_LENGTH_def literal_plain)
  have c: "content \<noteq> [] \<Longrightarrow> last content \<noteq> newline"
    using assms(2) last_in_set [of content] unfolding plain_def by metis
  show ?thesis
    using assms(3) c read_reply_lines [OF assms(1,2,4,5)] assms(6)
    by (simp add: client_receive_read_stream_def loop_ss_def read_body_def protocol_is_error_def parse_wire [OF wf(1)]
      parse_wire [OF wf(2)] parse_wire [OF wf(3)] say_all_def read_display_def)
qed


definition demo_client :: client where
  "demo_client = \<lparr>cl_username = ''bob'', cl_ns_ip = ''10.0.0.1'', cl_ns_port = 9000, cl_ns_sockfd = 3\<rparr>"

definition demo_io :: "cstring list \<Rightarrow> cstring \<Rightarrow> io" where
  "demo_io ls input = \<lparr>from_ns = [wire [''OK_LOC'', ''a'', ''10.0.0.2'', ''9001'']], from_ss = [], dials = [Link ls], sends = [],
     stdin_text = input, trace = []\<rparr>"

lemma demo_located: "located demo_client ''a'' ''10.0.0.2'' 9001 ls (demo_io ls input)"
proof -
  have port: "show_int 9001 = ''9001''"
    by (simp add: show_int_def show_nat_def dec_digits.simps digit_char_def) code_simp
  have "is_valid_ip ''10.0.0.2''" "plain ''10.0.0.2''" "validate_username ''bob''" "validate_filename ''a''"
      "newline \<notin> set ''a''" "is_valid_port 9001" "length ''10.0.0.2'' < MAX_IP_LENGTH"
    by code_simp+
  then show ?thesis
    by (simp add: located_def demo_client_def demo_io_def port)
qed

lemma demo_read_facts: "ss_find_file demo_ss ''a'' = Some demo_record" "ss_check_read_access demo_record ''bob''"
    "ss_read_file_content (ss_disk demo_ss) (filepath demo_record) = Some ''Hi yo. So be it.''" "plain ''Hi yo. So be it.''"
    "filename demo_record = ''a''" "cl_username demo_client = ''bob''"
  by code_simp+


section \<open>STREAM\<close>

lemma word_chars: "w \<in> set (word_list s) \<Longrightarrow> c \<in> set w \<Longrightarrow> c \<in> set s \<and> \<not> is_space c"
proof (induction s rule: word_list.induct)
  case (1 s)
  show ?case
  proof (cases "dropWhile is_space s")
    case Nil
    then show ?thesis
      using 1 by (subst (asm) (2) word_list.simps) simp
  next
    case (Cons d t)
    have sub: "set (d # t) \<subseteq> set s"
      using set_dropWhileD [of _ is_space s] Cons by auto
    let ?p = "\<lambda>x. \<not> is_space x"
    have "w = takeWhile ?p (d # t) \<or> w \<in> set (word_list (dropWhile ?p (d # t)))"
      using 1(2) Cons by (subst (asm) word_list.simps) auto
    then show ?thesis
    proof
      assume "w = takeWhile ?p (d # t)"
      then show ?thesis
        using 1(3) sub set_takeWhileD [of c ?p "d # t"] by blast
    next
      assume "w \<in> set (word_list (dropWhile ?p (d # t)))"
      then show ?thesis
        using 1(1) [OF Cons] 1(3) sub set_dropWhileD [of c ?p "d # t"] by blast
    qed
  qed
qed

lemma stream_loop_words: "stream_loop fd s = concat (map (\<lambda>w. send_fields (To_client fd) [''OK_CONTENT'', w]) (word_list s))"
proof (induction fd s rule: stream_loop.induct)
  case (1 fd s)
  show ?case
  proof (cases "dropWhile is_space s")
    case Nil
    then show ?thesis
      by (subst stream_loop.simps, subst word_list.simps) simp
  next
    case (Cons c t)
    then have "s \<noteq> []"
      by auto
    then show ?thesis
      using 1 Cons by (subst stream_loop.simps, subst word_list.simps) simp
  qed
qed

lemma word_stream_loop:
  assumes "\<forall>w\<in>set ws. wf_fields [''OK_CONTENT'', w]"
  shows "receive_loop (word_body nm) (True, b) (map wire (map (\<lambda>w. [''OK_CONTENT'', w]) ws @ [[''OK_STREAM_END'']])) =
    (map (\<lambda>w. w @ '' '') ws @ (if b \<or> ws \<noteq> [] then [] else [''(empty file)'']) @ [newline # ''--- End of Stream ---'' @ [newline]],
     (True, b \<or> ws \<noteq> []), Some 0, [])"
  using assms
proof (induction ws arbitrary: b)
  case Nil
  have "wf_fields [''OK_STREAM_END'']"
    by (simp add: wf_plain MAX_FIELDS_def MAX_MESSAGE_SIZE_def literal_plain)
  then show ?case
    by (simp add: word_body_def protocol_is_error_def parse_wire)
next
  case (Cons w ws)
  then show ?case
    by (simp add: word_body_def protocol_is_error_def parse_wire)
qed

definition stream_display :: "cstring \<Rightarrow> cstring \<Rightarrow> cstring list" where
  "stream_display nm content = [''--- Streaming '' @ nm @ '' ---'' @ [newline]] @ map (\<lambda>w. w @ '' '') (word_list content) @
     (if word_list content = [] then [''(empty file)''] else []) @ [newline # ''--- End of Stream ---'' @ [newline]]"

lemma word_short: "w \<in> set (word_list s) \<Longrightarrow> length w \<le> length s"
proof (induction s rule: word_list.induct)
  case (1 s)
  show ?case
  proof (cases "dropWhile is_space s")
    case Nil
    then show ?thesis
      using 1(2) by (subst (asm) word_list.simps) simp
  next
    case (Cons d t)
    let ?p = "\<lambda>x. \<not> is_space x"
    have l: "length (d # t) \<le> length s"
      using length_dropWhile_le [of is_space s] Cons by simp
    have "w = takeWhile ?p (d # t) \<or> w \<in> set (word_list (dropWhile ?p (d # t)))"
      using 1(2) Cons by (subst (asm) word_list.simps) auto
    then show ?thesis
      using 1(1) [OF Cons] l length_takeWhile_le [of ?p "d # t"] length_dropWhile_le [of ?p "d # t"] by fastforce
  qed
qed

lemma stream_shows:
  assumes "plain nm" "nm \<noteq> []" "length nm < MAX_FILENAME_LENGTH" "PROTOCOL_DELIMITER \<notin> set content" "length content < 60000"
    "from_ss io = receive_lines (sent_bytes (send_fields (To_client fd) [''OK_STREAM'', nm] @ stream_loop fd content @
       send_fields (To_client fd) [''OK_STREAM_END'']))"
  shows "client_receive_word_stream display io =
    (io\<lparr>from_ss := [], trace := trace io @ map Printed (stream_display nm content)\<rparr>, 0)"
proof -
  have "plain w" if "w \<in> set (word_list content)" for w
    unfolding plain_def using word_chars [OF that] assms(4) is_space_newline by metis
  then have ws: "\<forall>w\<in>set (word_list content). wf_fields [''OK_CONTENT'', w]"
    using word_short [of _ content] assms(5) by (fastforce simp: wf_plain MAX_FIELDS_def MAX_MESSAGE_SIZE_def literal_plain)
  have st: "wf_fields [''OK_STREAM'', nm]" "wf_fields [''OK_STREAM_END'']"
    using assms(1,3) by (simp_all add: wf_plain MAX_FIELDS_def MAX_MESSAGE_SIZE_def MAX_FILENAME_LENGTH_def literal_plain)
  let ?fss = "[''OK_STREAM'', nm] # map (\<lambda>w. [''OK_CONTENT'', w]) (word_list content) @ [[''OK_STREAM_END'']]"
  have "sent_bytes (send_fields (To_client fd) [''OK_STREAM'', nm] @ stream_loop fd content @
       send_fields (To_client fd) [''OK_STREAM_END'']) = map Byte (concat (map wire ?fss)) @ [Recv_eof]"
    by (simp add: sent_bytes_def stream_loop_words send_fields_wire map_concat comp_def)
  then have "from_ss io = map wire ?fss"
    using receive_lines_wire [of ?fss] ws st assms(6) by simp
  then obtain ls where io: "from_ss io = wire [''OK_STREAM'', nm] # ls"
      and ls: "ls = map wire (map (\<lambda>w. [''OK_CONTENT'', w]) (word_list content) @ [[''OK_STREAM_END'']])"
    by simp
  have "word_body display (False, False) (protocol_parse_message (wire [''OK_STREAM'', nm])) =
      ([''--- Streaming '' @ nm @ '' ---'' @ [newline]], (True, False), More)"
    using assms(2) by (simp add: word_body_def protocol_is_error_def parse_wire [OF st(1)])
  then show ?thesis
    using word_stream_loop [OF ws, of display False, folded ls]
    by (simp add: client_receive_word_stream_def loop_ss_def io say_all_def stream_display_def)
qed



section \<open>Write sessions from end to end\<close>

definition lock_start :: "int \<Rightarrow> lock_state" where
  "lock_start i = \<lparr>got_lock = False, got_content = False, current_sentence = None, locked_filename = [],
     locked_sentence_index = i\<rparr>"

definition lock_end :: "cstring \<Rightarrow> int \<Rightarrow> cstring \<Rightarrow> lock_state" where
  "lock_end f i t = \<lparr>got_lock = True, got_content = True, current_sentence = Some t, locked_filename = f,
     locked_sentence_index = i\<rparr>"

lemma lock_phase:
  assumes "wf_fields [''OK_LOCKED'', f, show_int i]" "wf_fields [''OK_CONTENT'', t]" "length f < MAX_FILENAME_LENGTH"
    "0 \<le> i" "i \<le> INT_MAX_I"
  shows "receive_loop lock_body (lock_start i) (wire [''OK_LOCKED'', f, show_int i] # wire [''OK_CONTENT'', t] # rest) =
    ([], lock_end f i t, Some 0, rest)"
proof -
  have "strtol64 (show_int i) = (i, [], False)"
    using strtol64_show_int [of i "[]"] assms(4,5) by (simp add: INT_MAX_I_def LONG_MIN_I_def LONG_MAX_I_def)
  then show ?thesis
    using assms(3-5) by (simp add: lock_body_def lock_progress_def lock_start_def lock_end_def protocol_is_error_def
      parse_wire [OF assms(1)] parse_wire [OF assms(2)] numeral_2_eq_2 bounded_copy_id)
qed

lemma script_wf:
  assumes "validate_username u" "validate_filename f" "newline \<notin> set f" "0 \<le> i" "i \<le> INT_MAX_I" "list_all edit_ok es"
  shows "\<forall>fs\<in>set (write_script u f i es). wf_fields fs"
proof -
  have "length (show_int i) \<le> 11"
    using assms(4,5) by (intro length_show_int) (auto simp: INT_MIN_I_def)
  then have "wf_fields [''REQ_WRITE_LOCK'', u, f, show_int i]"
    using assms(1-3) filename_short [of f] username_short [of u] plain_filename [of f] plain_username [of u]
    by (simp add: wf_plain MAX_FIELDS_def MAX_MESSAGE_SIZE_def literal_plain)
  moreover have "wf_fields [''WRITE_DATA'', show_int (fst e), snd e]" if "e \<in> set es" for e
  proof -
    have e: "edit_ok e"
      using assms(6) that by (simp add: list_all_iff)
    then have "length (show_int (fst e)) \<le> 11"
      by (intro length_show_int) (auto simp: edit_ok_def INT_MIN_I_def)
    then show ?thesis
      using e by (simp add: edit_ok_def wf_plain MAX_FIELDS_def MAX_MESSAGE_SIZE_def literal_plain)
  qed
  moreover have "wf_fields [''ETIRW'']"
    by (simp add: wf_plain MAX_FIELDS_def MAX_MESSAGE_SIZE_def literal_plain)
  ultimately show ?thesis
    by (auto simp: write_script_def)
qed

text \<open>The client on the lines of a successful session.\<close>

lemma write_session_runs:
  assumes "located cl f ip port ls io" "0 \<le> i" "i \<le> INT_MAX_I" "list_all edit_ok es"
    "wf_fields [''OK_LOCKED'', f, show_int i]" "wf_fields [''OK_CONTENT'', t]"
    "ls = wire [''OK_LOCKED'', f, show_int i] # wire [''OK_CONTENT'', t] #
       replicate (length es) (wire [''OK'', ''WRITE_DATA applied'']) @ [wire [''OK_WRITE_DONE'']]"
    "stdin_text io = concat (map edit_text es) @ ''ETIRW'' @ newline # left"
  obtains io' where "client_handle_write cl f i io = (io', 0)" "stdin_text io' = left"
    "trace io' = trace io @ [Sent_ns (wire [''REQ_LOC'', ''WRITE'', f]), Dialled ip port,
       Sent_ss (wire [''REQ_WRITE_LOCK'', cl_username cl, f, show_int i]), Printed (session_intro f (lock_end f i t))] @
       concat (map edit_events es) @ commit_events @ [Closed_ss]"
proof -
  have l: "0 \<le> cl_ns_sockfd cl" "validate_filename f" "sends io = []" "length f < MAX_FILENAME_LENGTH"
    using assms(1) filename_short [of f] by (auto simp: located_def MAX_FILENAME_LENGTH_def)
  have n: "bounded_copy 32 (show_int i) = show_int i"
    using length_show_int [of i] assms(2,3) by (simp add: bounded_copy_id INT_MIN_I_def INT_MAX_I_def)
  let ?rest = "replicate (length es) (wire [''OK'', ''WRITE_DATA applied'']) @ [wire [''OK_WRITE_DONE'']]"
  let ?io2 = "(opened ''WRITE'' f ip port ls io)\<lparr>trace := trace (opened ''WRITE'' f ip port ls io) @
      [Sent_ss (wire [''REQ_WRITE_LOCK'', cl_username cl, f, show_int i])]\<rparr>"
  have lock: "loop_ss lock_body (lock_start i) ?io2 = (?io2\<lparr>from_ss := ?rest\<rparr>, lock_end f i t, Some 0)"
    using lock_phase [OF assms(5,6) l(4) assms(2,3), of ?rest] by (simp add: loop_ss_def assms(7) say_all_def)
  let ?io3 = "say (session_intro f (lock_end f i t)) (?io2\<lparr>from_ss := ?rest\<rparr>)"
  have "edit_loop ?io3 = (?io3\<lparr>from_ss := [], stdin_text := left, trace := trace ?io3 @ concat (map edit_events es) @ commit_events\<rparr>, 0)"
    using assms(4,8) l(3) by (intro edit_loop_script) (simp_all add: say_def note_event_def)
  then have h: "client_handle_write cl f i io = hang_up (?io3\<lparr>from_ss := [], stdin_text := left,
      trace := trace ?io3 @ concat (map edit_events es) @ commit_events\<rparr>, 0)"
    using l assms(2) n lock build_wire [of "[''REQ_WRITE_LOCK'', cl_username cl, f, show_int i]"]
    by (simp add: client_handle_write_def with_storage_opened [OF assms(1)] transmit_def note_event_def lock_start_def [symmetric])
  show ?thesis
    by (rule that [OF h [unfolded hang_up_def fst_conv snd_conv]]) (simp_all add: note_event_def say_def opened_def)
qed

text \<open>What a client that edits receives: the answers of the storage server, line by line.\<close>

definition write_answers :: "cstring \<Rightarrow> int \<Rightarrow> cstring \<Rightarrow> nat \<Rightarrow> cstring list list" where
  "write_answers f i stext n = [''OK_LOCKED'', f, show_int i] # [''OK_CONTENT'', stext] #
     replicate n [''OK'', ''WRITE_DATA applied''] @ [[''OK_WRITE_DONE'']]"

lemma write_answers_wf:
  assumes "validate_filename f" "newline \<notin> set f" "0 \<le> i" "i \<le> INT_MAX_I" "plain t" "length t < 60000"
  shows "wf_fields [''OK_LOCKED'', f, show_int i]" "wf_fields [''OK_CONTENT'', span_text t a b]"
    "\<forall>fs\<in>set (write_answers f i (span_text t a b) n). wf_fields fs"
proof -
  have sub: "plain (span_text t a b)" "length (span_text t a b) \<le> length t"
    using assms(5) in_set_takeD [of _ "b - a" "drop a t"] in_set_dropD [of _ a t] by (auto simp: span_text_def plain_def)
  have "length (show_int i) \<le> 11"
    using assms(3,4) by (intro length_show_int) (auto simp: INT_MIN_I_def)
  then have wf: "wf_fields [''OK_LOCKED'', f, show_int i]" "wf_fields [''OK_CONTENT'', span_text t a b]"
      "wf_fields [''OK'', ''WRITE_DATA applied'']" "wf_fields [''OK_WRITE_DONE'']"
    using sub assms(1,2,6) filename_short [of f] plain_filename [of f]
    by (simp_all add: wf_plain MAX_FIELDS_def MAX_MESSAGE_SIZE_def literal_plain)
  then show "wf_fields [''OK_LOCKED'', f, show_int i]" "wf_fields [''OK_CONTENT'', span_text t a b]"
    "\<forall>fs\<in>set (write_answers f i (span_text t a b) n). wf_fields fs"
    by (auto simp: write_answers_def)
qed

lemma receive_client_part:
  assumes "client_part fd out = concat (map (send_fields (To_client fd)) fss)" "\<forall>fs\<in>set fss. wf_fields fs"
  shows "receive_lines (sent_bytes (client_part fd out)) = map wire fss"
proof -
  have "concat (map (map Byte \<circ> snd) (concat (map (send_fields (To_client fd)) fss))) = map Byte (concat (map wire fss))"
    using assms(2) by (induction fss) (auto simp: send_fields_wire wf_fields_def)
  then have "sent_bytes (client_part fd out) = map Byte (concat (map wire fss)) @ [Recv_eof]"
    using assms(1) by (simp add: sent_bytes_def map_concat comp_def)
  then show ?thesis
    using assms(2) by (simp only:) (rule receive_lines_wire, auto)
qed

text \<open>C1. A write session from end to end: the user opens sentence \<open>i\<close> of a document, types the edits \<open>es\<close> and \<open>ETIRW\<close>, and
  nobody holds the sentence.  The client sends exactly the lock request, one message for each
  edit and the commit; the storage server, run on these messages, applies all edits to the text of the locked
  sentence and to nothing else; with its answers the client succeeds and the rest of the input is untouched.\<close>

theorem write_end_to_end:
  assumes "located cl f ip port (receive_lines (sent_bytes (client_part fd out))) io" "filename r = f"
    "stdin_text io = concat (map edit_text es) @ ''ETIRW'' @ newline # left" "list_all edit_ok es"
    "serve now ss fd (map (\<lambda>fs. msg_fields (protocol_parse_message (wire fs))) (write_script (cl_username cl) f i es)) = (ss', out)"
    "ss_inv ss" "ss_find_file ss f = Some r" "ss_check_write_access r (cl_username cl)"
    "\<forall>x\<in>set (sessions ss). sess_file x = rec_addr r \<longrightarrow> sentence_index x \<noteq> i" "0 \<le> i" "i \<le> INT_MAX_I"
    "ss_read_file_content (ss_disk ss) (filepath r) = Some t" "plain t" "length t < 60000"
    "ss_get_sentence_bounds t i = Some (a, b)" "apply_edits (span_text t a b) es = Some w"
    "may_write (ss_disk ss) (filepath r)" "may_write (ss_disk ss) (undopath r)" "metapath r \<noteq> undopath r"
    "client_handle_write cl f i io = (io', rc)"
  shows "rc = 0 \<and> stdin_text io' = left \<and>
    ss_messages (trace io') = ss_messages (trace io) @ map wire (write_script (cl_username cl) f i es) \<and>
    dk_files (ss_disk ss') (filepath r) = Some (take a t @ w @ drop b t) \<and> dk_files (ss_disk ss') (undopath r) = Some t"
proof -
  have l: "validate_username (cl_username cl)" "validate_filename f" "newline \<notin> set f"
    using assms(1) by (simp_all add: located_def)
  have k: "\<forall>e\<in>set es. 0 \<le> fst e \<and> fst e \<le> INT_MAX_I"
    using assms(4) by (auto simp: list_all_iff edit_ok_def)
  have sw: "\<forall>fs\<in>set (write_script (cl_username cl) f i es). wf_fields fs"
    by (rule script_wf [OF l assms(10,11,4)])
  then have "map (\<lambda>fs. msg_fields (protocol_parse_message (wire fs))) (write_script (cl_username cl) f i es) =
      write_script (cl_username cl) f i es"
    by (intro map_idI) (simp add: parse_wire)
  then have serve: "serve now ss fd (write_script (cl_username cl) f i es) = (ss', out)"
    using assms(5) by simp
  note server = serve_script [OF assms(6-12,15,16) k assms(17-19) serve]
  note wf = write_answers_wf [OF l(2,3) assms(10,11,13,14)]
  have "client_part fd out = concat (map (send_fields (To_client fd)) (write_answers f i (span_text t a b) (length es)))"
    using server(1) by (simp add: assms(2) write_answers_def map_replicate_const)
  then have ls: "receive_lines (sent_bytes (client_part fd out)) = map wire (write_answers f i (span_text t a b) (length es))"
    by (rule receive_client_part) (rule wf(3))
  obtain io1 where c: "client_handle_write cl f i io = (io1, 0)" "stdin_text io1 = left"
    "trace io1 = trace io @ [Sent_ns (wire [''REQ_LOC'', ''WRITE'', f]), Dialled ip port,
       Sent_ss (wire [''REQ_WRITE_LOCK'', cl_username cl, f, show_int i]), Printed (session_intro f (lock_end f i (span_text t a b)))] @
       concat (map edit_events es) @ commit_events @ [Closed_ss]"
    by (rule write_session_runs [OF assms(1,10,11,4) wf(1,2) _ assms(3)]) (simp_all add: ls write_answers_def)
  have "ss_messages (concat (map edit_events es)) = map (\<lambda>e. wire (edit_message e)) es"
    by (induction es) (simp_all add: edit_events_def)
  then have "ss_messages (trace io1) = ss_messages (trace io) @ map wire (write_script (cl_username cl) f i es)"
    by (simp add: c(3) commit_events_def write_script_def edit_message_def comp_def)
  then show ?thesis
    using c(1,2) assms(20) server(2,3) by simp
qed

definition demo_script :: "cstring list list" where
  "demo_script = map (\<lambda>fs. msg_fields (protocol_parse_message (wire fs))) (write_script ''bob'' ''a'' 0 [(1, ''you. Oh'')])"

lemma demo_write_facts: "ss_check_write_access demo_record ''bob''" "sessions demo_ss = []"
    "ss_get_sentence_bounds ''Hi yo. So be it.'' 0 = Some (0, 6)"
    "apply_edits (span_text ''Hi yo. So be it.'' 0 6) [(1, ''you. Oh'')] = Some ''Hi you. Oh yo.''"
    "may_write (ss_disk demo_ss) (filepath demo_record)" "may_write (ss_disk demo_ss) (undopath demo_record)"
    "metapath demo_record \<noteq> undopath demo_record" "list_all edit_ok [(1, ''you. Oh'')]"
    "take 0 ''Hi yo. So be it.'' @ ''Hi you. Oh yo.'' @ drop 6 ''Hi yo. So be it.'' = ''Hi you. Oh yo. So be it.''"
  by code_simp+

theorem write_end_to_end_witness:
  "\<exists>ls. snd (client_handle_write demo_client ''a'' 0 (demo_io ls (edit_text (1, ''you. Oh'') @ ''ETIRW'' @ [newline]))) = 0 \<and>
     dk_files (ss_disk (fst (serve 9 demo_ss 10 demo_script))) ''s/a'' = Some ''Hi you. Oh yo. So be it.''"
proof -
  let ?s = "serve 9 demo_ss 10 demo_script"
  let ?ls = "receive_lines (sent_bytes (client_part 10 (snd ?s)))"
  let ?in = "edit_text (1, ''you. Oh'') @ ''ETIRW'' @ [newline]"
  let ?r = "client_handle_write demo_client ''a'' 0 (demo_io ?ls ?in)"
  have "snd ?r = 0 \<and> stdin_text (fst ?r) = [] \<and>
      ss_messages (trace (fst ?r)) = ss_messages (trace (demo_io ?ls ?in)) @ map wire (write_script (cl_username demo_client) ''a'' 0 [(1, ''you. Oh'')]) \<and>
      dk_files (ss_disk (fst ?s)) (filepath demo_record) = Some (take 0 ''Hi yo. So be it.'' @ ''Hi you. Oh yo.'' @ drop 6 ''Hi yo. So be it.'') \<and>
      dk_files (ss_disk (fst ?s)) (undopath demo_record) = Some ''Hi yo. So be it.''"
    by (rule write_end_to_end [OF demo_located demo_read_facts(5) _ demo_write_facts(8) _ demo_inv demo_read_facts(1) _ _ _ _
          demo_read_facts(3,4) _ demo_write_facts(3,4,5,6,7) prod.collapse [symmetric], where now = 9])
      (simp_all add: demo_read_facts demo_write_facts demo_io_def demo_script_def INT_MAX_I_def)
  then have "snd ?r = 0" "dk_files (ss_disk (fst ?s)) (filepath demo_record) = Some ''Hi you. Oh yo. So be it.''"
    unfolding demo_write_facts(9) by blast+
  then show ?thesis
    by (intro exI [of _ ?ls]) (simp add: demo_record_def)
qed

end
