(* ===== verification/Protocol_Tests.thy ===== *)
theory Protocol_Tests
  imports Protocol
begin

text \<open>
  The test program of the protocol (\<open>test_protocol.c\<close>).  Every test function is the conjunction of its assertions
  over the functions of \<open>Protocol\<close>; the last one only prints messages, which must then exist.  That all assertions
  hold checks the model against the expectations the authors wrote down.  The printed text is left out.
\<close>

section \<open>The tests\<close>

definition built :: "cstring list \<Rightarrow> cstring option" where
  "built flds = protocol_build_message (map Some flds)"

definition parsed :: "cstring \<Rightarrow> protocol_message" where
  "parsed line = protocol_parse_message (line @ [newline])"

definition test_message_building :: bool where
  "test_message_building \<longleftrightarrow>
     built [''HELLO_CLIENT'', ''john_doe''] = Some (''HELLO_CLIENT|john_doe'' @ [newline]) \<and>
     built [''HELLO_SS'', ''192.168.1.10'', ''8001'', ''192.168.1.10'', ''8002''] =
       Some (''HELLO_SS|192.168.1.10|8001|192.168.1.10|8002'' @ [newline]) \<and>
     built [''CREATE'', ''newfile.txt''] = Some (''CREATE|newfile.txt'' @ [newline]) \<and>
     built [''REQ_LOC'', ''READ'', ''document.txt''] = Some (''REQ_LOC|READ|document.txt'' @ [newline])"

definition test_message_parsing :: bool where
  "test_message_parsing \<longleftrightarrow>
     (let m = parsed ''HELLO_CLIENT|john_doe'' in
        field_count m = 2 \<and> msg_fields m ! 0 = ''HELLO_CLIENT'' \<and> msg_fields m ! 1 = ''john_doe'') \<and>
     (let m = parsed ''CREATE_FILE|file.txt|owner_user'' in
        field_count m = 3 \<and> msg_fields m ! 0 = ''CREATE_FILE'' \<and> msg_fields m ! 1 = ''file.txt'' \<and> msg_fields m ! 2 = ''owner_user'') \<and>
     (let m = parsed ''REQ_WRITE_LOCK|user|file.txt|2'' in
        field_count m = 4 \<and> msg_fields m ! 0 = ''REQ_WRITE_LOCK'' \<and> msg_fields m ! 3 = ''2'')"

text \<open>\<open>strstr\<close> on a result that is not \<open>NULL\<close>.\<close>

definition contains_part :: "cstring option \<Rightarrow> cstring \<Rightarrow> bool" where
  "contains_part s part = (case s of None \<Rightarrow> False
     | Some t \<Rightarrow> list_ex (\<lambda>i. take (length part) (drop i t) = part) [0..<Suc (length t)])"

definition test_error_messages :: bool where
  "test_error_messages \<longleftrightarrow>
     (let err1 = protocol_build_error ERR_FILE_NOT_FOUND None in
        err1 \<noteq> None \<and> contains_part err1 ''ERR'' \<and> contains_part err1 ''404'') \<and>
     protocol_build_error ERR_PERMISSION_DENIED (Some ''You cannot access this file.'') =
       Some (''ERR|403|You cannot access this file.'' @ [newline]) \<and>
     (let m = parsed ''ERR|423|Sentence is locked by another user.'' in
        protocol_is_error m \<and> protocol_get_error_code m = 423)"

definition test_ok_messages :: bool where
  "test_ok_messages \<longleftrightarrow>
     protocol_build_ok None = Some (''OK'' @ [newline]) \<and>
     protocol_build_ok (Some ''File created successfully.'') = Some (''OK|File created successfully.'' @ [newline]) \<and>
     built [''OK_LOC'', ''file.txt'', ''192.168.1.10'', ''8002''] = Some (''OK_LOC|file.txt|192.168.1.10|8002'' @ [newline])"

text \<open>The third assertion passes \<open>NULL\<close>, which the function rejects before anything else.\<close>

definition test_validation :: bool where
  "test_validation \<longleftrightarrow> protocol_validate_message (''HELLO_CLIENT|user'' @ [newline]) \<and>
     \<not> protocol_validate_message ''HELLO_CLIENT|user''"

definition test_specific_commands :: bool where
  "test_specific_commands \<longleftrightarrow>
     built [''ADDACCESS'', ''file.txt'', ''jane_doe'', ''R''] = Some (''ADDACCESS|file.txt|jane_doe|R'' @ [newline]) \<and>
     built [''WRITE_DATA'', ''5'', ''awesome''] = Some (''WRITE_DATA|5|awesome'' @ [newline]) \<and>
     built [''GET_STATS'', ''document.txt''] = Some (''GET_STATS|document.txt'' @ [newline]) \<and>
     built [''OK_STATS'', ''doc.txt'', ''150'', ''823'', ''1024'', ''1729785000'', ''1729784500''] \<noteq> None \<and>
     built [''REQ_CHECKPOINT'', ''user'', ''file.txt'', ''version1''] = Some (''REQ_CHECKPOINT|user|file.txt|version1'' @ [newline])"

definition test_complete_flows :: bool where
  "test_complete_flows \<longleftrightarrow> None \<notin> set
     [built [''CREATE'', ''newfile.txt''], built [''CREATE_FILE'', ''newfile.txt'', ''john_doe''],
      built [''OK_CREATE'', ''File created.''],
      protocol_build_ok (Some (''File '' @ [CHR 0x27] @ ''newfile.txt'' @ [CHR 0x27] @ '' created successfully.'')),
      built [''REQ_LOC'', ''WRITE'', ''file.txt''], built [''OK_LOC'', ''file.txt'', ''192.168.1.10'', ''8002''],
      built [''REQ_WRITE_LOCK'', ''user'', ''file.txt'', ''0''], built [''OK_LOCKED'', ''0'', ''This is the sentence.''],
      built [''WRITE_DATA'', ''2'', ''new_word''], built [''ETIRW''], built [''OK_WRITE_DONE'', ''Write successful.'']]"

definition test_main :: bool where
  "test_main \<longleftrightarrow> test_message_building \<and> test_message_parsing \<and> test_error_messages \<and> test_ok_messages \<and>
     test_validation \<and> test_specific_commands \<and> test_complete_flows"

section \<open>They pass\<close>

lemma built_joined: "flds \<noteq> [] \<Longrightarrow> built flds = Some (join_with PROTOCOL_DELIMITER flds @ [newline])"
  by (simp add: built_def build_some)

lemma parsed_fields:
  "length line + 1 < MAX_MESSAGE_SIZE \<Longrightarrow> length (split_on PROTOCOL_DELIMITER line) \<le> MAX_FIELDS \<Longrightarrow>
     msg_fields (parsed line) = split_on PROTOCOL_DELIMITER line"
  by (simp add: parsed_def parse_fields bounded_copy_id strip_terminator_def)

lemma parsed_literals:
  "msg_fields (parsed ''HELLO_CLIENT|john_doe'') = [''HELLO_CLIENT'', ''john_doe'']"
  "msg_fields (parsed ''CREATE_FILE|file.txt|owner_user'') = [''CREATE_FILE'', ''file.txt'', ''owner_user'']"
  "msg_fields (parsed ''REQ_WRITE_LOCK|user|file.txt|2'') = [''REQ_WRITE_LOCK'', ''user'', ''file.txt'', ''2'']"
  "msg_fields (parsed ''ERR|423|Sentence is locked by another user.'') =
     [''ERR'', ''423'', ''Sentence is locked by another user.'']"
  by (simp_all add: parsed_fields PROTOCOL_DELIMITER_def MAX_MESSAGE_SIZE_def MAX_FIELDS_def)

lemma code_texts: "show_int 404 = ''404''" "show_int 403 = ''403''"
  by (simp_all add: show_int_def show_nat_def dec_digits.simps digit_char_def) code_simp+

lemma building_passes: "test_message_building" "test_ok_messages" "test_specific_commands" "test_complete_flows"
  by (simp_all add: test_message_building_def test_ok_messages_def test_specific_commands_def test_complete_flows_def
      built_joined protocol_build_ok_def protocol_build_message_def build_loop_eq PROTOCOL_DELIMITER_def newline_def)

lemma parsing_passes: "test_message_parsing"
  by (simp add: test_message_parsing_def Let_def parsed_literals)

lemma validation_passes: "test_validation"
  by (simp add: test_validation_def protocol_validate_message_def newline_def MAX_MESSAGE_SIZE_def)

lemma errors_pass: "test_error_messages"
proof -
  have e: "protocol_build_error ERR_FILE_NOT_FOUND None = Some (''ERR|404|File not found.'' @ [newline])"
    "protocol_build_error ERR_PERMISSION_DENIED (Some ''You cannot access this file.'') =
       Some (''ERR|403|You cannot access this file.'' @ [newline])"
    by (simp_all add: protocol_build_error_def protocol_build_message_def build_loop_eq protocol_get_error_message_def
        error_messages_def err_defs code_texts bounded_copy_id PROTOCOL_DELIMITER_def)
  have c: "atoi ''423'' = 423"
    by code_simp
  have p: "contains_part (Some (''ERR|404|File not found.'' @ [newline])) ''ERR''"
      "contains_part (Some (''ERR|404|File not found.'' @ [newline])) ''404''"
    by code_simp+
  show ?thesis
    using e c p by (simp add: test_error_messages_def Let_def parsed_literals protocol_is_error_def protocol_get_error_code_def)
qed

text \<open>Every assertion of the test program of the protocol holds of the model.\<close>

lemma protocol_tests_pass: "test_main"
  using building_passes parsing_passes errors_pass validation_passes by (simp add: test_main_def)

end
